(* ===== verification/Prelude.thy ===== *)
theory Prelude
  imports Main "HOL-Library.Sublist"
begin

text \<open>
  What every component of the development shares.

  \<^item> Lists: \<open>find_map\<close> and \<open>position\<close>, Rust's iterator adaptors of the same names, and
    \<open>join\<close>, the slice method.
  \<^item> The daemons: both long-running daemons (\<open>packages/var-disk-manager/src/bin/daemon.rs\<close>
    and \<open>packages/operator-secrets/src/bin/daemon.rs\<close>) are straight-line \<open>async\<close> code over
    one UI state.  A daemon function is a \<open>prog\<close>: it takes the state and returns an
    \<open>outcome\<close> and the new state.  The outcomes are the four ways such a function can be
    found: it returned (\<open>Done\<close>), it returned an error (\<open>Failed\<close>, the \<open>anyhow\<close> message
    kept as a value of the component's error type), it sits in a loop that never ends by
    design (\<open>Parked\<close>), or it polls for an operator message that has not arrived
    (\<open>Waiting\<close>).  Operator messages are a finite list in the state, so a run is a finite
    prefix of the daemon's life and every loop over messages is structural recursion.
  \<^item> \<open>wp\<close>, the weakest precondition of a \<open>prog\<close>, with one simplification rule per
    construct; \<open>keeps\<close> is the special case of an invariant that holds however the
    program ends.
\<close>

named_theorems wp_simps "weakest preconditions of the daemons' building blocks"
named_theorems keeps_intros "invariants kept by the daemons' building blocks"

section \<open>Lists\<close>

fun find_map :: "('a \<Rightarrow> 'b option) \<Rightarrow> 'a list \<Rightarrow> 'b option" where
  "find_map f [] = None"
| "find_map f (x # xs) = (case f x of Some y \<Rightarrow> Some y | None \<Rightarrow> find_map f xs)"

lemma find_map_SomeD: "find_map f xs = Some y \<Longrightarrow> \<exists>x\<in>set xs. f x = Some y"
  by (induction xs) (auto split: option.splits)

lemma find_map_None_iff: "find_map f xs = None \<longleftrightarrow> (\<forall>x\<in>set xs. f x = None)"
  by (induction xs) (auto split: option.splits)

lemma find_map_append:
  "find_map f (xs @ ys) = (case find_map f xs of Some y \<Rightarrow> Some y | None \<Rightarrow> find_map f ys)"
  by (induction xs) (auto split: option.splits)

lemma find_SomeD: "find P xs = Some x \<Longrightarrow> x \<in> set xs \<and> P x"
  by (auto simp: find_Some_iff)

fun position :: "('a \<Rightarrow> bool) \<Rightarrow> 'a list \<Rightarrow> nat option" where
  "position P [] = None"
| "position P (x # xs) = (if P x then Some 0 else map_option Suc (position P xs))"

lemma position_None_iff: "position P xs = None \<longleftrightarrow> (\<forall>x\<in>set xs. \<not> P x)"
  by (induction xs) auto

lemma position_SomeD:
  "position P xs = Some i \<Longrightarrow> i < length xs \<and> P (xs ! i) \<and> (\<forall>j<i. \<not> P (xs ! j))"
proof (induction xs arbitrary: i)
  case Nil
  then show ?case by simp
next
  case (Cons x xs)
  show ?case
  proof (cases "P x")
    case True
    with Cons.prems show ?thesis by simp
  next
    case False
    with Cons.prems obtain k where k: "position P xs = Some k" and i: "i = Suc k"
      by auto
    from Cons.IH [OF k] i False show ?thesis
      by (auto simp: less_Suc_eq_0_disj)
  qed
qed

lemma position_append:
  "position P (xs @ ys) =
     (case position P xs of Some i \<Rightarrow> Some i | None \<Rightarrow> map_option ((+) (length xs)) (position P ys))"
proof (induction xs)
  case Nil
  then show ?case by (cases "position P ys") auto
next
  case (Cons x xs)
  then show ?case by (cases "position P ys") (auto split: option.splits)
qed

lemma position_nth:
  assumes "distinct xs" and "i < length xs"
  shows "position (\<lambda>y. y = xs ! i) xs = Some i"
  using assms
proof (induction xs arbitrary: i)
  case Nil
  then show ?case by simp
next
  case (Cons x xs)
  then show ?case by (cases i) auto
qed

fun join :: "'a list \<Rightarrow> 'a list list \<Rightarrow> 'a list" where
  "join sep [] = []"
| "join sep [x] = x"
| "join sep (x # y # zs) = x @ sep @ join sep (y # zs)"

lemma join_append1: "xs \<noteq> [] \<Longrightarrow> join sep (xs @ [y]) = join sep xs @ sep @ y"
  by (induction sep xs rule: join.induct) auto

text \<open>\<open>iter_mut().find(p)\<close> followed by an assignment: only the first match changes.\<close>

fun update_first :: "('a \<Rightarrow> bool) \<Rightarrow> ('a \<Rightarrow> 'a) \<Rightarrow> 'a list \<Rightarrow> 'a list" where
  "update_first P f [] = []"
| "update_first P f (x # xs) = (if P x then f x # xs else x # update_first P f xs)"

lemma length_update_first [simp]: "length (update_first P f xs) = length xs"
  by (induction xs) auto

section \<open>Daemon programs\<close>

datatype ('e, 'a) outcome = Done 'a | Failed 'e | Parked | Waiting

type_synonym ('s, 'e, 'a) prog = "'s \<Rightarrow> ('e, 'a) outcome \<times> 's"

definition ret :: "'a \<Rightarrow> ('s, 'e, 'a) prog" where
  "ret a = (\<lambda>s. (Done a, s))"

definition fail :: "'e \<Rightarrow> ('s, 'e, 'a) prog" where
  "fail e = (\<lambda>s. (Failed e, s))"

definition park :: "('s, 'e, 'a) prog" where
  "park = (\<lambda>s. (Parked, s))"

definition wait :: "('s, 'e, 'a) prog" where
  "wait = (\<lambda>s. (Waiting, s))"

definition bnd :: "('s, 'e, 'a) prog \<Rightarrow> ('a \<Rightarrow> ('s, 'e, 'b) prog) \<Rightarrow> ('s, 'e, 'b) prog" where
  "bnd m f = (\<lambda>s. case m s of
      (Done a, s') \<Rightarrow> f a s'
    | (Failed e, s') \<Rightarrow> (Failed e, s')
    | (Parked, s') \<Rightarrow> (Parked, s')
    | (Waiting, s') \<Rightarrow> (Waiting, s'))"

definition update_state :: "('s \<Rightarrow> 's) \<Rightarrow> ('s, 'e, unit) prog" where
  "update_state f = (\<lambda>s. (Done (), f s))"

definition gets :: "('s \<Rightarrow> 'a) \<Rightarrow> ('s, 'e, 'a) prog" where
  "gets f = (\<lambda>s. (Done (f s), s))"

text \<open>The \<open>match result\<close> of the source: the error is a value, and the program goes on.\<close>

definition attempt :: "('s, 'e, 'a) prog \<Rightarrow> ('s, 'e, 'e + 'a) prog" where
  "attempt m = (\<lambda>s. case m s of
      (Done a, s') \<Rightarrow> (Done (Inr a), s')
    | (Failed e, s') \<Rightarrow> (Done (Inl e), s')
    | (Parked, s') \<Rightarrow> (Parked, s')
    | (Waiting, s') \<Rightarrow> (Waiting, s'))"

text \<open>\<open>let _ = f();\<close>, \<open>f().context(c)?\<close> and \<open>f().map_err(...)?\<close>.\<close>

definition ignore :: "('s, 'e, 'a) prog \<Rightarrow> ('s, 'e, unit) prog" where
  "ignore m = bnd (attempt m) (\<lambda>_. ret ())"

definition map_err :: "('e \<Rightarrow> 'e) \<Rightarrow> ('s, 'e, 'a) prog \<Rightarrow> ('s, 'e, 'a) prog" where
  "map_err f m = bnd (attempt m) (\<lambda>r. case r of Inl e \<Rightarrow> fail (f e) | Inr a \<Rightarrow> ret a)"

fun each :: "('a \<Rightarrow> ('s, 'e, unit) prog) \<Rightarrow> 'a list \<Rightarrow> ('s, 'e, unit) prog" where
  "each f [] = ret ()"
| "each f (x # xs) = bnd (f x) (\<lambda>_. each f xs)"

text \<open>
  A \<open>loop\<close> that repeats its body until it breaks with \<open>Inl\<close>.  The number bounds the turns;
  where the body takes a message from a queue in every turn it never runs out
  (\<open>loop_enough\<close>).
\<close>

fun loop :: "nat \<Rightarrow> ('x \<Rightarrow> ('s, 'e, 'a + 'x) prog) \<Rightarrow> 'x \<Rightarrow> ('s, 'e, 'a) prog" where
  "loop 0 body x = wait"
| "loop (Suc n) body x = bnd (body x) (\<lambda>r. case r of Inl a \<Rightarrow> ret a | Inr y \<Rightarrow> loop n body y)"

lemma bnd_ret [simp]: "bnd (ret a) f = f a"
  by (simp add: bnd_def ret_def)

lemma bnd_assoc: "bnd (bnd m f) g = bnd m (\<lambda>a. bnd (f a) g)"
  by (auto simp: bnd_def fun_eq_iff split: prod.splits outcome.splits)

subsection \<open>Weakest preconditions\<close>

definition wp :: "('s, 'e, 'a) prog \<Rightarrow> ('a \<Rightarrow> 's \<Rightarrow> bool) \<Rightarrow> ('s \<Rightarrow> bool) \<Rightarrow> 's \<Rightarrow> bool" where
  "wp m Q E s = (case m s of
      (Done a, s') \<Rightarrow> Q a s'
    | (Failed e, s') \<Rightarrow> E s'
    | (Parked, s') \<Rightarrow> E s'
    | (Waiting, s') \<Rightarrow> E s')"

lemma wp_ret [wp_simps]: "wp (ret a) Q E s = Q a s"
  by (simp add: wp_def ret_def)

lemma wp_fail [wp_simps]: "wp (fail e) Q E s = E s"
  by (simp add: wp_def fail_def)

lemma wp_park [wp_simps]: "wp park Q E s = E s"
  by (simp add: wp_def park_def)

lemma wp_wait [wp_simps]: "wp wait Q E s = E s"
  by (simp add: wp_def wait_def)

lemma wp_bnd [wp_simps]: "wp (bnd m f) Q E s = wp m (\<lambda>a. wp (f a) Q E) E s"
  by (auto simp: wp_def bnd_def split: prod.splits outcome.splits)

lemma wp_update_state [wp_simps]: "wp (update_state f) Q E s = Q () (f s)"
  by (simp add: wp_def update_state_def)

lemma wp_gets [wp_simps]: "wp (gets f) Q E s = Q (f s) s"
  by (simp add: wp_def gets_def)

lemma wp_if [wp_simps]:
  "wp (if b then m else n) Q E s = (if b then wp m Q E s else wp n Q E s)"
  by simp

lemma wp_mono:
  "wp m Q E s \<Longrightarrow> (\<And>a s'. Q a s' \<Longrightarrow> Q' a s') \<Longrightarrow> (\<And>s'. E s' \<Longrightarrow> E' s') \<Longrightarrow> wp m Q' E' s"
  by (auto simp: wp_def split: prod.splits outcome.splits)

lemma wp_seq:
  "wp m (\<lambda>_. A) X s \<Longrightarrow> (\<And>a s1. A s1 \<Longrightarrow> wp (f a) Q X s1) \<Longrightarrow> wp (bnd m f) Q X s"
  unfolding wp_bnd by (rule wp_mono)

lemma wp_conj:
  "wp m Q E s \<Longrightarrow> wp m Q' E' s \<Longrightarrow> wp m (\<lambda>a s. Q a s \<and> Q' a s) (\<lambda>s. E s \<and> E' s) s"
  by (auto simp: wp_def split: prod.splits outcome.splits)

lemma wp_DoneD: "wp m Q E s \<Longrightarrow> m s = (Done a, s') \<Longrightarrow> Q a s'"
  by (simp add: wp_def)

lemma wp_attempt:
  "wp m (\<lambda>a. Q (Inr a)) (\<lambda>s'. (\<forall>e. Q (Inl e) s') \<and> E s') s \<Longrightarrow> wp (attempt m) Q E s"
  by (auto simp: wp_def attempt_def split: prod.splits outcome.splits)

lemma wp_ignore:
  "wp m (\<lambda>_. Q ()) (\<lambda>s'. Q () s' \<and> E s') s \<Longrightarrow> wp (ignore m) Q E s"
  unfolding ignore_def wp_bnd
  by (rule wp_attempt) (auto simp: wp_ret elim!: wp_mono)

lemma wp_map_err: "wp m Q E s \<Longrightarrow> wp (map_err f m) Q E s"
  unfolding map_err_def wp_bnd
  by (rule wp_attempt) (auto simp: wp_ret wp_fail elim!: wp_mono)

lemma wp_loop:
  assumes "I x s"
    and "\<And>x s. I x s \<Longrightarrow> wp (body x) (\<lambda>r s'. case r of Inl a \<Rightarrow> Q a s' | Inr y \<Rightarrow> I y s') E s"
    and "\<And>x s. I x s \<Longrightarrow> E s"
  shows "wp (loop n body x) Q E s"
  using assms(1)
proof (induction n arbitrary: x s)
  case 0
  then show ?case by (simp add: wp_wait assms(3))
next
  case (Suc n)
  show ?case
    unfolding loop.simps wp_bnd
    by (rule wp_mono [OF assms(2) [OF Suc.prems]]) (auto simp: wp_ret Suc.IH split: sum.splits)
qed

lemma bnd_cong_wp:
  assumes "wp m R (\<lambda>_. True) s" and "\<And>a s1. R a s1 \<Longrightarrow> f a s1 = g a s1"
  shows "bnd m f s = bnd m g s"
  using assms by (auto simp: bnd_def wp_def split: prod.splits outcome.splits)

lemma loop_enough:
  fixes body :: "'x \<Rightarrow> ('s, 'e, 'a + 'x) prog"
  assumes "\<And>x s. wp (body x) (\<lambda>r s'. case r of Inl _ \<Rightarrow> True | Inr _ \<Rightarrow> \<mu> s' < (\<mu> s :: nat)) (\<lambda>_. True) s"
  shows "\<mu> s < n \<Longrightarrow> \<mu> s < m \<Longrightarrow> loop n body x s = loop m body x s"
proof (induction n arbitrary: m x s)
  case 0
  then show ?case by simp
next
  case (Suc n)
  then obtain k where m: "m = Suc k" by (cases m) auto
  show ?case
    unfolding m loop.simps
  proof (rule bnd_cong_wp [OF assms])
    fix r :: "'a + 'x" and s1 :: 's
    assume "case r of Inl _ \<Rightarrow> True | Inr _ \<Rightarrow> \<mu> s1 < \<mu> s"
    then show "(case r of Inl a \<Rightarrow> ret a | Inr y \<Rightarrow> loop n body y) s1 =
        (case r of Inl a \<Rightarrow> ret a | Inr y \<Rightarrow> loop k body y) s1"
      using Suc.IH [where m = k] Suc.prems m by (cases r) (simp_all add: less_Suc_eq_le)
  qed
qed

subsection \<open>Invariants\<close>

definition keeps :: "('s \<Rightarrow> bool) \<Rightarrow> ('s, 'e, 'a) prog \<Rightarrow> bool" where
  "keeps I m \<longleftrightarrow> (\<forall>s. I s \<longrightarrow> I (snd (m s)))"

lemma keepsD: "keeps I m \<Longrightarrow> I s \<Longrightarrow> m s = (r, s') \<Longrightarrow> I s'"
  by (force simp: keeps_def)

lemma keeps_iff_wp: "keeps I m \<longleftrightarrow> (\<forall>s. I s \<longrightarrow> wp m (\<lambda>_. I) I s)"
proof -
  have "I (snd (m s)) \<longleftrightarrow> wp m (\<lambda>_. I) I s" for s
    by (cases "m s"; cases "fst (m s)") (auto simp: wp_def)
  then show ?thesis by (simp add: keeps_def)
qed

lemma wp_snd: "wp m (\<lambda>_. I) I s \<Longrightarrow> I (snd (m s))"
  by (auto simp: wp_def split: prod.splits outcome.splits)

lemma keeps_wp: "keeps I m \<Longrightarrow> I s \<Longrightarrow> wp m (\<lambda>_. I) I s"
  by (simp add: keeps_iff_wp)

lemma wp_keeps: "(\<And>s. I s \<Longrightarrow> wp m (\<lambda>_. I) I s) \<Longrightarrow> keeps I m"
  by (simp add: keeps_iff_wp)

lemma keeps_ret [keeps_intros]: "keeps I (ret a)"
  by (simp add: keeps_def ret_def)

lemma keeps_fail [keeps_intros]: "keeps I (fail e)"
  by (simp add: keeps_def fail_def)

lemma keeps_park [keeps_intros]: "keeps I park"
  by (simp add: keeps_def park_def)

lemma keeps_wait [keeps_intros]: "keeps I wait"
  by (simp add: keeps_def wait_def)

lemma keeps_gets [keeps_intros]: "keeps I (gets f)"
  by (simp add: keeps_def gets_def)

lemma keeps_bnd [keeps_intros]: "keeps I m \<Longrightarrow> (\<And>a. keeps I (f a)) \<Longrightarrow> keeps I (bnd m f)"
  by (auto simp: keeps_iff_wp wp_bnd elim!: wp_mono)

lemma keeps_attempt [keeps_intros]: "keeps I m \<Longrightarrow> keeps I (attempt m)"
  by (auto simp: keeps_iff_wp intro!: wp_attempt elim!: wp_mono)

lemma keeps_ignore [keeps_intros]: "keeps I m \<Longrightarrow> keeps I (ignore m)"
  unfolding ignore_def by (intro keeps_intros)

lemma keeps_map_err [keeps_intros]: "keeps I m \<Longrightarrow> keeps I (map_err f m)"
  unfolding map_err_def
  by (rule keeps_bnd) (auto intro: keeps_attempt keeps_fail keeps_ret split: sum.splits)

lemma keeps_if [keeps_intros]:
  "(b \<Longrightarrow> keeps I m) \<Longrightarrow> (\<not> b \<Longrightarrow> keeps I n) \<Longrightarrow> keeps I (if b then m else n)"
  by simp

lemma keeps_each [keeps_intros]: "(\<And>x. x \<in> set xs \<Longrightarrow> keeps I (f x)) \<Longrightarrow> keeps I (each f xs)"
  by (induction xs) (auto intro!: keeps_intros)

lemma keeps_option [keeps_intros]:
  "(x = None \<Longrightarrow> keeps I m) \<Longrightarrow> (\<And>a. x = Some a \<Longrightarrow> keeps I (f a)) \<Longrightarrow>
   keeps I (case x of None \<Rightarrow> m | Some a \<Rightarrow> f a)"
  by (cases x) auto

lemma keeps_sum [keeps_intros]:
  "(\<And>a. x = Inl a \<Longrightarrow> keeps I (f a)) \<Longrightarrow> (\<And>b. x = Inr b \<Longrightarrow> keeps I (g b)) \<Longrightarrow>
   keeps I (case x of Inl a \<Rightarrow> f a | Inr b \<Rightarrow> g b)"
  by (cases x) auto

section \<open>Mailboxes\<close>

text \<open>
  Both daemons post a numbered prompt and then take messages from one queue until one of
  them answers that prompt; everything else is dropped.  \<open>take_answer\<close> is that loop: the
  first message with an answer and what is left of the queue, \<open>None\<close> when the queue ran out.
  The locale states what makes the numbering sound: a message answers at most one prompt.
\<close>

fun take_answer :: "('m \<Rightarrow> 'v option) \<Rightarrow> 'm list \<Rightarrow> ('v \<times> 'm list) option" where
  "take_answer f [] = None"
| "take_answer f (m # ms) = (case f m of Some v \<Rightarrow> Some (v, ms) | None \<Rightarrow> take_answer f ms)"

lemma take_answer_SomeD:
  "take_answer f ms = Some (v, rest) \<Longrightarrow>
     \<exists>pre m. ms = pre @ m # rest \<and> f m = Some v \<and> (\<forall>x\<in>set pre. f x = None)"
proof (induction ms)
  case Nil
  then show ?case by simp
next
  case (Cons a ms)
  show ?case
  proof (cases "f a")
    case None
    with Cons obtain pre m where "ms = pre @ m # rest" "f m = Some v" "\<forall>x\<in>set pre. f x = None"
      by auto
    with None have "a # ms = (a # pre) @ m # rest \<and> f m = Some v \<and> (\<forall>x\<in>set (a # pre). f x = None)"
      by simp
    then show ?thesis by blast
  next
    case (Some w)
    with Cons.prems have "a # ms = [] @ a # rest \<and> f a = Some v" by simp
    then show ?thesis by fastforce
  qed
qed

lemma take_answer_shorter: "take_answer f ms = Some (v, rest) \<Longrightarrow> length rest < length ms"
  by (auto dest!: take_answer_SomeD)

lemma take_answer_None_iff: "take_answer f ms = None \<longleftrightarrow> (\<forall>m\<in>set ms. f m = None)"
  by (induction ms) (auto split: option.splits)

locale mailbox =
  fixes answer :: "nat \<Rightarrow> 'm \<Rightarrow> 'v option"
  assumes one_prompt: "answer i m = Some v \<Longrightarrow> answer j m = Some w \<Longrightarrow> i = j"
begin

lemma stale_ignored: "answer i m = Some v \<Longrightarrow> i \<noteq> j \<Longrightarrow> answer j m = None"
  using one_prompt by (cases "answer j m") auto

lemma take_skips_stale:
  "\<forall>m\<in>set stale. \<exists>i v. answer i m = Some v \<and> i \<noteq> j \<Longrightarrow>
   take_answer (answer j) (stale @ ms) = take_answer (answer j) ms"
  by (induction stale) (auto dest: stale_ignored split: option.splits)

lemma take_first_answer:
  "\<forall>m\<in>set stale. \<exists>i v. answer i m = Some v \<and> i \<noteq> j \<Longrightarrow> answer j m = Some v \<Longrightarrow>
   take_answer (answer j) (stale @ m # ms) = Some (v, ms)"
  by (simp add: take_skips_stale)

end

end
