(* ===== verification/Rust_Str.thy ===== *)
theory Rust_Str
  imports Prelude
begin

text \<open>
  Rust's \<open>String\<close> and \<open>&str\<close>, and the methods of the standard library the program
  calls on them.  A string is the list of its Unicode scalar values (\<open>chars()\<close>), so
  \<open>chars().count()\<close> is \<open>length\<close>; functions that work on the UTF-8 bytes say so.
  Literals of the source are written \<open>str ''...''\<close>.

  Each function states the behaviour of the method it is named after, corner cases
  included: \<open>lines\<close> drops the terminator and one carriage return in front of it but
  keeps a bare one, \<open>trim\<close> and \<open>split_whitespace\<close> use the Unicode \<open>White_Space\<close> property,
  integer parsing accepts one leading plus sign and rejects overflow, \<open>replace\<close> works
  from the left without overlaps and inserts at every boundary for an empty pattern.
\<close>

type_synonym rchar = nat
type_synonym rstr = "rchar list"

definition str :: "string \<Rightarrow> rstr" where
  "str cs = map of_char cs"

abbreviation ch :: "char \<Rightarrow> rchar" where
  "ch c \<equiv> of_char c"

lemma str_Nil [simp]: "str [] = []"
  by (simp add: str_def)

lemma str_append: "str (xs @ ys) = str xs @ str ys"
  by (simp add: str_def)

lemma length_str [simp]: "length (str cs) = length cs"
  by (simp add: str_def)

lemma str_eq_Nil [simp]: "str cs = [] \<longleftrightarrow> cs = []" "[] = str cs \<longleftrightarrow> cs = []"
  by (auto simp: str_def)

lemma str_eq_iff [simp]: "str cs = str ds \<longleftrightarrow> cs = ds"
  unfolding str_def by (rule inj_map_eq_map) (auto intro: injI)

section \<open>Characters\<close>

text \<open>\<open>char::is_whitespace\<close>: the code points with the \<open>White_Space\<close> property.\<close>

definition is_whitespace :: "rchar \<Rightarrow> bool" where
  "is_whitespace c \<longleftrightarrow> 9 \<le> c \<and> c \<le> 13 \<or> c = 32 \<or> c = 0x85 \<or> c = 0xA0 \<or> c = 0x1680 \<or>
     0x2000 \<le> c \<and> c \<le> 0x200A \<or> c = 0x2028 \<or> c = 0x2029 \<or> c = 0x202F \<or> c = 0x205F \<or> c = 0x3000"

text \<open>\<open>char::is_control\<close>: general category \<open>Cc\<close>; \<open>char::is_ascii_control\<close>: its ASCII part.\<close>

definition is_control :: "rchar \<Rightarrow> bool" where
  "is_control c \<longleftrightarrow> c < 32 \<or> 127 \<le> c \<and> c < 160"

definition is_ascii_control :: "rchar \<Rightarrow> bool" where
  "is_ascii_control c \<longleftrightarrow> c < 32 \<or> c = 127"

definition is_ascii_digit :: "rchar \<Rightarrow> bool" where
  "is_ascii_digit c \<longleftrightarrow> 48 \<le> c \<and> c \<le> 57"

definition is_ascii_upper :: "rchar \<Rightarrow> bool" where
  "is_ascii_upper c \<longleftrightarrow> 65 \<le> c \<and> c \<le> 90"

definition is_ascii_lower :: "rchar \<Rightarrow> bool" where
  "is_ascii_lower c \<longleftrightarrow> 97 \<le> c \<and> c \<le> 122"

definition is_ascii_alphanumeric :: "rchar \<Rightarrow> bool" where
  "is_ascii_alphanumeric c \<longleftrightarrow> is_ascii_digit c \<or> is_ascii_upper c \<or> is_ascii_lower c"

definition ascii_lower :: "rchar \<Rightarrow> rchar" where
  "ascii_lower c = (if is_ascii_upper c then c + 32 else c)"

definition to_ascii_lowercase :: "rstr \<Rightarrow> rstr" where
  "to_ascii_lowercase s = map ascii_lower s"

definition eq_ignore_ascii_case :: "rstr \<Rightarrow> rstr \<Rightarrow> bool" where
  "eq_ignore_ascii_case s t \<longleftrightarrow> to_ascii_lowercase s = to_ascii_lowercase t"

lemmas char_class_defs = is_whitespace_def is_control_def is_ascii_control_def is_ascii_digit_def
  is_ascii_upper_def is_ascii_lower_def is_ascii_alphanumeric_def ascii_lower_def

lemma alphanumeric_not_whitespace: "is_ascii_alphanumeric c \<Longrightarrow> \<not> is_whitespace c"
  by (auto simp: char_class_defs)

lemma eq_ignore_ascii_case_refl [simp]: "eq_ignore_ascii_case s s"
  by (simp add: eq_ignore_ascii_case_def)

section \<open>Trimming\<close>

definition trim_start :: "rstr \<Rightarrow> rstr" where
  "trim_start s = dropWhile is_whitespace s"

definition trim_end :: "rstr \<Rightarrow> rstr" where
  "trim_end s = rev (dropWhile is_whitespace (rev s))"

definition trim :: "rstr \<Rightarrow> rstr" where
  "trim s = trim_end (trim_start s)"

lemma trim_start_id: "(s \<noteq> [] \<Longrightarrow> \<not> is_whitespace (hd s)) \<Longrightarrow> trim_start s = s"
  by (cases s) (auto simp: trim_start_def)

lemma trim_end_id: "(s \<noteq> [] \<Longrightarrow> \<not> is_whitespace (last s)) \<Longrightarrow> trim_end s = s"
  by (cases s rule: rev_cases) (auto simp: trim_end_def)

lemma trim_id:
  "(s \<noteq> [] \<Longrightarrow> \<not> is_whitespace (hd s)) \<Longrightarrow> (s \<noteq> [] \<Longrightarrow> \<not> is_whitespace (last s)) \<Longrightarrow> trim s = s"
  by (simp add: trim_def trim_start_id trim_end_id)

lemma trim_no_whitespace: "(\<And>c. c \<in> set s \<Longrightarrow> \<not> is_whitespace c) \<Longrightarrow> trim s = s"
  by (rule trim_id) auto

lemma trim_Nil [simp]: "trim [] = []"
  by (simp add: trim_def trim_start_def trim_end_def)

lemma trim_end_snoc: "is_whitespace c \<Longrightarrow> trim_end (s @ [c]) = trim_end s"
  by (simp add: trim_end_def)

lemma trim_snoc_whitespace:
  assumes "is_whitespace c" shows "trim (s @ [c]) = trim s"
proof (cases "\<forall>x\<in>set s. is_whitespace x")
  case True
  then show ?thesis
    using assms by (simp add: trim_def trim_start_def trim_end_def dropWhile_eq_Nil_conv [THEN iffD2])
next
  case False
  then have "dropWhile is_whitespace (s @ [c]) = dropWhile is_whitespace s @ [c]"
    by (auto simp: dropWhile_append1)
  then show ?thesis
    using assms by (simp add: trim_def trim_start_def trim_end_snoc)
qed

section \<open>Prefixes, infixes, replacement\<close>

definition starts_with :: "rstr \<Rightarrow> rstr \<Rightarrow> bool" where
  "starts_with s p \<longleftrightarrow> take (length p) s = p"

definition strip_prefix :: "rstr \<Rightarrow> rstr \<Rightarrow> rstr option" where
  "strip_prefix s p = (if starts_with s p then Some (drop (length p) s) else None)"

definition strip_suffix_char :: "rstr \<Rightarrow> rchar \<Rightarrow> rstr option" where
  "strip_suffix_char s c = (if s \<noteq> [] \<and> last s = c then Some (butlast s) else None)"

lemma starts_with_simps:
  "starts_with s []" "starts_with (c # s) (d # w) \<longleftrightarrow> c = d \<and> starts_with s w"
  "\<not> starts_with [] (d # w)"
  by (auto simp: starts_with_def)

lemma starts_with_append [simp]: "starts_with (p @ s) p"
  by (simp add: starts_with_def)

lemma strip_prefix_append [simp]: "strip_prefix (p @ s) p = Some s"
  by (simp add: strip_prefix_def)

lemma starts_with_iff: "starts_with s p \<longleftrightarrow> (\<exists>t. s = p @ t)"
  by (metis append_eq_conv_conj append_take_drop_id starts_with_def)

lemma strip_prefix_Some_iff: "strip_prefix s p = Some t \<longleftrightarrow> s = p @ t"
  by (auto simp: strip_prefix_def starts_with_iff)

lemma strip_suffix_char_Some_iff: "strip_suffix_char s c = Some t \<longleftrightarrow> s = t @ [c]"
  by (cases s rule: rev_cases) (auto simp: strip_suffix_char_def)

text \<open>\<open>str::contains\<close> for a string pattern.\<close>

fun contains :: "rstr \<Rightarrow> rstr \<Rightarrow> bool" where
  "contains [] p = (p = [])"
| "contains (c # s) p = (starts_with (c # s) p \<or> contains s p)"

lemma contains_iff: "contains s p \<longleftrightarrow> (\<exists>a b. s = a @ p @ b)"
proof (induction s)
  case Nil
  then show ?case by simp
next
  case (Cons c s)
  show ?case
  proof
    assume "contains (c # s) p"
    then consider "starts_with (c # s) p" | "contains s p" by auto
    then show "\<exists>a b. c # s = a @ p @ b"
    proof cases
      case 1
      then obtain t where "c # s = [] @ p @ t" by (auto simp: starts_with_iff)
      then show ?thesis by blast
    next
      case 2
      with Cons.IH obtain a b where "s = a @ p @ b" by blast
      then have "c # s = (c # a) @ p @ b" by simp
      then show ?thesis by blast
    qed
  next
    assume "\<exists>a b. c # s = a @ p @ b"
    then obtain a b where *: "c # s = a @ p @ b" by blast
    show "contains (c # s) p"
    proof (cases a)
      case Nil
      with * have "starts_with (c # s) p" by simp
      then show ?thesis by simp
    next
      case (Cons x a')
      with * have "s = a' @ p @ b" by simp
      with Cons.IH show ?thesis by auto
    qed
  qed
qed

text \<open>\<open>str::replace\<close>.\<close>

function replace :: "rstr \<Rightarrow> rstr \<Rightarrow> rstr \<Rightarrow> rstr" where
  "replace p r [] = (if p = [] then r else [])"
| "replace p r (c # s) =
     (if p = [] then r @ c # replace p r s
      else if starts_with (c # s) p then r @ replace p r (drop (length p) (c # s))
      else c # replace p r s)"
  by pat_completeness auto
termination
  by (relation "measure (\<lambda>(p, r, s). length s)") auto

section \<open>Splitting\<close>

text \<open>\<open>str::split_once\<close> and \<open>str::rsplit_once\<close> on a character.\<close>

fun split_once :: "rchar \<Rightarrow> rstr \<Rightarrow> (rstr \<times> rstr) option" where
  "split_once d [] = None"
| "split_once d (c # s) =
     (if c = d then Some ([], s) else map_option (\<lambda>(a, b). (c # a, b)) (split_once d s))"

definition rsplit_once :: "rchar \<Rightarrow> rstr \<Rightarrow> (rstr \<times> rstr) option" where
  "rsplit_once d s = map_option (\<lambda>(a, b). (rev b, rev a)) (split_once d (rev s))"

lemma split_once_None_iff: "split_once d s = None \<longleftrightarrow> d \<notin> set s"
  by (induction s) auto

lemma split_once_append [simp]: "d \<notin> set a \<Longrightarrow> split_once d (a @ d # b) = Some (a, b)"
  by (induction a) auto

lemma split_once_SomeD: "split_once d s = Some (a, b) \<Longrightarrow> s = a @ d # b \<and> d \<notin> set a"
proof (induction s arbitrary: a)
  case Nil
  then show ?case by simp
next
  case (Cons c s)
  then show ?case by (cases "c = d") auto
qed

lemma split_once_Some_iff: "split_once d s = Some (a, b) \<longleftrightarrow> s = a @ d # b \<and> d \<notin> set a"
  by (auto dest: split_once_SomeD)

lemma rsplit_once_Some_iff: "rsplit_once d s = Some (a, b) \<longleftrightarrow> s = a @ d # b \<and> d \<notin> set b"
proof -
  have "rsplit_once d s = Some (a, b) \<longleftrightarrow> split_once d (rev s) = Some (rev b, rev a)"
    by (auto simp: rsplit_once_def)
  also have "\<dots> \<longleftrightarrow> rev s = rev b @ d # rev a \<and> d \<notin> set b"
    by (simp add: split_once_Some_iff)
  also have "rev s = rev b @ d # rev a \<longleftrightarrow> s = a @ d # b"
    by (metis append.assoc append_Cons append_Nil rev.simps(2) rev_append rev_rev_ident)
  finally show ?thesis .
qed

text \<open>\<open>str::split\<close> on a character: always at least one piece.\<close>

fun split_on :: "rchar \<Rightarrow> rstr \<Rightarrow> rstr list" where
  "split_on d [] = [[]]"
| "split_on d (c # s) =
     (if c = d then [] # split_on d s
      else (case split_on d s of [] \<Rightarrow> [[c]] | p # ps \<Rightarrow> (c # p) # ps))"

lemma split_on_nonempty [simp]: "split_on d s \<noteq> []"
  by (cases s) (auto split: list.splits)

lemma split_on_append: "d \<notin> set a \<Longrightarrow> split_on d (a @ d # b) = a # split_on d b"
  by (induction a) auto

lemma split_on_single: "d \<notin> set a \<Longrightarrow> split_on d a = [a]"
  by (induction a) auto

text \<open>\<open>str::split_whitespace\<close>.\<close>

fun words_acc :: "rstr \<Rightarrow> rstr \<Rightarrow> rstr list" where
  "words_acc w [] = (if w = [] then [] else [w])"
| "words_acc w (c # s) =
     (if is_whitespace c then (if w = [] then words_acc [] s else w # words_acc [] s)
      else words_acc (w @ [c]) s)"

definition split_whitespace :: "rstr \<Rightarrow> rstr list" where
  "split_whitespace s = words_acc [] s"

definition is_word :: "rstr \<Rightarrow> bool" where
  "is_word w \<longleftrightarrow> w \<noteq> [] \<and> (\<forall>c\<in>set w. \<not> is_whitespace c)"

lemma words_acc_word: "(\<forall>c\<in>set v. \<not> is_whitespace c) \<Longrightarrow> words_acc w (v @ s) = words_acc (w @ v) s"
  by (induction v arbitrary: w) auto

lemma split_whitespace_words:
  assumes "\<forall>w\<in>set ws. is_word w"
  shows "split_whitespace (join [32] ws) = ws"
  using assms unfolding split_whitespace_def
proof (induction "[32::nat]" ws rule: join.induct)
  case 1
  then show ?case by simp
next
  case (2 x)
  then show ?case
    using words_acc_word [of x "[]" "[]"] by (simp add: is_word_def)
next
  case (3 x y zs)
  have "is_whitespace 32" by (simp add: is_whitespace_def)
  with 3 show ?case
    by (simp add: words_acc_word is_word_def)
qed

lemma words_acc_are_words:
  "(\<forall>c\<in>set w. \<not> is_whitespace c) \<Longrightarrow> \<forall>x\<in>set (words_acc w s). is_word x"
proof (induction w s rule: words_acc.induct)
  case (1 w)
  then show ?case by (simp add: is_word_def)
next
  case (2 w c s)
  then show ?case by (cases "is_whitespace c"; cases "w = []") (auto simp: is_word_def)
qed

lemma split_whitespace_are_words: "\<forall>w\<in>set (split_whitespace s). is_word w"
  unfolding split_whitespace_def by (rule words_acc_are_words) simp

text \<open>\<open>str::lines\<close>.\<close>

definition strip_cr :: "rstr \<Rightarrow> rstr" where
  "strip_cr s = (case strip_suffix_char s 13 of None \<Rightarrow> s | Some t \<Rightarrow> t)"

function lines :: "rstr \<Rightarrow> rstr list" where
  "lines [] = []"
| "lines (c # s) =
     (case split_once 10 (c # s) of
        None \<Rightarrow> [c # s]
      | Some (l, rest) \<Rightarrow> strip_cr l # lines rest)"
  by pat_completeness auto
termination
proof (relation "measure length", goal_cases)
  case 1
  show ?case by simp
next
  case (2 c s x l rest)
  then have "split_once 10 (c # s) = Some (l, rest)" by simp
  then have "c # s = l @ 10 # rest" by (rule split_once_SomeD [THEN conjunct1])
  then have "length (c # s) = length (l @ 10 # rest)" by (rule arg_cong)
  then show ?case by simp
qed

lemma lines_append: "10 \<notin> set l \<Longrightarrow> lines (l @ 10 # s) = strip_cr l # lines s"
proof -
  assume l: "10 \<notin> set l"
  obtain c t where ct: "l @ 10 # s = c # t" by (cases l) auto
  have "split_once 10 (c # t) = Some (l, s)" unfolding ct [symmetric] using l by simp
  then show ?thesis by (simp only: ct lines.simps) simp
qed

lemma lines_last: "10 \<notin> set l \<Longrightarrow> l \<noteq> [] \<Longrightarrow> lines l = [l]"
  by (cases l) (auto simp: split_once_None_iff [THEN iffD2])

lemma strip_cr_id: "(s \<noteq> [] \<Longrightarrow> last s \<noteq> 13) \<Longrightarrow> strip_cr s = s"
  by (auto simp: strip_cr_def strip_suffix_char_def)

section \<open>Paths\<close>

text \<open>\<open>PathBuf::push\<close> and \<open>Path::join\<close> on Unix: an absolute path replaces what it is joined to.\<close>

definition path_join :: "rstr \<Rightarrow> rstr \<Rightarrow> rstr" where
  "path_join a b =
     (if starts_with b (str ''/'') then b
      else if a = [] \<or> last a = ch CHR ''/'' then a @ b
      else a @ ch CHR ''/'' # b)"

section \<open>Decimal numbers\<close>

fun show_nat :: "nat \<Rightarrow> rstr" where
  "show_nat n = (if n < 10 then [48 + n] else show_nat (n div 10) @ [48 + n mod 10])"

declare show_nat.simps [simp del]

definition show_int :: "int \<Rightarrow> rstr" where
  "show_int i = (if i < 0 then ch CHR ''-'' # show_nat (nat (- i)) else show_nat (nat i))"

fun digits_value :: "nat \<Rightarrow> rstr \<Rightarrow> nat option" where
  "digits_value n [] = Some n"
| "digits_value n (c # s) = (if is_ascii_digit c then digits_value (n * 10 + (c - 48)) s else None)"

text \<open>\<open>uN::from_str\<close> for the largest value \<open>m\<close>; \<open>iN::from_str\<close> for \<open>- m - 1\<close> to \<open>m\<close>.\<close>

definition parse_digits :: "nat \<Rightarrow> rstr \<Rightarrow> nat option" where
  "parse_digits m s =
     (if s = [] then None
      else case digits_value 0 s of None \<Rightarrow> None | Some n \<Rightarrow> if n \<le> m then Some n else None)"

definition parse_uint :: "nat \<Rightarrow> rstr \<Rightarrow> nat option" where
  "parse_uint m s = (case s of
      [] \<Rightarrow> None
    | c # t \<Rightarrow> if c = ch CHR ''+'' then parse_digits m t else parse_digits m s)"

definition parse_int :: "nat \<Rightarrow> rstr \<Rightarrow> int option" where
  "parse_int m s = (case s of
      [] \<Rightarrow> None
    | c # t \<Rightarrow> if c = ch CHR ''-'' then map_option (\<lambda>n. - int n) (parse_digits (Suc m) t)
               else map_option int (parse_uint m s))"

lemma digits_value_append:
  "digits_value n (s @ t) = (case digits_value n s of None \<Rightarrow> None | Some k \<Rightarrow> digits_value k t)"
  by (induction n s rule: digits_value.induct) auto

lemma show_nat_digits: "c \<in> set (show_nat n) \<Longrightarrow> is_ascii_digit c"
proof (induction n rule: show_nat.induct)
  case (1 n)
  then show ?case
    by (cases "n < 10") (auto simp: show_nat.simps [of n] is_ascii_digit_def)
qed

lemma show_nat_nonempty [simp]: "show_nat n \<noteq> []"
  by (simp add: show_nat.simps [of n])

lemma digits_value_show_nat: "digits_value 0 (show_nat n) = Some n"
proof (induction n rule: show_nat.induct)
  case (1 n)
  show ?case
  proof (cases "n < 10")
    case True
    then show ?thesis by (simp add: show_nat.simps [of n] is_ascii_digit_def)
  next
    case False
    with "1.IH" show ?thesis
      by (auto simp: show_nat.simps [of n] digits_value_append is_ascii_digit_def)
  qed
qed

lemma parse_digits_show_nat: "n \<le> m \<Longrightarrow> parse_digits m (show_nat n) = Some n"
  by (simp add: parse_digits_def digits_value_show_nat)

lemma show_nat_hd: "show_nat n = c # s \<Longrightarrow> c \<noteq> 43 \<and> c \<noteq> 45"
  using show_nat_digits [of c n] by (auto simp: is_ascii_digit_def)

lemma parse_uint_show_nat: "n \<le> m \<Longrightarrow> parse_uint m (show_nat n) = Some n"
  using show_nat_hd [of n] parse_digits_show_nat [of n m]
  by (auto simp: parse_uint_def split: list.splits)

lemma parse_int_show_int:
  assumes "- int m - 1 \<le> i" and "i \<le> int m"
  shows "parse_int m (show_int i) = Some i"
proof (cases "i < 0")
  case True
  with assms have "nat (- i) \<le> Suc m" by simp
  with True show ?thesis
    by (simp add: show_int_def parse_int_def parse_digits_show_nat)
next
  case False
  with assms have "nat i \<le> m" by simp
  with False show ?thesis
    using show_nat_hd [of "nat i"] parse_uint_show_nat [of "nat i" m]
    by (auto simp: show_int_def parse_int_def split: list.splits)
qed

lemma parse_digits_le: "parse_digits m s = Some n \<Longrightarrow> n \<le> m"
  by (auto simp: parse_digits_def split: if_splits option.splits)

lemma parse_uint_le: "parse_uint m s = Some n \<Longrightarrow> n \<le> m"
  by (auto simp: parse_uint_def dest: parse_digits_le split: if_splits list.splits)

lemma show_nat_inj: "show_nat m = show_nat n \<longleftrightarrow> m = n"
  by (metis digits_value_show_nat option.inject)

lemma digit_not_whitespace: "is_ascii_digit c \<Longrightarrow> \<not> is_whitespace c"
  by (auto simp: char_class_defs)

lemma show_nat_is_word: "is_word (show_nat n)"
  by (auto simp: is_word_def dest: show_nat_digits digit_not_whitespace)

section \<open>Formatted text\<close>

text \<open>
  Messages for people (\<open>format!\<close> results that no code reads back) are kept as the format
  string and its arguments: \<open>Str\<close> is \<open>{}\<close> of a string, \<open>Dbg\<close> is \<open>{:?}\<close> of one, \<open>Num\<close> is
  \<open>{}\<close> of an unsigned integer, and an argument can be a formatted message itself.
  \<open>message_strings\<close> lists the strings a message interpolates, so that a theorem can say what
  a message may reveal.
\<close>

datatype message = Fmt string "message list" | Str rstr | Dbg rstr | Num nat

abbreviation lit :: "string \<Rightarrow> message" where
  "lit cs \<equiv> Fmt cs []"

fun message_strings :: "message \<Rightarrow> rstr list" where
  "message_strings (Fmt f args) = concat (map message_strings args)"
| "message_strings (Str s) = [s]"
| "message_strings (Dbg s) = [s]"
| "message_strings (Num n) = []"

text \<open>\<open>String::is_empty\<close> of a message: no format string of the program is empty.\<close>

definition message_is_empty :: "message \<Rightarrow> bool" where
  "message_is_empty t \<longleftrightarrow> t = Str []"

end
