(* ===== verification/Secrets_Spec.thy ===== *)
theory Secrets_Spec
  imports Rust_Str
begin

text \<open>
  The specification the nix module hands to operator-secretsd: the part of
  \<open>packages/operator-secrets/src/lib.rs\<close> from \<open>Spec\<close> to \<open>is_valid_key\<close>.  The JSON parser
  (\<open>serde_json\<close>) is the parameter \<open>from_json\<close> of \<open>spec_parse\<close>; what it checks after the
  parser is modelled in full.
\<close>

record field_spec =
  fname :: rstr
  fdescription :: rstr
  sensitive :: bool

record secret_spec =
  sname :: rstr
  sdescription :: rstr
  sfields :: "field_spec list"
  spath :: rstr
  sowner :: rstr
  sgroup :: "rstr option"
  smode :: rstr
  validate_command :: "rstr list option"

record secrets_spec =
  version :: nat
  secrets :: "secret_spec list"

definition SPEC_VERSION :: nat where
  "SPEC_VERSION = 1"

definition group_of :: "secret_spec \<Rightarrow> rstr" where
  "group_of s = (case sgroup s of None \<Rightarrow> sowner s | Some g \<Rightarrow> g)"

definition field_of :: "secret_spec \<Rightarrow> rstr \<Rightarrow> field_spec option" where
  "field_of s name = find (\<lambda>f. fname f = name) (sfields s)"

definition is_octal_digit :: "rchar \<Rightarrow> bool" where
  "is_octal_digit b \<longleftrightarrow> ch CHR ''0'' \<le> b \<and> b \<le> ch CHR ''7''"

text \<open>\<open>u32::from_str_radix(mode, 8)\<close> on octal digits.\<close>

definition octal_value :: "rstr \<Rightarrow> nat" where
  "octal_value s = foldl (\<lambda>n c. n * 8 + (c - 48)) 0 s"

definition parse_mode :: "rstr \<Rightarrow> nat option" where
  "parse_mode mode =
     (if mode = [] \<or> 5 < length mode \<or> \<not> list_all is_octal_digit mode then None
      else let v = octal_value mode in if 4095 < v then None else Some v)"

definition is_key_char :: "rchar \<Rightarrow> bool" where
  "is_key_char c \<longleftrightarrow> is_ascii_alphanumeric c \<or> c = ch CHR ''_''"

definition is_valid_key :: "rstr \<Rightarrow> bool" where
  "is_valid_key k \<longleftrightarrow> k \<noteq> [] \<and> \<not> is_ascii_digit (hd k) \<and> list_all is_key_char k"

definition check_secret :: "secret_spec \<Rightarrow> message option" where
  "check_secret s =
     (if sfields s = [] then Some (Fmt ''secret {}: no fields declared'' [Str (sname s)])
      else if validate_command s = Some [] then
        Some (Fmt ''secret {}: empty validate_command (omit the key entirely for a presence-only secret)'' [Str (sname s)])
      else if \<not> starts_with (spath s) (str ''/'') then
        Some (Fmt ''secret {}: path must be absolute'' [Str (sname s)])
      else if parse_mode (smode s) = None then
        Some (Fmt ''secret {}: mode {:?} is not octal'' [Str (sname s), Dbg (smode s)])
      else find_map (\<lambda>f. if \<not> is_valid_key (fname f)
             then Some (Fmt ''secret {}: field name {:?} is not a valid env-file key''
                         [Str (sname s), Dbg (fname f)])
             else None) (sfields s))"

definition spec_parse :: "(rstr \<Rightarrow> message + secrets_spec) \<Rightarrow> rstr \<Rightarrow> message + secrets_spec" where
  "spec_parse from_json input =
     (case from_json input of
        Inl e \<Rightarrow> Inl (Fmt ''parsing spec: {}'' [e])
      | Inr spec \<Rightarrow>
          if version spec \<noteq> SPEC_VERSION then
            Inl (Fmt ''spec version {} unsupported (this daemon speaks {})''
                  [Num (version spec), Num SPEC_VERSION])
          else (case find_map check_secret (secrets spec) of
              Some e \<Rightarrow> Inl e
            | None \<Rightarrow> Inr spec))"

section \<open>What an accepted specification guarantees\<close>

definition wf_secret :: "secret_spec \<Rightarrow> bool" where
  "wf_secret s \<longleftrightarrow> sfields s \<noteq> [] \<and> validate_command s \<noteq> Some [] \<and>
     (\<exists>p. spath s = str ''/'' @ p) \<and> (\<exists>m. parse_mode (smode s) = Some m) \<and>
     (\<forall>f\<in>set (sfields s). is_valid_key (fname f))"

lemma check_secret_None_iff: "check_secret s = None \<longleftrightarrow> wf_secret s"
  by (auto simp: check_secret_def wf_secret_def find_map_None_iff starts_with_iff split: if_splits)

lemma field_of_Some: "field_of s k = Some f \<Longrightarrow> f \<in> set (sfields s) \<and> fname f = k"
  by (auto simp: field_of_def find_Some_iff)

lemma field_of_None_iff: "field_of s k = None \<longleftrightarrow> (\<forall>f\<in>set (sfields s). fname f \<noteq> k)"
  by (auto simp: field_of_def find_None_iff)

lemma octal_value_snoc: "octal_value (s @ [c]) = octal_value s * 8 + (c - 48)"
  by (simp add: octal_value_def)

lemma octal_value_less: "list_all is_octal_digit s \<Longrightarrow> octal_value s < 8 ^ length s"
proof (induction s rule: rev_induct)
  case Nil
  then show ?case by (simp add: octal_value_def)
next
  case (snoc c s)
  then have "octal_value s + 1 \<le> 8 ^ length s" and "c - 48 < 8"
    by (auto simp: is_octal_digit_def)
  then show ?case by (simp add: octal_value_snoc)
qed

lemma octal_value_Cons: "octal_value (c # s) = (c - 48) * 8 ^ length s + octal_value s"
proof (induction s rule: rev_induct)
  case Nil
  then show ?case by (simp add: octal_value_def)
next
  case (snoc d s)
  have "octal_value (c # s @ [d]) = octal_value (c # s) * 8 + (d - 48)"
    using octal_value_snoc [of "c # s" d] by simp
  with snoc show ?case by (simp add: octal_value_snoc algebra_simps)
qed

lemma is_key_char_not_whitespace: "is_key_char c \<Longrightarrow> \<not> is_whitespace c \<and> c \<noteq> 61 \<and> c \<noteq> 10 \<and> c \<noteq> 35"
  by (auto simp: is_key_char_def char_class_defs)

lemma is_valid_key_chars:
  "is_valid_key k \<Longrightarrow> k \<noteq> [] \<and> (\<forall>c\<in>set k. \<not> is_whitespace c \<and> c \<noteq> 61 \<and> c \<noteq> 10 \<and> c \<noteq> 35)"
  using is_key_char_not_whitespace by (auto simp: is_valid_key_def list_all_iff)

end
