(* ===== verification/Env_File.thy ===== *)
theory Env_File
  imports Secrets_Spec
begin

text \<open>
  The env-file codec of \<open>packages/operator-secrets/src/lib.rs\<close>: \<open>encode_env_value\<close>,
  \<open>encode_env_file\<close>, \<open>decode_env_value\<close>, \<open>parse_env_file\<close>.  A \<open>BTreeMap<String, String>\<close>
  is a map \<open>rstr \<rightharpoonup> rstr\<close>; nothing here depends on its order.

  The two sides are tied together by the locale \<open>value_codec\<close> (an encoder, a decoder and
  the values they agree on, with the requirement that an encoded value fits on the rest of
  a line).  Inside it the file-level round trip is proved once; the interpretation at the
  end discharges its laws for the encoder and decoder of the source.
  \<open>sh_value\<close> is a reference reader: how POSIX \<open>sh\<close> reads the right-hand side of an
  assignment, \<open>None\<close> where something other than a literal value would happen.
\<close>

type_synonym env_map = "rstr \<rightharpoonup> rstr"

definition is_bare_char :: "rchar \<Rightarrow> bool" where
  "is_bare_char c \<longleftrightarrow> is_ascii_alphanumeric c \<or> c \<in> set (str ''_-./:@+,=~'')"

definition is_bare_safe :: "rstr \<Rightarrow> bool" where
  "is_bare_safe v \<longleftrightarrow> v \<noteq> [] \<and> list_all is_bare_char v"

definition needs_escape :: "rchar \<Rightarrow> bool" where
  "needs_escape c \<longleftrightarrow> c = 92 \<or> c = 34 \<or> c = 36 \<or> c = 96"

fun escape_chars :: "rstr \<Rightarrow> rstr" where
  "escape_chars [] = []"
| "escape_chars (c # v) = (if needs_escape c then [92, c] else [c]) @ escape_chars v"

definition encode_env_value :: "rstr \<Rightarrow> rstr" where
  "encode_env_value v = (if is_bare_safe v then v else 34 # escape_chars v @ [34])"

fun encode_env_file :: "(rstr \<times> rstr) list \<Rightarrow> rstr" where
  "encode_env_file [] = []"
| "encode_env_file ((k, v) # fs) = k @ [61] @ encode_env_value v @ [10] @ encode_env_file fs"

fun unescape :: "rstr \<Rightarrow> rstr" where
  "unescape [] = []"
| "unescape [c] = [c]"
| "unescape (c # n # v) = (if c = 92 then n # unescape v else c # unescape (n # v))"

definition decode_env_value :: "rstr \<Rightarrow> rstr" where
  "decode_env_value v =
     (if v \<noteq> [] \<and> hd v = 34 \<and> 2 \<le> length v \<and> last v = 34 then unescape (butlast (tl v))
      else if v \<noteq> [] \<and> hd v = 39 \<and> 2 \<le> length v \<and> last v = 39 then butlast (tl v)
      else v)"

definition env_line :: "env_map \<Rightarrow> rstr \<Rightarrow> env_map" where
  "env_line out raw =
     (let line = trim raw in
      if line = [] \<or> hd line = 35 then out
      else case split_once 61 line of
          None \<Rightarrow> out
        | Some (k, v) \<Rightarrow>
            let k = trim k in
            if \<not> is_valid_key k then out else out(k \<mapsto> decode_env_value (trim v)))"

definition parse_env_file :: "rstr \<Rightarrow> env_map" where
  "parse_env_file input = foldl env_line Map.empty (lines input)"

section \<open>A value codec and the files built from it\<close>

text \<open>
  What the file format asks of an encoded value: it decodes to the value, is not empty,
  holds no newline and neither starts nor ends with white space (it is trimmed).
\<close>

locale value_codec =
  fixes enc :: "rstr \<Rightarrow> rstr"
    and dec :: "rstr \<Rightarrow> rstr"
    and ok :: "rstr \<Rightarrow> bool"
  assumes dec_enc: "ok v \<Longrightarrow> dec (enc v) = v"
    and enc_nonempty: "ok v \<Longrightarrow> enc v \<noteq> []"
    and enc_no_newline: "ok v \<Longrightarrow> 10 \<notin> set (enc v)"
    and enc_hd: "ok v \<Longrightarrow> \<not> is_whitespace (hd (enc v))"
    and enc_last: "ok v \<Longrightarrow> \<not> is_whitespace (last (enc v))"
begin

definition put_line :: "rstr \<Rightarrow> rstr \<Rightarrow> rstr" where
  "put_line k v = k @ [61] @ enc v"

definition get_line :: "rstr \<Rightarrow> (rstr \<times> rstr) option" where
  "get_line line = map_option (\<lambda>(k, v). (trim k, dec (trim v))) (split_once 61 (trim line))"

lemma trim_enc: "ok v \<Longrightarrow> trim (enc v) = enc v"
  by (rule trim_id) (auto simp: enc_hd enc_last)

lemma trim_put_line: "is_valid_key k \<Longrightarrow> ok v \<Longrightarrow> trim (put_line k v) = put_line k v"
  using is_valid_key_chars [of k] enc_nonempty [of v] enc_last [of v]
  by (intro trim_id) (auto simp: put_line_def hd_append)

lemma strip_cr_put_line: "ok v \<Longrightarrow> strip_cr (put_line k v) = put_line k v"
proof (rule strip_cr_id)
  assume "ok v"
  then have "last (put_line k v) = last (enc v)" and "\<not> is_whitespace (last (enc v))"
    using enc_nonempty enc_last by (auto simp: put_line_def)
  then show "last (put_line k v) \<noteq> 13" by (auto simp: is_whitespace_def)
qed

lemma split_put_line: "is_valid_key k \<Longrightarrow> split_once 61 (put_line k v) = Some (k, enc v)"
  using is_valid_key_chars [of k] unfolding put_line_def
  by (auto intro: split_once_append)

lemma get_put_line: "is_valid_key k \<Longrightarrow> ok v \<Longrightarrow> get_line (put_line k v) = Some (k, v)"
  using is_valid_key_chars [of k]
  by (simp add: get_line_def trim_put_line split_put_line trim_enc dec_enc trim_no_whitespace)

lemma put_line_no_newline: "is_valid_key k \<Longrightarrow> ok v \<Longrightarrow> 10 \<notin> set (put_line k v)"
  using is_valid_key_chars [of k] enc_no_newline [of v] by (auto simp: put_line_def)

lemma put_line_not_comment: "is_valid_key k \<Longrightarrow> put_line k v \<noteq> [] \<and> hd (put_line k v) \<noteq> 35"
  using is_valid_key_chars [of k] by (auto simp: put_line_def hd_append)

text \<open>Reading back one entry per line: what the lines of a written file are.\<close>

definition put_file :: "(rstr \<times> rstr) list \<Rightarrow> rstr" where
  "put_file fs = concat (map (\<lambda>(k, v). put_line k v @ [10]) fs)"

lemma lines_put_file:
  assumes "\<forall>(k, v)\<in>set fs. is_valid_key k \<and> ok v"
  shows "lines (put_file fs) = map (\<lambda>(k, v). put_line k v) fs"
  using assms
proof (induction fs)
  case Nil
  then show ?case by (simp add: put_file_def)
next
  case (Cons p fs)
  obtain k v where p: "p = (k, v)" by force
  have "put_file (p # fs) = put_line k v @ 10 # put_file fs"
    by (simp add: put_file_def p)
  with Cons p show ?case
    by (simp add: lines_append put_line_no_newline strip_cr_put_line)
qed

end

section \<open>The encoder and the decoder agree\<close>

lemma unescape_escape: "unescape (escape_chars v) = v"
proof (induction v)
  case Nil
  then show ?case by simp
next
  case (Cons c v)
  show ?case
  proof (cases "needs_escape c")
    case True
    with Cons show ?thesis by simp
  next
    case False
    then have "c \<noteq> 92" by (auto simp: needs_escape_def)
    with False Cons show ?thesis by (cases "escape_chars v") auto
  qed
qed

lemma set_escape_chars: "c \<in> set (escape_chars v) \<Longrightarrow> c \<in> set v \<or> c = 92"
  by (induction v) (auto split: if_splits)

lemma is_bare_char_cases:
  "is_bare_char c \<Longrightarrow> \<not> is_whitespace c \<and> c \<noteq> 34 \<and> c \<noteq> 39 \<and> c \<noteq> 10 \<and> c \<noteq> 36 \<and> c \<noteq> 96 \<and> c \<noteq> 92"
  by (auto simp: is_bare_char_def char_class_defs str_def)

lemma decode_bare: "is_bare_safe v \<Longrightarrow> decode_env_value v = v"
  by (cases v) (auto simp: is_bare_safe_def decode_env_value_def dest: is_bare_char_cases)

lemma decode_encode: "decode_env_value (encode_env_value v) = v"
proof (cases "is_bare_safe v")
  case True
  then show ?thesis by (simp add: encode_env_value_def decode_bare)
next
  case False
  then show ?thesis
    by (simp add: encode_env_value_def decode_env_value_def unescape_escape)
qed

lemma encode_ends:
  "encode_env_value v \<noteq> [] \<and> \<not> is_whitespace (hd (encode_env_value v)) \<and>
   \<not> is_whitespace (last (encode_env_value v))"
proof (cases "is_bare_safe v")
  case True
  then have "v \<noteq> []" and "\<forall>c\<in>set v. \<not> is_whitespace c"
    by (auto simp: is_bare_safe_def list_all_iff dest: is_bare_char_cases)
  with True show ?thesis by (auto simp: encode_env_value_def)
next
  case False
  then show ?thesis by (simp add: encode_env_value_def is_whitespace_def)
qed

lemma encode_newline: "10 \<notin> set v \<Longrightarrow> 10 \<notin> set (encode_env_value v)"
  using set_escape_chars [of 10 v] by (auto simp: encode_env_value_def)

interpretation env: value_codec encode_env_value decode_env_value "\<lambda>v. 10 \<notin> set v"
  using encode_ends encode_newline by unfold_locales (auto simp: decode_encode)

lemma encode_env_file_put: "encode_env_file fs = env.put_file fs"
  by (induction fs rule: encode_env_file.induct) (auto simp: env.put_file_def env.put_line_def)

lemma env_line_put:
  assumes "is_valid_key k" and "10 \<notin> set v"
  shows "env_line out (env.put_line k v) = out(k \<mapsto> v)"
  using assms env.put_line_not_comment [of k v] is_valid_key_chars [of k]
  by (simp add: env_line_def env.trim_put_line env.split_put_line env.trim_enc
      decode_encode trim_no_whitespace Let_def)

lemma foldl_env_line:
  assumes "\<forall>(k, v)\<in>set fs. is_valid_key k \<and> 10 \<notin> set v"
  shows "foldl env_line out (map (\<lambda>(k, v). env.put_line k v) fs) = out ++ map_of (rev fs)"
  using assms
proof (induction fs arbitrary: out)
  case Nil
  then show ?case by simp
next
  case (Cons p fs)
  obtain k v where p: "p = (k, v)" by force
  with Cons.prems have "env_line out (env.put_line k v) = out(k \<mapsto> v)"
    by (simp add: env_line_put)
  with Cons p show ?case by (auto simp: map_add_def fun_eq_iff split: option.splits)
qed

lemma parse_encode_file:
  assumes "\<forall>(k, v)\<in>set fs. is_valid_key k \<and> 10 \<notin> set v"
  shows "parse_env_file (encode_env_file fs) = map_of (rev fs)"
  using foldl_env_line [OF assms] env.lines_put_file [OF assms]
  by (simp add: parse_env_file_def encode_env_file_put)

lemma parse_encode_file_distinct:
  assumes "\<forall>(k, v)\<in>set fs. is_valid_key k \<and> 10 \<notin> set v" and "distinct (map fst fs)"
  shows "parse_env_file (encode_env_file fs) = map_of fs"
  using parse_encode_file [OF assms(1)] assms(2)
  by (metis distinct_rev map_of_inject_set rev_map set_rev)

section \<open>What \<open>sh\<close> reads\<close>

text \<open>
  The right-hand side of an assignment in POSIX \<open>sh\<close> (XCU 2.2.3, 2.6.1, 2.9.1).  Inside
  double quotes a dollar sign or a backquote starts an expansion and a backslash quotes
  only the four special characters and the newline, which it removes.  Outside quotes a
  tilde at the start of the value or right after a colon is a tilde-prefix.  \<open>None\<close>: an
  expansion would happen, or the value ends early or not at all.
\<close>

fun sh_dquote :: "rstr \<Rightarrow> rstr option" where
  "sh_dquote [] = None"
| "sh_dquote (c # s) =
     (if c = 34 then (if s = [] then Some [] else None)
      else if c = 36 \<or> c = 96 then None
      else if c = 92 then
        (case s of
           [] \<Rightarrow> None
         | n # t \<Rightarrow> if needs_escape n then map_option ((#) n) (sh_dquote t)
                    else if n = 10 then sh_dquote t
                    else map_option (\<lambda>r. 92 # n # r) (sh_dquote t))
      else map_option ((#) c) (sh_dquote s))"

fun tilde_prefix :: "bool \<Rightarrow> rstr \<Rightarrow> bool" where
  "tilde_prefix start [] = False"
| "tilde_prefix start (c # s) = (start \<and> c = 126 \<or> tilde_prefix (c = 58) s)"

definition sh_value :: "rstr \<Rightarrow> rstr option" where
  "sh_value w =
     (if w \<noteq> [] \<and> hd w = 34 then sh_dquote (tl w)
      else if list_all is_bare_char w \<and> \<not> tilde_prefix True w then Some w
      else None)"

lemma sh_dquote_escape: "sh_dquote (escape_chars v @ [34]) = Some v"
  by (induction v) (auto simp: needs_escape_def)

lemma sh_value_encode:
  "sh_value (encode_env_value v) =
     (if is_bare_safe v \<and> tilde_prefix True v then None else Some v)"
proof (cases "is_bare_safe v")
  case True
  then have "v \<noteq> []" "hd v \<noteq> 34" "list_all is_bare_char v"
    by (cases v; auto simp: is_bare_safe_def dest: is_bare_char_cases)+
  with True show ?thesis by (simp add: sh_value_def encode_env_value_def)
next
  case False
  then show ?thesis
    by (simp add: sh_value_def encode_env_value_def sh_dquote_escape)
qed

end
