(* ===== verification/Secrets_Forms.thy ===== *)
theory Secrets_Forms
  imports Env_File
begin

text \<open>
  The remaining pure logic of \<open>packages/operator-secrets/src/lib.rs\<close>: the wire types, the
  validator verdicts, the check of a field value, the classification of a stored file, the
  form sent to the clients, the acceptance of a submitted form, and the lookup of a user or
  group id.  The JSON parser of a validator's answer is the parameter \<open>from_json\<close>.
\<close>

section \<open>Wire types\<close>

datatype secret_state = Pending | Checking | NeedsInput | Validating | Satisfied | Undecided

record secret_status =
  st_name :: rstr
  st_description :: rstr
  st_state :: secret_state
  st_detail :: message

record prompt_field =
  pf_name :: rstr
  pf_description :: rstr
  pf_sensitive :: bool
  pf_value :: rstr

record secret_prompt =
  pr_id :: nat
  pr_secret :: rstr
  pr_description :: rstr
  pr_reason :: message
  pr_fields :: "prompt_field list"

datatype secret_msg =
    Submit (prompt_id: nat) (submitted: "(rstr \<times> rstr) list")
  | Edit (chosen: rstr)

section \<open>Validator verdicts\<close>

datatype validator_status = Valid | Invalid | Error

record verdict =
  v_status :: validator_status
  v_message :: message

definition verdict_error :: "message \<Rightarrow> verdict" where
  "verdict_error m = \<lparr>v_status = Error, v_message = m\<rparr>"

definition verdict_valid :: verdict where
  "verdict_valid = \<lparr>v_status = Valid, v_message = Str []\<rparr>"

definition verdict_invalid :: "message \<Rightarrow> verdict" where
  "verdict_invalid m = \<lparr>v_status = Invalid, v_message = m\<rparr>"

definition parse_validator_output ::
    "(rstr \<Rightarrow> message + (validator_status \<times> rstr option)) \<Rightarrow> rstr \<Rightarrow> verdict" where
  "parse_validator_output from_json out =
     (let trimmed = trim out in
      if trimmed = [] then verdict_error (lit ''validator produced no output'')
      else case from_json trimmed of
          Inr (status, msg) \<Rightarrow>
            \<lparr>v_status = status, v_message = Str (case msg of None \<Rightarrow> [] | Some m \<Rightarrow> m)\<rparr>
        | Inl e \<Rightarrow> verdict_error (Fmt ''validator output is not a verdict object: {}'' [e]))"

section \<open>Field values, stored files, forms\<close>

definition check_field_value :: "rstr \<Rightarrow> message option" where
  "check_field_value v =
     (if v = [] then Some (lit ''must not be empty'')
      else if list_ex is_control v then
        Some (lit ''must not contain control characters or newlines'')
      else None)"

datatype stored_state =
    Absent
  | Complete "(rstr \<times> rstr) list"
  | Incomplete message env_map

text \<open>
  The loop of \<open>classify_stored\<close>: the values in declaration order, the usable part of the
  file and the names that are missing or unusable.
\<close>

fun scan_fields :: "field_spec list \<Rightarrow> env_map \<Rightarrow>
    (rstr \<times> rstr) list \<times> env_map \<times> message list \<Rightarrow> (rstr \<times> rstr) list \<times> env_map \<times> message list" where
  "scan_fields [] parsed acc = acc"
| "scan_fields (f # fs) parsed (vals, usable, missing) =
     scan_fields fs parsed
       (case parsed (fname f) of
          Some v \<Rightarrow>
            if check_field_value v = None
            then (vals @ [(fname f, v)], usable(fname f \<mapsto> v), missing)
            else (vals, usable, missing @ [Fmt ''{} (unusable value)'' [Str (fname f)]])
        | None \<Rightarrow> (vals, usable, missing @ [Str (fname f)]))"

definition classify_stored :: "secret_spec \<Rightarrow> env_map option \<Rightarrow> stored_state" where
  "classify_stored spec stored =
     (case stored of
        None \<Rightarrow> Absent
      | Some parsed \<Rightarrow>
          (case scan_fields (sfields spec) parsed ([], Map.empty, []) of (vals, usable, missing) \<Rightarrow>
             if missing = [] then Complete vals
             else Incomplete (Fmt ''stored file is incomplete: {}'' missing) usable))"

definition prompt_fields :: "secret_spec \<Rightarrow> env_map \<Rightarrow> prompt_field list" where
  "prompt_fields spec known =
     map (\<lambda>f. \<lparr>pf_name = fname f, pf_description = fdescription f, pf_sensitive = sensitive f,
               pf_value = (if sensitive f then []
                           else (case known (fname f) of None \<Rightarrow> [] | Some v \<Rightarrow> v))\<rparr>)
         (sfields spec)"

fun collect_values :: "secret_spec \<Rightarrow> env_map \<Rightarrow> (rstr \<times> rstr) list \<Rightarrow> message + env_map" where
  "collect_values spec m [] = Inr m"
| "collect_values spec m ((k, v) # vs) =
     (if field_of spec k = None then Inl (Fmt ''unknown field {:?}'' [Dbg k])
      else if m k \<noteq> None then Inl (Fmt ''field {:?} submitted twice'' [Dbg k])
      else collect_values spec (m(k \<mapsto> v)) vs)"

fun order_values :: "field_spec list \<Rightarrow> env_map \<Rightarrow> message + (rstr \<times> rstr) list" where
  "order_values [] m = Inr []"
| "order_values (f # fs) m =
     (case m (fname f) of
        None \<Rightarrow> Inl (Fmt ''{} is missing'' [Str (fname f)])
      | Some v \<Rightarrow>
          (case check_field_value v of
             Some e \<Rightarrow> Inl (Fmt ''{}: {}'' [Str (fname f), e])
           | None \<Rightarrow>
               (case order_values fs m of
                  Inl e \<Rightarrow> Inl e
                | Inr out \<Rightarrow> Inr ((fname f, v) # out))))"

definition accept_submission :: "secret_spec \<Rightarrow> (rstr \<times> rstr) list \<Rightarrow> message + (rstr \<times> rstr) list" where
  "accept_submission spec vs =
     (case collect_values spec Map.empty vs of
        Inl e \<Rightarrow> Inl e
      | Inr m \<Rightarrow> order_values (sfields spec) m)"

section \<open>User and group ids\<close>

definition passwd_line :: "rstr \<Rightarrow> rstr \<Rightarrow> nat option" where
  "passwd_line name line =
     (case split_on (ch CHR '':'') line of
        n # pw # ident # rest \<Rightarrow> if n \<noteq> name then None else parse_uint 4294967295 ident
      | _ \<Rightarrow> None)"

definition lookup_id :: "rstr \<Rightarrow> rstr \<Rightarrow> nat option" where
  "lookup_id db name =
     (case parse_uint 4294967295 name of
        Some n \<Rightarrow> Some n
      | None \<Rightarrow> find_map (passwd_line name) (lines db))"

section \<open>Lemmas\<close>

definition ok_value :: "rstr \<Rightarrow> bool" where
  "ok_value v \<longleftrightarrow> v \<noteq> [] \<and> (\<forall>c\<in>set v. \<not> is_control c)"

lemma check_field_value_None_iff: "check_field_value v = None \<longleftrightarrow> ok_value v"
  by (auto simp: check_field_value_def ok_value_def list_ex_iff)

lemma check_field_value_ok [simp]: "ok_value v \<Longrightarrow> check_field_value v = None"
  by (simp add: check_field_value_None_iff)

lemma ok_value_no_newline: "ok_value v \<Longrightarrow> 10 \<notin> set v"
  by (auto simp: ok_value_def is_control_def)

lemma scan_fields_missing:
  "snd (snd (scan_fields fs parsed (vals, usable, missing))) = [] \<longleftrightarrow>
     missing = [] \<and> (\<forall>f\<in>set fs. \<exists>v. parsed (fname f) = Some v \<and> ok_value v)"
  by (induction fs arbitrary: vals usable missing)
     (auto simp: check_field_value_None_iff [symmetric] split: option.splits)

lemma scan_fields_values:
  "\<forall>f\<in>set fs. \<exists>v. parsed (fname f) = Some v \<and> ok_value v \<Longrightarrow>
   fst (scan_fields fs parsed (vals, usable, missing)) =
     vals @ map (\<lambda>f. (fname f, the (parsed (fname f)))) fs"
  by (induction fs arbitrary: vals usable missing)
     (auto simp: check_field_value_None_iff)

lemma scan_fields_usable:
  assumes "\<And>k v. usable k = Some v \<Longrightarrow> parsed k = Some v \<and> ok_value v"
    and "fst (snd (scan_fields fs parsed (vals, usable, missing))) k = Some v"
  shows "parsed k = Some v \<and> ok_value v"
  using assms
proof (induction fs arbitrary: vals usable missing)
  case Nil
  then show ?case by simp
next
  case (Cons f fs)
  show ?case
  proof (cases "parsed (fname f)")
    case None
    with Cons.prems(2) have "fst (snd (scan_fields fs parsed
        (vals, usable, missing @ [Str (fname f)]))) k = Some v" by simp
    with Cons.prems(1) show ?thesis by (rule Cons.IH)
  next
    case (Some w)
    show ?thesis
    proof (cases "ok_value w")
      case True
      with Some Cons.prems(1) have inv: "\<And>k v. (usable(fname f \<mapsto> w)) k = Some v \<Longrightarrow>
          parsed k = Some v \<and> ok_value v"
        by (metis fun_upd_apply option.inject)
      from Some True Cons.prems(2)
      have "fst (snd (scan_fields fs parsed
              (vals @ [(fname f, w)], usable(fname f \<mapsto> w), missing))) k = Some v"
        by (simp add: check_field_value_None_iff)
      with inv show ?thesis by (rule Cons.IH)
    next
      case False
      with Some Cons.prems(2) have "fst (snd (scan_fields fs parsed
          (vals, usable, missing @ [Fmt ''{} (unusable value)'' [Str (fname f)]]))) k = Some v"
        by (simp add: check_field_value_None_iff)
      with Cons.prems(1) show ?thesis by (rule Cons.IH)
    qed
  qed
qed

lemma classify_Complete_iff:
  "classify_stored spec (Some parsed) = Complete vals \<longleftrightarrow>
     (\<forall>f\<in>set (sfields spec). \<exists>v. parsed (fname f) = Some v \<and> ok_value v) \<and>
     vals = map (\<lambda>f. (fname f, the (parsed (fname f)))) (sfields spec)"
  using scan_fields_missing [of "sfields spec" parsed "[]" Map.empty "[]"]
    scan_fields_values [of "sfields spec" parsed "[]" Map.empty "[]"]
  by (auto simp: classify_stored_def split: prod.splits)

lemma collect_values_ok:
  "distinct (map fst vs) \<Longrightarrow> \<forall>(k, v)\<in>set vs. field_of spec k \<noteq> None \<and> m k = None \<Longrightarrow>
   collect_values spec m vs = Inr (m ++ map_of vs)"
proof (induction vs arbitrary: m)
  case Nil
  then show ?case by simp
next
  case (Cons p vs)
  obtain k v where p: "p = (k, v)" by force
  have eq: "m(k \<mapsto> v) ++ map_of vs = m ++ map_of (p # vs)"
    using Cons.prems(1) by (simp add: p dom_map_of_conv_image_fst map_add_upd_left)
  have "\<forall>(k', v')\<in>set vs. field_of spec k' \<noteq> None \<and> (m(k \<mapsto> v)) k' = None"
    using Cons.prems by (auto simp: p rev_image_eqI)
  then have "collect_values spec (m(k \<mapsto> v)) vs = Inr (m(k \<mapsto> v) ++ map_of vs)"
    using Cons.prems(1) by (intro Cons.IH) auto
  then have "collect_values spec (m(k \<mapsto> v)) vs = Inr (m ++ map_of (p # vs))"
    by (simp only: eq)
  moreover have "collect_values spec m (p # vs) = collect_values spec (m(k \<mapsto> v)) vs"
    using Cons.prems(2) by (auto simp: p)
  ultimately show ?case by (simp only:)
qed

lemma collect_values_bad:
  "\<not> (distinct (map fst vs) \<and> (\<forall>(k, v)\<in>set vs. field_of spec k \<noteq> None \<and> m k = None)) \<Longrightarrow>
   \<exists>e. collect_values spec m vs = Inl e"
proof (induction vs arbitrary: m)
  case Nil
  then show ?case by simp
next
  case (Cons p vs)
  obtain k v where p: "p = (k, v)" by force
  show ?case
  proof (cases "field_of spec k = None \<or> m k \<noteq> None")
    case True
    then show ?thesis by (auto simp: p)
  next
    case False
    have "\<not> (distinct (map fst vs) \<and>
        (\<forall>(k', v')\<in>set vs. field_of spec k' \<noteq> None \<and> (m(k \<mapsto> v)) k' = None))"
    proof
      assume *: "distinct (map fst vs) \<and>
        (\<forall>(k', v')\<in>set vs. field_of spec k' \<noteq> None \<and> (m(k \<mapsto> v)) k' = None)"
      then have "k \<notin> fst ` set vs" by auto
      with * False have "distinct (map fst (p # vs)) \<and>
        (\<forall>(k', v')\<in>set (p # vs). field_of spec k' \<noteq> None \<and> m k' = None)"
        by (auto simp: p split: if_splits)
      with Cons.prems show False by blast
    qed
    then have "\<exists>e. collect_values spec (m(k \<mapsto> v)) vs = Inl e" by (rule Cons.IH)
    moreover have "collect_values spec m (p # vs) = collect_values spec (m(k \<mapsto> v)) vs"
      using False by (auto simp: p)
    ultimately show ?thesis by simp
  qed
qed

lemma order_values_ok:
  "\<forall>f\<in>set fs. \<exists>v. m (fname f) = Some v \<and> ok_value v \<Longrightarrow>
   order_values fs m = Inr (map (\<lambda>f. (fname f, the (m (fname f)))) fs)"
  by (induction fs) (auto simp: check_field_value_None_iff)

lemma order_values_bad:
  "\<not> (\<forall>f\<in>set fs. \<exists>v. m (fname f) = Some v \<and> ok_value v) \<Longrightarrow> \<exists>e. order_values fs m = Inl e"
proof (induction fs)
  case Nil
  then show ?case by simp
next
  case (Cons f fs)
  then show ?case
    by (cases "m (fname f)"; cases "check_field_value (the (m (fname f)))")
       (auto simp: check_field_value_None_iff split: sum.splits)
qed

lemma accept_submission_Inr_iff:
  "accept_submission spec vs = Inr out \<longleftrightarrow>
     distinct (map fst vs) \<and> (\<forall>(k, v)\<in>set vs. field_of spec k \<noteq> None) \<and>
     (\<forall>f\<in>set (sfields spec). \<exists>v. map_of vs (fname f) = Some v \<and> ok_value v) \<and>
     out = map (\<lambda>f. (fname f, the (map_of vs (fname f)))) (sfields spec)"
proof (cases "distinct (map fst vs) \<and> (\<forall>(k, v)\<in>set vs. field_of spec k \<noteq> None)")
  case True
  then have eq: "accept_submission spec vs = order_values (sfields spec) (map_of vs)"
    using collect_values_ok [of vs spec Map.empty] by (simp add: accept_submission_def)
  show ?thesis
  proof (cases "\<forall>f\<in>set (sfields spec). \<exists>v. map_of vs (fname f) = Some v \<and> ok_value v")
    case ok: True
    with True eq order_values_ok [OF ok] show ?thesis by auto
  next
    case False
    with eq order_values_bad [OF False] show ?thesis by auto
  qed
next
  case False
  then have "\<exists>e. collect_values spec Map.empty vs = Inl e"
    by (intro collect_values_bad) simp
  with False show ?thesis by (auto simp: accept_submission_def)
qed

lemma accept_submission_keys:
  "accept_submission spec vs = Inr out \<Longrightarrow> map fst out = map fname (sfields spec)"
  by (auto simp: accept_submission_Inr_iff)

lemma accept_submission_values:
  "accept_submission spec vs = Inr out \<Longrightarrow> (k, v) \<in> set out \<Longrightarrow> ok_value v \<and> (k, v) \<in> set vs"
  by (auto simp: accept_submission_Inr_iff dest!: map_of_SomeD)

text \<open>An accepted form, written and read back, is a complete file with the same values.\<close>

lemma map_of_rev_fun: "map_of (rev (map (\<lambda>f. (g f, h (g f))) fs)) k =
    (if k \<in> g ` set fs then Some (h k) else None)"
  by (induction fs) (auto simp: map_add_def split: option.splits)

lemma accepted_is_complete:
  assumes wf: "wf_secret spec" and acc: "accept_submission spec vs = Inr out"
  shows "classify_stored spec (Some (parse_env_file (encode_env_file out))) = Complete out"
proof -
  let ?h = "\<lambda>k. the (map_of vs k)"
  from acc have out: "out = map (\<lambda>f. (fname f, ?h (fname f))) (sfields spec)"
    and ok: "\<forall>f\<in>set (sfields spec). ok_value (?h (fname f))"
    by (auto simp: accept_submission_Inr_iff)
  from wf have "\<forall>(k, v)\<in>set out. is_valid_key k \<and> 10 \<notin> set v"
    using ok by (auto simp: out wf_secret_def dest: ok_value_no_newline)
  then have "parse_env_file (encode_env_file out) = map_of (rev out)"
    by (rule parse_encode_file)
  also have "\<dots> = (\<lambda>k. if k \<in> fname ` set (sfields spec) then Some (?h k) else None)"
    by (simp add: out map_of_rev_fun [where g = fname and h = ?h] fun_eq_iff)
  finally show ?thesis
    using ok by (auto simp: classify_Complete_iff out)
qed

text \<open>A database text built from entries: name, password field, id, the rest of the line.\<close>

definition passwd_entry :: "rstr \<times> rstr \<times> nat \<times> rstr \<Rightarrow> rstr" where
  "passwd_entry e = (case e of (n, pw, i, rest) \<Rightarrow> n @ [58] @ pw @ [58] @ show_nat i @ [58] @ rest)"

definition passwd_db :: "(rstr \<times> rstr \<times> nat \<times> rstr) list \<Rightarrow> rstr" where
  "passwd_db es = concat (map (\<lambda>e. passwd_entry e @ [10]) es)"

definition wf_entry :: "rstr \<times> rstr \<times> nat \<times> rstr \<Rightarrow> bool" where
  "wf_entry e = (case e of (n, pw, i, rest) \<Rightarrow>
     58 \<notin> set n \<and> 58 \<notin> set pw \<and> i \<le> 4294967295 \<and>
     10 \<notin> set n \<and> 10 \<notin> set pw \<and> 10 \<notin> set rest \<and> 13 \<notin> set rest)"

lemma split_entry:
  assumes "wf_entry (n, pw, i, rest)"
  shows "split_on 58 (passwd_entry (n, pw, i, rest)) = n # pw # show_nat i # split_on 58 rest"
proof -
  have "58 \<notin> set (show_nat i)" using show_nat_digits [of 58 i] by (auto simp: is_ascii_digit_def)
  with assms show ?thesis by (simp add: wf_entry_def passwd_entry_def split_on_append)
qed

lemma passwd_line_entry:
  assumes "wf_entry (n, pw, i, rest)"
  shows "passwd_line name (passwd_entry (n, pw, i, rest)) = (if n = name then Some i else None)"
  using assms split_entry [OF assms]
  by (auto simp: passwd_line_def wf_entry_def parse_uint_show_nat)

lemma lines_passwd_db: "\<forall>e\<in>set es. wf_entry e \<Longrightarrow> lines (passwd_db es) = map passwd_entry es"
proof (induction es)
  case Nil
  then show ?case by (simp add: passwd_db_def)
next
  case (Cons e es)
  obtain n pw i rest where e: "e = (n, pw, i, rest)" by (cases e) auto
  have d: "10 \<notin> set (show_nat i)"
    using show_nat_digits [of 10 i] by (auto simp: is_ascii_digit_def)
  from Cons.prems e have wf: "wf_entry (n, pw, i, rest)" by simp
  then have "10 \<notin> set (passwd_entry e)" and "last (passwd_entry e) \<noteq> 13"
    using d by (auto simp: e wf_entry_def passwd_entry_def dest: last_in_set)
  with Cons show ?case
    by (simp add: passwd_db_def lines_append strip_cr_id)
qed

lemma find_map_entries:
  "\<forall>e\<in>set es. wf_entry e \<Longrightarrow>
   find_map (passwd_line name) (map passwd_entry es) = map_of (map (\<lambda>(n, pw, i, r). (n, i)) es) name"
  by (induction es) (auto simp: passwd_line_entry split: prod.splits)

end
