(* ===== verification/Secrets_Daemon.thy ===== *)
theory Secrets_Daemon
  imports Secrets_Forms "HOL-Library.Word"
begin

unbundle bit_operations_syntax

text \<open>
  operator-secretsd, \<open>packages/operator-secrets/src/bin/daemon.rs\<close>: the UI hub, the
  validator call, the redaction of its diagnostics, the atomic write of a secret, and the
  state machine that brings each secret to the satisfied state, at boot and in an edit
  session.

  The state holds what the source keeps behind \<open>Ui\<close> (the snapshot, the prompt counter, the
  queue of client messages), the file system as far as the daemon touches it, every earlier
  file system (\<open>fs_seen\<close>, newest first) and a trace of what happened (newest first).
  \<open>ticks\<close> bounds the number of retry sleeps of a run: a run that has used them up is found
  \<open>Waiting\<close>, as is one that polls an empty queue.

  The environment \<open>sec_env\<close> is everything outside the program: what a spawned validator
  does, which file system calls fail, the JSON parser, the process's identity and umask.
  Its functions take a position in the run, so that the same call may answer differently
  each time; the theorems hold for every environment.
\<close>

section \<open>State\<close>

record secrets_snapshot =
  ss_phase :: string
  ss_message :: message
  ss_blocked :: bool
  ss_secrets :: "secret_status list"
  ss_prompt :: "secret_prompt option"
  ss_done :: bool
  ss_choosing :: bool

definition default_snapshot :: secrets_snapshot where
  "default_snapshot = \<lparr>ss_phase = [], ss_message = Str [], ss_blocked = False, ss_secrets = [],
     ss_prompt = None, ss_done = False, ss_choosing = False\<rparr>"

datatype sec_event =
    Published secrets_snapshot
  | Judged rstr "(rstr \<times> rstr) list" verdict
  | Wrote rstr "(rstr \<times> rstr) list"
  | Slept

type_synonym mode = "32 word"

text \<open>\<open>0o600\<close> and the bits of group and others, \<open>0o077\<close>.\<close>

abbreviation owner_rw :: mode where "owner_rw \<equiv> 0x180"
abbreviation group_other :: mode where "group_other \<equiv> 0x3F"

record disk_file =
  f_content :: rstr
  f_mode :: mode
  f_owner :: "nat \<times> nat"

type_synonym fs = "rstr \<rightharpoonup> disk_file"

record sec_state =
  snap :: secrets_snapshot
  next_prompt_id :: nat
  inbox :: "secret_msg list"
  files :: fs
  fs_seen :: "fs list"
  ticks :: nat
  trace :: "sec_event list"

datatype fs_call =
    CreateDirs rstr
  | Remove rstr
  | CreateNew rstr mode
  | WriteAll rstr rstr
  | SyncAll rstr
  | Chown rstr nat nat
  | Chmod rstr mode
  | Rename rstr rstr

datatype exit_seen = ExitSuccess | ExitStatus message | WaitFailed message

datatype validator_run =
    NotSerialized message
  | NotSpawned message
  | NoStdin
  | TimedOut
  | Answered rstr rstr exit_seen

record sec_env =
  e_run :: "nat \<Rightarrow> rstr list \<Rightarrow> env_map \<Rightarrow> validator_run"
  e_from_json :: "rstr \<Rightarrow> message + (validator_status \<times> rstr option)"
  e_fault :: "nat \<Rightarrow> fs_call \<Rightarrow> (message \<times> nat) option"
  e_read_error :: "nat \<Rightarrow> rstr \<Rightarrow> message option"
  e_timeout_secs :: nat
  e_retry_secs :: nat
  e_ids :: "nat \<times> nat"
  e_umask :: mode
  e_pid :: nat

type_synonym 'a secd = "(sec_state, message, 'a) prog"

section \<open>The UI hub\<close>

definition mutate :: "(secrets_snapshot \<Rightarrow> secrets_snapshot) \<Rightarrow> unit secd" where
  "mutate f = update_state (\<lambda>s. let sn = f (snap s) in
     s\<lparr>snap := sn, trace := Published sn # trace s\<rparr>)"

definition ui_state :: "string \<Rightarrow> message \<Rightarrow> unit secd" where
  "ui_state ph m = mutate (\<lambda>sn. sn\<lparr>ss_phase := ph, ss_message := m\<rparr>)"

definition set_secret :: "rstr \<Rightarrow> secret_state \<Rightarrow> message \<Rightarrow> unit secd" where
  "set_secret name st detail = mutate (\<lambda>sn. sn\<lparr>ss_secrets :=
     update_first (\<lambda>e. st_name e = name) (\<lambda>e. e\<lparr>st_state := st, st_detail := detail\<rparr>)
       (ss_secrets sn)\<rparr>)"

definition ui_blocked :: "bool \<Rightarrow> unit secd" where
  "ui_blocked b = mutate (\<lambda>sn. sn\<lparr>ss_blocked := b\<rparr>)"

definition answers_prompt :: "nat \<Rightarrow> secret_msg \<Rightarrow> (rstr \<times> rstr) list option" where
  "answers_prompt i m = (case m of
      Submit pid vs \<Rightarrow> if pid = i then Some vs else None
    | Edit _ \<Rightarrow> None)"

interpretation form: mailbox answers_prompt
  by unfold_locales (auto simp: answers_prompt_def split: secret_msg.splits if_splits)

definition wait_for_submission :: "nat \<Rightarrow> (rstr \<times> rstr) list secd" where
  "wait_for_submission i = (\<lambda>s. case take_answer (answers_prompt i) (inbox s) of
      Some (vs, rest) \<Rightarrow> (Done vs, s\<lparr>inbox := rest\<rparr>)
    | None \<Rightarrow> (Waiting, s\<lparr>inbox := []\<rparr>))"

definition wait_for_choice :: "rstr secd" where
  "wait_for_choice = (\<lambda>s.
     case take_answer (\<lambda>m. case m of Edit n \<Rightarrow> Some n | Submit _ _ \<Rightarrow> None) (inbox s) of
       Some (n, rest) \<Rightarrow> (Done n, s\<lparr>inbox := rest\<rparr>)
     | None \<Rightarrow> (Waiting, s\<lparr>inbox := []\<rparr>))"

definition fresh_prompt_id :: "nat secd" where
  "fresh_prompt_id = (\<lambda>s. (Done (Suc (next_prompt_id s)),
                          s\<lparr>next_prompt_id := Suc (next_prompt_id s)\<rparr>))"

text \<open>The names a pre-fill may be kept for: declared and not sensitive.\<close>

definition is_plain :: "secret_spec \<Rightarrow> rstr \<Rightarrow> bool" where
  "is_plain spec k = (case field_of spec k of Some f \<Rightarrow> \<not> sensitive f | None \<Rightarrow> False)"

definition keep_plain :: "secret_spec \<Rightarrow> (rstr \<times> rstr) list \<Rightarrow> env_map" where
  "keep_plain spec vals = map_of (rev (filter (\<lambda>(k, v). is_plain spec k) vals))"

text \<open>One turn of the loop of \<open>Ui::ask\<close>: post the form, wait, take it down.\<close>

definition post_form :: "secret_spec \<Rightarrow> message \<Rightarrow> env_map \<Rightarrow> (rstr \<times> rstr) list secd" where
  "post_form spec reason known =
     bnd fresh_prompt_id (\<lambda>i.
     bnd (mutate (\<lambda>sn. sn\<lparr>ss_prompt := Some
            \<lparr>pr_id = i, pr_secret = sname spec, pr_description = sdescription spec,
             pr_reason = reason, pr_fields = prompt_fields spec known\<rparr>\<rparr>)) (\<lambda>_.
     bnd (wait_for_submission i) (\<lambda>vals.
     bnd (mutate (\<lambda>sn. sn\<lparr>ss_prompt := None\<rparr>)) (\<lambda>_.
     ret vals))))"

text \<open>
  \<open>Ui::ask\<close>.  Every turn takes at least one message, so one turn more than there are
  messages never runs out (\<open>ask_loop_enough\<close>).
\<close>

fun ask_loop :: "nat \<Rightarrow> secret_spec \<Rightarrow> message \<Rightarrow> env_map \<Rightarrow> (rstr \<times> rstr) list secd" where
  "ask_loop 0 spec reason known = wait"
| "ask_loop (Suc n) spec reason known =
     bnd (post_form spec reason known) (\<lambda>vals.
       case accept_submission spec vals of
         Inr v \<Rightarrow> ret v
       | Inl e \<Rightarrow>
           bnd (ui_state ''prompt''
                 (Fmt ''{}: submission rejected: {}'' [Str (sname spec), e])) (\<lambda>_.
           ask_loop n spec (Fmt ''rejected: {}'' [e]) (keep_plain spec vals)))"

definition ask :: "secret_spec \<Rightarrow> message \<Rightarrow> env_map \<Rightarrow> (rstr \<times> rstr) list secd" where
  "ask spec reason known = (\<lambda>s. ask_loop (Suc (length (inbox s))) spec reason known s)"

section \<open>The validator\<close>

definition marker :: rstr where
  "marker = 0xAB # str ''redacted'' @ [0xBB]"

definition redact_values :: "rstr \<Rightarrow> (rstr \<times> rstr) list \<Rightarrow> rstr" where
  "redact_values t vals =
     foldl (\<lambda>out (_, v). if 4 \<le> length v \<and> contains out v then replace v marker out else out) t vals"

definition presence_verdict :: "secret_spec \<Rightarrow> (rstr \<times> rstr) list \<Rightarrow> verdict" where
  "presence_verdict spec vals =
     (case find_map (\<lambda>f.
             case find (\<lambda>(k, v). k = fname f) vals of
               Some (_, v) \<Rightarrow> if v \<noteq> [] then None else Some f
             | None \<Rightarrow> Some f) (sfields spec) of
        Some f \<Rightarrow> verdict_invalid (Fmt ''field {} is missing or empty (no validator configured; all declared fields must be present and non-empty)''
            [Str (fname f)])
      | None \<Rightarrow> verdict_valid)"

definition diagnose :: "(rstr \<times> rstr) list \<Rightarrow> message \<Rightarrow> rstr \<Rightarrow> exit_seen \<Rightarrow> message" where
  "diagnose vals msg err ex =
     (let detail = (case ex of
            ExitSuccess \<Rightarrow> msg
          | ExitStatus c \<Rightarrow> Fmt ''{} ({})'' [msg, c]
          | WaitFailed c \<Rightarrow> Fmt ''{} (wait failed: {})'' [msg, c])
      in if err = [] then detail
         else let err = redact_values err vals;
                  e = take 400 err @ (if 400 < length err then [0x2026] else [])
              in Fmt ''{}; stderr: {}'' [detail, Str e])"

definition run_verdict :: "sec_env \<Rightarrow> rstr \<Rightarrow> (rstr \<times> rstr) list \<Rightarrow> validator_run \<Rightarrow> verdict" where
  "run_verdict E cmd vals r =
     (case r of
        NotSerialized e \<Rightarrow> verdict_error (Fmt ''serializing validator request: {}'' [e])
      | NotSpawned e \<Rightarrow> verdict_error (Fmt ''spawning validator {}: {}'' [Str cmd, e])
      | NoStdin \<Rightarrow> verdict_error (lit ''validator has no stdin pipe'')
      | TimedOut \<Rightarrow>
          verdict_error (Fmt ''validator did not answer within {}s - cannot decide'' [Num (e_timeout_secs E)])
      | Answered out err ex \<Rightarrow>
          (let v = parse_validator_output (e_from_json E) (trim out) in
           if v_status v = Error then v\<lparr>v_message := diagnose vals (v_message v) (trim err) ex\<rparr>
           else v))"

definition judge :: "sec_env \<Rightarrow> nat \<Rightarrow> secret_spec \<Rightarrow> (rstr \<times> rstr) list \<Rightarrow> verdict" where
  "judge E n spec vals =
     (case validate_command spec of
        None \<Rightarrow> presence_verdict spec vals
      | Some argv \<Rightarrow> run_verdict E (hd argv) vals (e_run E n argv (map_of (rev vals))))"

definition validate :: "sec_env \<Rightarrow> secret_spec \<Rightarrow> (rstr \<times> rstr) list \<Rightarrow> verdict secd" where
  "validate E spec vals = (\<lambda>s.
     let v = judge E (length (trace s)) spec vals
     in (Done v, s\<lparr>trace := Judged (sname spec) vals v # trace s\<rparr>))"

section \<open>Writing a secret\<close>

definition path_components :: "rstr \<Rightarrow> rstr list" where
  "path_components p = filter (\<lambda>c. c \<noteq> [] \<and> c \<noteq> str ''.'') (split_on 47 p)"

text \<open>
  \<open>Path::parent\<close> and \<open>Path::file_name\<close> of an absolute path; the directory is written with
  single slashes.
\<close>

definition path_parent :: "rstr \<Rightarrow> rstr option" where
  "path_parent p = (let cs = path_components p in
     if cs = [] then None else Some (47 # join [47] (butlast cs)))"

definition path_file_name :: "rstr \<Rightarrow> rstr option" where
  "path_file_name p = (let cs = path_components p in
     if cs = [] \<or> last cs = str ''..'' then None else Some (last cs))"

definition path_join :: "rstr \<Rightarrow> rstr \<Rightarrow> rstr" where
  "path_join dir name = (if dir \<noteq> [] \<and> last dir = 47 then dir @ name else dir @ [47] @ name)"

definition tmp_name :: "sec_env \<Rightarrow> rstr \<Rightarrow> rstr" where
  "tmp_name E path = str ''.'' @
     (case path_file_name path of Some n \<Rightarrow> n | None \<Rightarrow> str ''secret'') @
     str ''.tmp.'' @ show_nat (e_pid E)"

text \<open>
  What a call of \<open>std::fs\<close> does when it succeeds (\<open>None\<close>: it cannot), and the part of a
  failing write that still reached the file.
\<close>

fun fs_effect :: "sec_env \<Rightarrow> fs_call \<Rightarrow> fs \<Rightarrow> fs option" where
  "fs_effect E (CreateDirs p) m = Some m"
| "fs_effect E (Remove p) m = (if m p = None then None else Some (m(p := None)))"
| "fs_effect E (CreateNew p md) m =
     (if m p = None
      then Some (m(p \<mapsto> \<lparr>f_content = [], f_mode = md AND NOT (e_umask E), f_owner = e_ids E\<rparr>))
      else None)"
| "fs_effect E (WriteAll p b) m =
     (case m p of None \<Rightarrow> None | Some f \<Rightarrow> Some (m(p \<mapsto> f\<lparr>f_content := b\<rparr>)))"
| "fs_effect E (SyncAll p) m = Some m"
| "fs_effect E (Chown p u g) m =
     (case m p of None \<Rightarrow> None | Some f \<Rightarrow> Some (m(p \<mapsto> f\<lparr>f_owner := (u, g)\<rparr>)))"
| "fs_effect E (Chmod p md) m =
     (case m p of None \<Rightarrow> None | Some f \<Rightarrow> Some (m(p \<mapsto> f\<lparr>f_mode := md\<rparr>)))"
| "fs_effect E (Rename a b) m =
     (case m a of None \<Rightarrow> None | Some f \<Rightarrow> Some ((m(a := None))(b \<mapsto> f)))"

fun fs_partial :: "nat \<Rightarrow> fs_call \<Rightarrow> fs \<Rightarrow> fs" where
  "fs_partial k (WriteAll p b) m =
     (case m p of None \<Rightarrow> m | Some f \<Rightarrow> m(p \<mapsto> f\<lparr>f_content := take k b\<rparr>))"
| "fs_partial k c m = m"

definition fs_step :: "fs \<Rightarrow> sec_state \<Rightarrow> sec_state" where
  "fs_step m s = s\<lparr>files := m, fs_seen := files s # fs_seen s\<rparr>"

definition do_fs :: "sec_env \<Rightarrow> fs_call \<Rightarrow> unit secd" where
  "do_fs E c = (\<lambda>s.
     case e_fault E (length (fs_seen s)) c of
       Some (e, k) \<Rightarrow> (Failed e, fs_step (fs_partial k c (files s)) s)
     | None \<Rightarrow>
         (case fs_effect E c (files s) of
            None \<Rightarrow> (Failed (lit ''file system error''), fs_step (files s) s)
          | Some m \<Rightarrow> (Done (), fs_step m s)))"

definition context_err :: "message \<Rightarrow> 'a secd \<Rightarrow> 'a secd" where
  "context_err c m = map_err (\<lambda>e. Fmt ''{}: {}'' [c, e]) m"

definition or_cleanup :: "sec_env \<Rightarrow> rstr \<Rightarrow> string \<Rightarrow> rstr \<Rightarrow> unit secd \<Rightarrow> unit secd" where
  "or_cleanup E tmp what p m =
     bnd (attempt m) (\<lambda>r. case r of
         Inr _ \<Rightarrow> ret ()
       | Inl e \<Rightarrow> bnd (ignore (do_fs E (Remove tmp))) (\<lambda>_.
                   fail (Fmt ''{} {}: {}'' [lit what, Str p, e])))"

definition log_event :: "sec_event \<Rightarrow> unit secd" where
  "log_event e = update_state (\<lambda>s. s\<lparr>trace := e # trace s\<rparr>)"

definition write_secret :: "sec_env \<Rightarrow> secret_spec \<Rightarrow> nat \<times> nat \<Rightarrow> (rstr \<times> rstr) list \<Rightarrow> unit secd" where
  "write_secret E spec ids vals =
     (case path_parent (spath spec) of
        None \<Rightarrow> fail (lit ''secret path has no parent directory'')
      | Some dir \<Rightarrow>
          bnd (context_err (Fmt ''creating {}'' [Str dir]) (do_fs E (CreateDirs dir))) (\<lambda>_.
          case parse_mode (smode spec) of
            None \<Rightarrow> fail (lit ''invalid mode'')
          | Some mode \<Rightarrow>
              let tmp = path_join dir (tmp_name E (spath spec)); body = encode_env_file vals in
              bnd (ignore (do_fs E (Remove tmp))) (\<lambda>_.
              bnd (context_err (Fmt ''creating {}'' [Str tmp]) (do_fs E (CreateNew tmp owner_rw))) (\<lambda>_.
              bnd (context_err (lit ''writing secret'') (do_fs E (WriteAll tmp body))) (\<lambda>_.
              bnd (context_err (lit ''syncing secret'') (do_fs E (SyncAll tmp))) (\<lambda>_.
              bnd (or_cleanup E tmp ''chown'' tmp (do_fs E (Chown tmp (fst ids) (snd ids)))) (\<lambda>_.
              bnd (or_cleanup E tmp ''chmod'' tmp (do_fs E (Chmod tmp (word_of_nat mode)))) (\<lambda>_.
              bnd (or_cleanup E tmp ''rename into'' (spath spec) (do_fs E (Rename tmp (spath spec)))) (\<lambda>_.
              bnd (log_event (Wrote (sname spec) vals)) (\<lambda>_.
              ignore (do_fs E (SyncAll dir))))))))))))"

section \<open>The state machine of one secret\<close>

definition sleep_retry :: "unit secd" where
  "sleep_retry = (\<lambda>s. case ticks s of
      0 \<Rightarrow> (Waiting, s)
    | Suc n \<Rightarrow> (Done (), s\<lparr>ticks := n, trace := Slept # trace s\<rparr>))"

text \<open>
  \<open>validate_until_decided\<close>: the first argument counts the sleeps left, so that the
  recursion is structural; \<open>sleep_retry\<close> ends the run when they are used up.
\<close>

fun decide_loop :: "nat \<Rightarrow> sec_env \<Rightarrow> secret_spec \<Rightarrow> (rstr \<times> rstr) list \<Rightarrow> string \<Rightarrow> nat \<Rightarrow> verdict secd" where
  "decide_loop n E spec vals what k =
     bnd (set_secret (sname spec) Validating (Fmt ''validating {}'' [lit what])) (\<lambda>_.
     bnd (validate E spec vals) (\<lambda>v.
       if v_status v \<noteq> Error then
         bnd (if 1 < k then ui_blocked False else ret ()) (\<lambda>_. ret v)
       else
         bnd (set_secret (sname spec) Undecided
               (Fmt ''validator cannot decide: {}'' [v_message v])) (\<lambda>_.
         bnd (ui_blocked True) (\<lambda>_.
         bnd (ui_state ''undecided''
               (Fmt ''{}: validator cannot decide ({}); nothing written, nothing discarded - retrying in {}s (attempt {})''
                 [Str (sname spec), v_message v, Num (e_retry_secs E), Num k])) (\<lambda>_.
         bnd sleep_retry (\<lambda>_.
           case n of 0 \<Rightarrow> wait
           | Suc m \<Rightarrow> decide_loop m E spec vals what (k + 1)))))))"

declare decide_loop.simps [simp del]

definition validate_until_decided ::
    "sec_env \<Rightarrow> secret_spec \<Rightarrow> (rstr \<times> rstr) list \<Rightarrow> string \<Rightarrow> verdict secd" where
  "validate_until_decided E spec vals what = (\<lambda>s. decide_loop (ticks s) E spec vals what 1 s)"

fun prompt_loop :: "nat \<Rightarrow> sec_env \<Rightarrow> secret_spec \<Rightarrow> nat \<times> nat \<Rightarrow> env_map \<Rightarrow> message \<Rightarrow> unit secd" where
  "prompt_loop 0 E spec ids known reason = wait"
| "prompt_loop (Suc n) E spec ids known reason =
     bnd (set_secret (sname spec) NeedsInput reason) (\<lambda>_.
     bnd (ask spec reason known) (\<lambda>vals.
     bnd (validate_until_decided E spec vals ''entered credentials'') (\<lambda>v.
       case v_status v of
         Valid \<Rightarrow>
           bnd (context_err (Fmt ''writing {}'' [Str (spath spec)]) (write_secret E spec ids vals)) (\<lambda>_.
           bnd (set_secret (sname spec) Satisfied (lit ''accepted and written'')) (\<lambda>_.
           ui_state ''check''
             (Fmt ''{}: accepted and written to {}'' [Str (sname spec), Str (spath spec)])))
       | Invalid \<Rightarrow>
           (let reason = (if message_is_empty (v_message v) then lit ''rejected by the validator''
                          else Fmt ''rejected by the validator: {}'' [v_message v]) in
            bnd (ui_state ''prompt'' (Fmt ''{}: {}'' [Str (sname spec), reason])) (\<lambda>_.
            prompt_loop n E spec ids (keep_plain spec vals) reason))
       | Error \<Rightarrow> fail (lit ''unreachable: validate_until_decided never returns error''))))"

definition prompt_until_accepted ::
    "sec_env \<Rightarrow> secret_spec \<Rightarrow> nat \<times> nat \<Rightarrow> env_map \<Rightarrow> message \<Rightarrow> unit secd" where
  "prompt_until_accepted E spec ids known reason =
     (\<lambda>s. prompt_loop (Suc (length (inbox s))) E spec ids known reason s)"

definition read_file :: "sec_env \<Rightarrow> rstr \<Rightarrow> (message + rstr option) secd" where
  "read_file E p = gets (\<lambda>s. case e_read_error E (length (trace s)) p of
      Some e \<Rightarrow> Inl e
    | None \<Rightarrow> Inr (map_option f_content (files s p)))"

definition plain_of_stored :: "secret_spec \<Rightarrow> (rstr \<times> rstr) list \<Rightarrow> env_map" where
  "plain_of_stored spec vals =
     map_of (rev (List.map_filter (\<lambda>f. find (\<lambda>(k, v). k = fname f) vals)
                    (filter (\<lambda>f. \<not> sensitive f) (sfields spec))))"

definition satisfy :: "sec_env \<Rightarrow> secret_spec \<Rightarrow> nat \<times> nat \<Rightarrow> unit secd" where
  "satisfy E spec ids =
     bnd (set_secret (sname spec) Checking (lit ''reading stored file'')) (\<lambda>_.
     bnd (ui_state ''check'' (Fmt ''{}: checking stored credentials'' [Str (sname spec)])) (\<lambda>_.
     bnd (read_file E (spath spec)) (\<lambda>r.
       case r of
         Inl e \<Rightarrow> fail (Fmt ''reading {}: {}'' [Str (spath spec), e])
       | Inr content \<Rightarrow>
          (case classify_stored spec (map_option parse_env_file content) of
             Absent \<Rightarrow>
               bnd (ui_state ''prompt'' (Fmt ''{}: not stored yet'' [Str (sname spec)])) (\<lambda>_.
               prompt_until_accepted E spec ids Map.empty (lit ''no credentials stored yet''))
           | Incomplete r usable \<Rightarrow>
               bnd (ui_state ''prompt'' (Fmt ''{}: {}'' [Str (sname spec), r])) (\<lambda>_.
               prompt_until_accepted E spec ids (\<lambda>k. if is_plain spec k then usable k else None) r)
           | Complete vals \<Rightarrow>
               bnd (validate_until_decided E spec vals ''stored credentials'') (\<lambda>v.
               case v_status v of
                 Valid \<Rightarrow>
                   bnd (set_secret (sname spec) Satisfied (lit ''stored credentials valid'')) (\<lambda>_.
                   ui_state ''check'' (Fmt ''{}: stored credentials valid'' [Str (sname spec)]))
               | Invalid \<Rightarrow>
                   (let reason = (if message_is_empty (v_message v)
                                  then lit ''stored credentials were rejected''
                                  else Fmt ''stored credentials were rejected: {}'' [v_message v]) in
                    bnd (ui_state ''prompt'' (Fmt ''{}: {}'' [Str (sname spec), reason])) (\<lambda>_.
                    prompt_until_accepted E spec ids (plain_of_stored spec vals) reason))
               | Error \<Rightarrow> fail (lit ''unreachable: validate_until_decided never returns error''))))))"

section \<open>The two sessions\<close>

text \<open>The list the operator sees first: every secret, pending.\<close>

definition pending :: "secret_spec list \<Rightarrow> secret_status list" where
  "pending specs = map (\<lambda>x. \<lparr>st_name = sname x, st_description = sdescription x,
     st_state = Pending, st_detail = Str []\<rparr>) specs"

definition finish :: "message \<Rightarrow> unit secd" where
  "finish m =
     bnd (mutate (\<lambda>sn. sn\<lparr>ss_done := True, ss_blocked := False, ss_prompt := None\<rparr>)) (\<lambda>_.
     ui_state ''done'' m)"

definition boot_session :: "sec_env \<Rightarrow> (secret_spec \<times> (nat \<times> nat)) list \<Rightarrow> unit secd" where
  "boot_session E jobs =
     bnd (each (\<lambda>(s, ids). satisfy E s ids) jobs) (\<lambda>_.
     finish (lit ''all operator-provided secrets satisfied; boot continuing''))"

text \<open>\<open>read_to_string(&path).ok().map(parse_env_file)\<close>: an unreadable file counts as absent.\<close>

definition stored_file :: "sec_env \<Rightarrow> secret_spec \<Rightarrow> env_map option secd" where
  "stored_file E spec = bnd (read_file E (spath spec)) (\<lambda>r. ret (case r of
      Inl _ \<Rightarrow> None
    | Inr content \<Rightarrow> map_option parse_env_file content))"

definition show_stored :: "sec_env \<Rightarrow> secret_spec \<Rightarrow> unit secd" where
  "show_stored E spec =
     bnd (stored_file E spec) (\<lambda>stored.
       case classify_stored spec stored of
         Absent \<Rightarrow> set_secret (sname spec) NeedsInput (lit ''not stored yet'')
       | Incomplete r _ \<Rightarrow> set_secret (sname spec) NeedsInput r
       | Complete _ \<Rightarrow> set_secret (sname spec) Satisfied (Fmt ''stored in {}'' [Str (spath spec)]))"

definition known_of_file :: "secret_spec \<Rightarrow> env_map \<Rightarrow> env_map" where
  "known_of_file spec stored =
     map_of (rev (List.map_filter (\<lambda>f. map_option (Pair (fname f)) (stored (fname f)))
                    (filter (\<lambda>f. \<not> sensitive f) (sfields spec))))"

definition edit_session :: "sec_env \<Rightarrow> (secret_spec \<times> (nat \<times> nat)) list \<Rightarrow> unit secd" where
  "edit_session E jobs =
     bnd (each (\<lambda>(s, _). show_stored E s) jobs) (\<lambda>_.
     bnd (mutate (\<lambda>sn. sn\<lparr>ss_choosing := True\<rparr>)) (\<lambda>_.
     bnd (ui_state ''choose'' (lit ''select the secret to re-enter'')) (\<lambda>_.
     bnd wait_for_choice (\<lambda>chosen.
     bnd (mutate (\<lambda>sn. sn\<lparr>ss_choosing := False\<rparr>)) (\<lambda>_.
       case find (\<lambda>(s, _). sname s = chosen) jobs of
         None \<Rightarrow> fail (Fmt ''no secret named {} on this host'' [Str chosen])
       | Some (secret, ids) \<Rightarrow>
           bnd (stored_file E secret) (\<lambda>stored.
           let known = known_of_file secret (case stored of None \<Rightarrow> Map.empty | Some m \<Rightarrow> m) in
           bnd (ui_state ''prompt'' (Fmt ''{}: re-entering'' [Str (sname secret)])) (\<lambda>_.
           bnd (prompt_until_accepted E secret ids known
                 (lit ''re-entering at the operator's request'')) (\<lambda>_.
           finish (Fmt ''{} updated'' [Str (sname secret)])))))))))"

text \<open>
  \<open>run\<close>, from the point where the specification is parsed, the ids are known and the socket
  is bound.
\<close>

definition run_sessions :: "sec_env \<Rightarrow> bool \<Rightarrow> (secret_spec \<times> (nat \<times> nat)) list \<Rightarrow> unit secd" where
  "run_sessions E edit jobs =
     bnd (mutate (\<lambda>sn. sn\<lparr>ss_secrets := pending (map fst jobs)\<rparr>)) (\<lambda>_.
     if edit then edit_session E jobs else boot_session E jobs)"

section \<open>Owners\<close>

text \<open>
  The passwd and group texts are what \<open>read_db\<close> returned; \<open>ge db name\<close> is the output of
  \<open>getent db name\<close>, \<open>None\<close> when it could not be run or exited unsuccessfully.
\<close>

definition getent :: "(string \<Rightarrow> rstr \<Rightarrow> rstr option) \<Rightarrow> string \<Rightarrow> rstr \<Rightarrow> nat option" where
  "getent ge db name = (case ge db name of None \<Rightarrow> None | Some out \<Rightarrow> lookup_id out name)"

definition or_else :: "'a option \<Rightarrow> 'a option \<Rightarrow> 'a option" where
  "or_else x y = (case x of None \<Rightarrow> y | Some a \<Rightarrow> Some a)"

definition resolve_ids ::
    "(string \<Rightarrow> rstr \<Rightarrow> rstr option) \<Rightarrow> rstr \<Rightarrow> rstr \<Rightarrow> secret_spec \<Rightarrow> message + (nat \<times> nat)" where
  "resolve_ids ge passwd grp spec =
     (case or_else (lookup_id passwd (sowner spec)) (getent ge ''passwd'' (sowner spec)) of
        None \<Rightarrow> Inl (Fmt ''secret {}: unknown owner {}'' [Str (sname spec), Dbg (sowner spec)])
      | Some uid \<Rightarrow>
          (case or_else (lookup_id grp (group_of spec)) (getent ge ''group'' (group_of spec)) of
             None \<Rightarrow> Inl (Fmt ''secret {}: unknown group {}'' [Str (sname spec), Dbg (group_of spec)])
           | Some gid \<Rightarrow> Inr (uid, gid)))"

fun resolve_all ::
    "(string \<Rightarrow> rstr \<Rightarrow> rstr option) \<Rightarrow> rstr \<Rightarrow> rstr \<Rightarrow> secret_spec list \<Rightarrow>
     message + (secret_spec \<times> (nat \<times> nat)) list" where
  "resolve_all ge passwd grp [] = Inr []"
| "resolve_all ge passwd grp (s # ss) =
     (case resolve_ids ge passwd grp s of
        Inl e \<Rightarrow> Inl e
      | Inr ids \<Rightarrow>
          (case resolve_all ge passwd grp ss of Inl e \<Rightarrow> Inl e | Inr r \<Rightarrow> Inr ((s, ids) # r)))"

section \<open>The socket directory\<close>

record fs_node =
  is_dir :: bool
  node_uid :: nat
  node_mode :: mode

text \<open>
  \<open>faults\<close> are the operating system's answers: whether creating the parents, creating the
  directory (for another reason than that it exists) or reading its metadata failed.
\<close>

record dir_faults =
  parents_err :: "message option"
  create_err :: "message option"
  stat_err :: "message option"

definition prepare_socket_dir ::
    "dir_faults \<Rightarrow> mode \<Rightarrow> nat \<Rightarrow> rstr \<Rightarrow> (rstr \<rightharpoonup> fs_node) \<Rightarrow> message + (rstr \<rightharpoonup> fs_node)" where
  "prepare_socket_dir faults umask euid dir nodes =
     (case (if path_parent dir = None then None else parents_err faults) of
        Some e \<Rightarrow> Inl (Fmt ''creating {}: {}'' [Str (the (path_parent dir)), e])
      | None \<Rightarrow>
          (case (nodes dir, create_err faults) of
             (None, Some e) \<Rightarrow> Inl (Fmt ''creating {}: {}'' [Str dir, e])
           | (None, None) \<Rightarrow>
               Inr (nodes(dir \<mapsto> \<lparr>is_dir = True, node_uid = euid, node_mode = 0x1C0 AND NOT umask\<rparr>))
           | (Some n, _) \<Rightarrow>
               (case stat_err faults of
                  Some e \<Rightarrow> Inl (Fmt ''stat {}: {}'' [Str dir, e])
                | None \<Rightarrow>
                    if \<not> is_dir n then Inl (Fmt ''{} exists and is not a directory'' [Str dir])
                    else let md = node_mode n AND 0x1FF in
                      if node_uid n \<noteq> euid \<or> md AND group_other \<noteq> 0
                      then Inl (Fmt ''{} already exists and is not private to this daemon's owner (owned by uid {}, we are uid {}, mode {}); refusing to narrow a directory this daemon does not own - point --socket at a dedicated directory instead''
                                 [Str dir, Num (node_uid n), Num euid, Num (unat md)])
                      else Inr nodes)))"

end
