(* ===== verification/Secrets_Safety.thy ===== *)
theory Secrets_Safety
  imports Secrets_Daemon
begin

text \<open>
  What operator-secretsd guarantees about the files it manages: the write is atomic and
  never readable by others too early, a stored file is replaced only by values a validator
  has just called valid, and the boot is released only with such values on disk.
\<close>

section \<open>Paths\<close>

lemma split_on_append_gen: "split_on d (a @ d # b) = split_on d a @ split_on d b"
  by (induction a) (auto split: list.splits simp: append_eq_Cons_conv)

lemma split_on_pieces: "p \<in> set (split_on d s) \<Longrightarrow> d \<notin> set p"
proof (induction s arbitrary: p)
  case Nil
  then show ?case by simp
next
  case (Cons c s)
  then show ?case by (cases "split_on d s") (auto split: if_splits)
qed

lemma path_components_pieces: "c \<in> set (path_components p) \<Longrightarrow> 47 \<notin> set c"
  by (auto simp: path_components_def dest: split_on_pieces)

lemma last_component_join:
  assumes "47 \<notin> set n" and "n \<noteq> []" and "n \<noteq> str ''.''"
  shows "path_components (path_join dir n) \<noteq> [] \<and> last (path_components (path_join dir n)) = n"
proof -
  obtain a where a: "path_join dir n = a @ 47 # n"
  proof (cases "dir \<noteq> [] \<and> last dir = 47")
    case True
    then have "path_join dir n = butlast dir @ 47 # n"
      by (metis append_Cons append_Nil append_assoc append_butlast_last_id path_join_def)
    then show ?thesis by (rule that)
  next
    case False
    then have "path_join dir n = dir @ 47 # n" by (auto simp: path_join_def)
    then show ?thesis by (rule that)
  qed
  have "split_on 47 (path_join dir n) = split_on 47 a @ [n]"
    using assms(1) by (simp add: a split_on_append_gen split_on_single)
  then show ?thesis
    using assms(2,3) by (simp add: path_components_def)
qed

lemma tmp_name_no_slash: "47 \<notin> set (tmp_name E p)"
proof -
  have "47 \<notin> set (show_nat (e_pid E))"
    using show_nat_digits [of 47 "e_pid E"] by (auto simp: is_ascii_digit_def)
  moreover have "47 \<notin> set n" if "path_file_name p = Some n" for n
    using that path_components_pieces [of n p]
    by (auto simp: path_file_name_def Let_def split: if_splits)
  ultimately show ?thesis
    by (auto simp: tmp_name_def str_def split: option.splits)
qed

lemma tmp_name_length: "path_file_name p = Some n \<Longrightarrow> length n < length (tmp_name E p)"
  by (simp add: tmp_name_def)

lemma tmp_not_path: "path_join dir (tmp_name E p) \<noteq> p"
proof
  assume eq: "path_join dir (tmp_name E p) = p"
  have "tmp_name E p \<noteq> []" "length (tmp_name E p) > 2"
    by (auto simp: tmp_name_def)
  then have "tmp_name E p \<noteq> str ''.''" by auto
  then have c: "path_components p \<noteq> []" "last (path_components p) = tmp_name E p"
    using last_component_join [OF tmp_name_no_slash [of E p], of dir] \<open>tmp_name E p \<noteq> []\<close> eq
    by auto
  show False
  proof (cases "path_file_name p")
    case None
    with c have "tmp_name E p = str ''..''" by (auto simp: path_file_name_def Let_def split: if_splits)
    then have "length (tmp_name E p) = 2" by simp
    with \<open>length (tmp_name E p) > 2\<close> show False by simp
  next
    case (Some n)
    with c have "n = tmp_name E p" by (auto simp: path_file_name_def Let_def split: if_splits)
    with tmp_name_length [OF Some, of E] show False by simp
  qed
qed

section \<open>Following the file system\<close>

definition tracks :: "(fs \<Rightarrow> bool) \<Rightarrow> sec_state \<Rightarrow> sec_state \<Rightarrow> bool" where
  "tracks P s s' \<longleftrightarrow>
     (\<exists>new. files s' # fs_seen s' = new @ files s # fs_seen s \<and> (\<forall>m\<in>set new. P m)) \<and>
     trace s' = trace s \<and> inbox s' = inbox s"

lemma tracks_refl [simp]: "tracks P s s"
  unfolding tracks_def by (intro conjI exI [of _ "[]"]) auto

lemma tracks_step: "tracks P s s' \<Longrightarrow> P m \<Longrightarrow> tracks P s (fs_step m s')"
proof -
  assume "tracks P s s'" and m: "P m"
  then obtain new where "files s' # fs_seen s' = new @ files s # fs_seen s"
      "\<forall>m\<in>set new. P m" "trace s' = trace s" "inbox s' = inbox s"
    by (auto simp: tracks_def)
  with m show ?thesis
    unfolding tracks_def by (intro conjI exI [of _ "m # new"]) (auto simp: fs_step_def)
qed

lemma wp_do_fs:
  assumes "tracks P s s1"
    and "\<And>m. fs_effect E c (files s1) = Some m \<Longrightarrow> P m \<and> Q m"
    and "\<And>k. P (fs_partial k c (files s1)) \<and> F (fs_partial k c (files s1))"
    and "P (files s1) \<and> F (files s1)"
  shows "wp (do_fs E c) (\<lambda>_ s'. tracks P s s' \<and> Q (files s'))
           (\<lambda>s'. tracks P s s' \<and> F (files s')) s1"
  using assms
  by (auto simp: wp_def do_fs_def tracks_step split: option.splits) (auto simp: fs_step_def)

lemma wp_or_cleanup:
  assumes "wp m (\<lambda>_ s'. tracks P s s' \<and> Q (files s')) (\<lambda>s'. tracks P s s' \<and> F (files s')) s1"
    and "\<And>m. F m \<Longrightarrow> P m \<and> P (m(tmp := None)) \<and> F (m(tmp := None))"
  shows "wp (or_cleanup E tmp what p m) (\<lambda>_ s'. tracks P s s' \<and> Q (files s'))
           (\<lambda>s'. tracks P s s' \<and> F (files s')) s1"
proof -
  have rm: "wp (ignore (do_fs E (Remove tmp))) (\<lambda>_ s'. tracks P s s' \<and> F (files s'))
        (\<lambda>s'. tracks P s s' \<and> F (files s')) s2"
    if "tracks P s s2" and "F (files s2)" for s2
    by (rule wp_ignore, rule wp_mono, rule wp_do_fs [OF that(1), where Q = F and F = F])
       (use that assms(2) in \<open>auto split: if_splits\<close>)
  show ?thesis
    unfolding or_cleanup_def wp_bnd
    by (rule wp_attempt, rule wp_mono [OF assms(1)])
       (auto simp: wp_simps intro!: wp_mono [OF rm])
qed

section \<open>The write is atomic and private\<close>

definition written_file :: "secret_spec \<Rightarrow> nat \<times> nat \<Rightarrow> nat \<Rightarrow> (rstr \<times> rstr) list \<Rightarrow> disk_file" where
  "written_file spec ids md vals =
     \<lparr>f_content = encode_env_file vals, f_mode = word_of_nat md, f_owner = ids\<rparr>"

text \<open>
  What holds of every file system seen during the write: at the secret's own path there is
  the old file or the finished new one, and any file that was not there before is closed to
  group and others or already has its final owner and mode.  Apart from the secret's path and
  its temporary file nothing changes.
\<close>

definition tmp_path :: "sec_env \<Rightarrow> secret_spec \<Rightarrow> rstr" where
  "tmp_path E spec = (case path_parent (spath spec) of
      None \<Rightarrow> spath spec
    | Some dir \<Rightarrow> path_join dir (tmp_name E (spath spec)))"

definition write_ok :: "sec_env \<Rightarrow> fs \<Rightarrow> secret_spec \<Rightarrow> disk_file \<Rightarrow> fs \<Rightarrow> bool" where
  "write_ok E m0 spec new m \<longleftrightarrow>
     (m (spath spec) = m0 (spath spec) \<or> m (spath spec) = Some new) \<and>
     (\<forall>q. q \<noteq> spath spec \<and> q \<noteq> tmp_path E spec \<longrightarrow> m q = m0 q) \<and>
     (\<forall>q f. m q = Some f \<longrightarrow> m0 q = Some f \<or> f_mode f AND group_other = 0 \<or>
              (f_mode f = f_mode new \<and> f_owner f = f_owner new))"

lemma owner_rw_private: "(owner_rw AND NOT u) AND group_other = (0 :: mode)"
proof -
  have "(owner_rw AND NOT u) AND group_other = (owner_rw AND group_other) AND NOT u"
    by (simp only: ac_simps)
  also have "owner_rw AND group_other = (0 :: mode)" by simp
  finally show ?thesis by simp
qed

lemma write_secret_tracks:
  fixes E ids vals s
  assumes md: "parse_mode (smode spec) = Some md"
  defines "new \<equiv> written_file spec ids md vals"
  defines "P \<equiv> write_ok E (files s) spec new"
  defines "old \<equiv> files s (spath spec)"
  shows "wp (write_secret E spec ids vals)
     (\<lambda>_ s'. (\<exists>s1. tracks P s s1 \<and> fs_seen s' = fs_seen s1 \<and> files s' = files s1 \<and>
                trace s' = Wrote (sname spec) vals # trace s) \<and> inbox s' = inbox s \<and>
             files s' (spath spec) = Some new)
     (\<lambda>s'. tracks P s s' \<and> files s' (spath spec) = old) s"
proof (cases "path_parent (spath spec)")
  case None
  then show ?thesis by (simp add: write_secret_def wp_simps old_def)
next
  case (Some dir)
  let ?p = "spath spec" and ?tmp = "path_join dir (tmp_name E (spath spec))"
  let ?b = "encode_env_file vals" and ?lo = "owner_rw AND NOT (e_umask E)"
  note ne = tmp_not_path [of dir E "spath spec"]
  have tmp [simp]: "tmp_path E spec = ?tmp" by (simp add: tmp_path_def Some)
  have lo: "?lo AND group_other = 0" by (rule owner_rw_private)
  let ?F = "\<lambda>m. P m \<and> m ?p = old"
  let ?T = "\<lambda>c md' own. \<lambda>m. ?F m \<and> m ?tmp = Some \<lparr>f_content = c, f_mode = md', f_owner = own\<rparr>"
  have P0: "?F (files s)" by (auto simp: P_def write_ok_def old_def)
  have upd: "?F (m(?tmp := x))"
    if "?F m" "\<And>f. x = Some f \<Longrightarrow> f_mode f AND group_other = 0 \<or>
        (f_mode f = f_mode new \<and> f_owner f = f_owner new)" for m x
    using that ne by (auto simp: P_def write_ok_def)
  have put: "P m \<Longrightarrow> m ?p = old \<Longrightarrow> f_mode f AND group_other = 0 \<or>
      (f_mode f = f_mode new \<and> f_owner f = f_owner new) \<Longrightarrow> P (m(?tmp \<mapsto> f))" for m f
    using upd [of m "Some f"] by auto
  have call: "wp (do_fs E c) (\<lambda>_ s'. tracks P s s' \<and> Q (files s'))
        (\<lambda>s'. tracks P s s' \<and> ?F (files s')) s1"
    if "tracks P s s1" and "\<And>m. fs_effect E c (files s1) = Some m \<Longrightarrow> P m \<and> Q m"
      and "?F (files s1)" and "\<And>k. ?F (fs_partial k c (files s1))" for c Q s1
    by (rule wp_do_fs) (use that in auto)
  let ?At = "\<lambda>A s1. tracks P s s1 \<and> A (files s1)"
  let ?X = "\<lambda>s1. ?At ?F s1"
  have dirs: "wp (do_fs E (CreateDirs dir)) (\<lambda>_ s'. ?At ?F s') ?X s"
    by (rule call) (use P0 in auto)
  have rm: "wp (ignore (do_fs E (Remove ?tmp))) (\<lambda>_ s'. ?At ?F s') ?X s1" if "?At ?F s1" for s1
    by (rule wp_ignore, rule wp_mono [OF call [where Q = ?F]])
       (use that upd [of _ None] in \<open>auto split: if_splits\<close>)
  have create: "wp (do_fs E (CreateNew ?tmp owner_rw)) (\<lambda>_ s'. ?At (?T [] ?lo (e_ids E)) s') ?X s1"
    if "?At ?F s1" for s1
    by (rule call) (use that lo put ne in \<open>auto split: if_splits\<close>)
  have body: "wp (do_fs E (WriteAll ?tmp ?b)) (\<lambda>_ s'. ?At (?T ?b ?lo (e_ids E)) s') ?X s1"
    if "?At (?T [] ?lo (e_ids E)) s1" for s1
    by (rule call) (use that lo put ne in auto)
  have sync: "wp (do_fs E (SyncAll q)) (\<lambda>_ s'. ?At (?T ?b ?lo (e_ids E)) s') ?X s1"
    if "?At (?T ?b ?lo (e_ids E)) s1" for s1 q
    by (rule call) (use that in auto)
  have own: "wp (do_fs E (Chown ?tmp (fst ids) (snd ids))) (\<lambda>_ s'. ?At (?T ?b ?lo ids) s') ?X s1"
    if "?At (?T ?b ?lo (e_ids E)) s1" for s1
    by (rule call) (use that lo put ne in auto)
  have mode: "wp (do_fs E (Chmod ?tmp (word_of_nat md)))
        (\<lambda>_ s'. ?At (?T ?b (word_of_nat md) ids) s') ?X s1"
    if "?At (?T ?b ?lo ids) s1" for s1
    by (rule call) (use that put ne in \<open>auto simp: new_def written_file_def\<close>)
  let ?N = "\<lambda>m. P m \<and> m ?p = Some new"
  have ren: "wp (do_fs E (Rename ?tmp ?p)) (\<lambda>_ s'. ?At ?N s') ?X s1"
    if "?At (?T ?b (word_of_nat md) ids) s1" for s1
    by (rule call [where Q = ?N])
       (use that ne in \<open>auto simp: new_def written_file_def P_def write_ok_def\<close>)
  have clean: "?F m \<Longrightarrow> P m \<and> P (m(?tmp := None)) \<and> ?F (m(?tmp := None))" for m
    using upd [of m None] by auto
  let ?Q = "\<lambda>s'. (\<exists>s1. tracks P s s1 \<and> fs_seen s' = fs_seen s1 \<and> files s' = files s1 \<and>
                trace s' = Wrote (sname spec) vals # trace s) \<and> inbox s' = inbox s \<and>
             files s' ?p = Some new"
  have final: "wp (ignore (do_fs E (SyncAll dir))) (\<lambda>_. ?Q) X
      (s1\<lparr>trace := Wrote (sname spec) vals # trace s1\<rparr>)"
    if "?At ?N s1" for s1 X
  proof -
    have st: "tracks P s (fs_step (files s1) s1)" using that by (blast intro: tracks_step)
    have eq: "trace s1 = trace s" "inbox s1 = inbox s" using that by (auto simp: tracks_def)
    have "?Q (fs_step (files s1) (s1\<lparr>trace := Wrote (sname spec) vals # trace s1\<rparr>))"
      by (intro conjI exI [of _ "fs_step (files s1) s1"])
         (use st eq that in \<open>auto simp: fs_step_def\<close>)
    then show ?thesis
      by (auto simp: ignore_def wp_def bnd_def attempt_def ret_def do_fs_def split: option.splits)
  qed
  have "wp (write_secret E spec ids vals) (\<lambda>_. ?Q) ?X s"
    unfolding write_secret_def Some md option.case Let_def context_err_def
    apply (rule wp_seq [OF wp_map_err [OF dirs]])
    apply (rule wp_seq [OF rm], assumption)
    apply (rule wp_seq [OF wp_map_err [OF create]], assumption)
    apply (rule wp_seq [OF wp_map_err [OF body]], assumption)
    apply (rule wp_seq [OF wp_map_err [OF sync]], assumption)
    apply (rule wp_seq [OF wp_or_cleanup [OF own clean]], assumption, assumption)
    apply (rule wp_seq [OF wp_or_cleanup [OF mode clean]], assumption, assumption)
    apply (rule wp_seq [OF wp_or_cleanup [OF ren clean]], assumption, assumption)
    unfolding log_event_def wp_bnd wp_update_state
    by (rule final)
  then show ?thesis
    by (rule wp_mono) auto
qed

lemma write_secret_no_mode:
  assumes md: "parse_mode (smode spec) = None"
  shows "wp (write_secret E spec ids vals) (\<lambda>_ s'. False)
     (\<lambda>s'. tracks (\<lambda>m. m = files s) s s' \<and> files s' = files s) s"
proof (cases "path_parent (spath spec)")
  case None
  then show ?thesis by (simp add: write_secret_def wp_simps)
next
  case (Some dir)
  have "wp (do_fs E (CreateDirs dir)) (\<lambda>_ s'. tracks (\<lambda>m. m = files s) s s' \<and> files s' = files s)
      (\<lambda>s'. tracks (\<lambda>m. m = files s) s s' \<and> files s' = files s) s"
    by (rule wp_do_fs) auto
  then show ?thesis
    unfolding write_secret_def Some md option.case context_err_def
    by (intro wp_seq [OF wp_map_err]) (auto simp: wp_simps)
qed

section \<open>Quiet steps\<close>

text \<open>Between the writes nothing happens to the files: the trace grows, the queue shrinks.\<close>

definition is_write :: "sec_event \<Rightarrow> bool" where
  "is_write e = (case e of Wrote _ _ \<Rightarrow> True | _ \<Rightarrow> False)"

lemma is_write_simps [simp]:
  "is_write (Wrote n v)" "\<not> is_write (Published sn)" "\<not> is_write (Judged n vs vd)"
  "\<not> is_write Slept"
  by (simp_all add: is_write_def)

definition quiet :: "sec_state \<Rightarrow> sec_state \<Rightarrow> bool" where
  "quiet s s' \<longleftrightarrow> files s' = files s \<and> fs_seen s' = fs_seen s \<and>
     length (inbox s') \<le> length (inbox s) \<and>
     (\<exists>new. trace s' = new @ trace s \<and> (\<forall>e\<in>set new. \<not> is_write e))"

lemma quiet_refl [simp]: "quiet s s"
  by (auto simp: quiet_def)

lemma quiet_trans: "quiet a b \<Longrightarrow> quiet b c \<Longrightarrow> quiet a c"
proof -
  assume ab: "quiet a b" and bc: "quiet b c"
  then obtain m n where mn: "trace b = m @ trace a" "\<forall>e\<in>set m. \<not> is_write e"
      "trace c = n @ trace b" "\<forall>e\<in>set n. \<not> is_write e"
    by (auto simp: quiet_def)
  then have "trace c = (n @ m) @ trace a \<and> (\<forall>e\<in>set (n @ m). \<not> is_write e)" by auto
  with ab bc show ?thesis unfolding quiet_def by (intro conjI exI [of _ "n @ m"]) auto
qed

definition judgement :: "sec_event \<Rightarrow> (rstr \<times> (rstr \<times> rstr) list \<times> verdict) option" where
  "judgement e = (case e of Judged n vs v \<Rightarrow> Some (n, vs, v) | _ \<Rightarrow> None)"

text \<open>The most recent verdict of a run.\<close>

definition last_judged :: "sec_event list \<Rightarrow> (rstr \<times> (rstr \<times> rstr) list \<times> verdict) option" where
  "last_judged es = find_map judgement es"

lemma last_judged_simps [simp]:
  "last_judged [] = None"
  "last_judged (Published sn # es) = last_judged es"
  "last_judged (Judged n vs v # es) = Some (n, vs, v)"
  "last_judged (Wrote n vs # es) = last_judged es"
  "last_judged (Slept # es) = last_judged es"
  by (simp_all add: last_judged_def judgement_def)

lemma last_judgedD: "last_judged es = Some (n, vs, v) \<Longrightarrow> Judged n vs v \<in> set es"
  by (auto simp: last_judged_def judgement_def dest!: find_map_SomeD split: sec_event.splits)

text \<open>The three quiet steps as state changes, kept folded in the proofs.\<close>

definition published :: "(secrets_snapshot \<Rightarrow> secrets_snapshot) \<Rightarrow> sec_state \<Rightarrow> sec_state" where
  "published f s = s\<lparr>snap := f (snap s), trace := Published (f (snap s)) # trace s\<rparr>"

definition judged :: "rstr \<Rightarrow> (rstr \<times> rstr) list \<Rightarrow> verdict \<Rightarrow> sec_state \<Rightarrow> sec_state" where
  "judged n vs v s = s\<lparr>trace := Judged n vs v # trace s\<rparr>"

definition slept :: "nat \<Rightarrow> sec_state \<Rightarrow> sec_state" where
  "slept t s = s\<lparr>ticks := t, trace := Slept # trace s\<rparr>"

lemma wp_mutate [wp_simps]: "wp (mutate f) Q X s = Q () (published f s)"
  by (simp add: mutate_def wp_simps Let_def published_def)

lemma step_simps [simp]:
  "files (published f s) = files s" "fs_seen (published f s) = fs_seen s"
  "inbox (published f s) = inbox s" "ticks (published f s) = ticks s"
  "last_judged (trace (published f s)) = last_judged (trace s)"
  "files (judged n vs v s) = files s" "fs_seen (judged n vs v s) = fs_seen s"
  "inbox (judged n vs v s) = inbox s" "ticks (judged n vs v s) = ticks s"
  "last_judged (trace (judged n vs v s)) = Some (n, vs, v)"
  "files (slept t s) = files s" "fs_seen (slept t s) = fs_seen s"
  "inbox (slept t s) = inbox s" "ticks (slept t s) = t"
  by (simp_all add: published_def judged_def slept_def)

lemma quiet_published [simp]: "quiet s0 s \<Longrightarrow> quiet s0 (published f s)"
  by (auto simp: quiet_def published_def)

lemma quiet_judged [simp]: "quiet s0 s \<Longrightarrow> quiet s0 (judged n vs v s)"
  by (auto simp: quiet_def judged_def)

lemma quiet_slept [simp]: "quiet s0 s \<Longrightarrow> quiet s0 (slept t s)"
  by (auto simp: quiet_def slept_def)

lemma quiet_prompt_id [simp]: "quiet s0 s \<Longrightarrow> quiet s0 (s\<lparr>next_prompt_id := k\<rparr>)"
  by (auto simp: quiet_def)

lemma quiet_inbox [simp]: "quiet s0 s \<Longrightarrow> length ms \<le> length (inbox s) \<Longrightarrow> quiet s0 (s\<lparr>inbox := ms\<rparr>)"
  by (auto simp: quiet_def)

end
