(* ===== verification/Secrets_Session.thy ===== *)
theory Secrets_Session
  imports Secrets_Safety
begin

text \<open>
  The two sessions of operator-secretsd: what the prompt and the validator loops return, that
  their loops over the message queue never run out, and from these the guarantees of a whole
  run.  Every lemma follows one program by its weakest precondition.
\<close>

section \<open>Prompting\<close>

lemma wp_wait_for_submission:
  assumes "quiet s0 s"
  shows "wp (wait_for_submission i)
     (\<lambda>vs s'. quiet s0 s' \<and> length (inbox s') < length (inbox s) \<and> Submit i vs \<in> set (inbox s))
     (quiet s0) s"
proof (cases "take_answer (answers_prompt i) (inbox s)")
  case None
  with assms show ?thesis by (simp add: wp_def wait_for_submission_def)
next
  case (Some p)
  obtain vs rest where p: "p = (vs, rest)" by (cases p)
  obtain pre m where m: "inbox s = pre @ m # rest" "answers_prompt i m = Some vs"
    using take_answer_SomeD [OF Some [unfolded p]] by blast
  then have "m = Submit i vs"
    by (auto simp: answers_prompt_def split: secret_msg.splits if_splits)
  with m assms Some p show ?thesis by (simp add: wp_def wait_for_submission_def)
qed

lemma wp_fresh_prompt_id [wp_simps]:
  "wp fresh_prompt_id Q X s = Q (Suc (next_prompt_id s)) (s\<lparr>next_prompt_id := Suc (next_prompt_id s)\<rparr>)"
  by (simp add: wp_def fresh_prompt_id_def)

lemma wp_post_form:
  assumes "quiet s0 s"
  shows "wp (post_form spec reason known)
     (\<lambda>vs s'. quiet s0 s' \<and> length (inbox s') < length (inbox s)) (quiet s0) s"
  unfolding post_form_def
  by (simp only: wp_bnd wp_fresh_prompt_id wp_mutate wp_ret)
     (rule wp_mono [OF wp_wait_for_submission]; simp add: assms wp_simps)

lemma wp_ask_loop:
  assumes "quiet s0 s"
  shows "wp (ask_loop n spec reason known)
     (\<lambda>vals s'. quiet s0 s' \<and> length (inbox s') < length (inbox s) \<and>
                (\<exists>vs. accept_submission spec vs = Inr vals)) (quiet s0) s"
  using assms
proof (induction n arbitrary: s reason known)
  case 0
  then show ?case by (simp add: wp_simps)
next
  case (Suc n)
  show ?case
  proof (simp only: ask_loop.simps, rule wp_bnd [THEN iffD2], rule wp_mono [OF wp_post_form [OF Suc.prems]])
    fix vs s1
    assume s1: "quiet s0 s1 \<and> length (inbox s1) < length (inbox s)"
    show "wp (case accept_submission spec vs of
          Inl e \<Rightarrow> bnd (ui_state ''prompt''
                 (Fmt ''{}: submission rejected: {}'' [Str (sname spec), e])) (\<lambda>_.
               ask_loop n spec (Fmt ''rejected: {}'' [e]) (keep_plain spec vs))
        | Inr v \<Rightarrow> ret v)
       (\<lambda>vals s'. quiet s0 s' \<and> length (inbox s') < length (inbox s) \<and>
                (\<exists>vs. accept_submission spec vs = Inr vals)) (quiet s0) s1"
    proof (cases "accept_submission spec vs")
      case (Inr v)
      with s1 show ?thesis by (auto simp: wp_simps)
    next
      case (Inl e)
      show ?thesis
        by (simp add: Inl ui_state_def wp_bnd wp_mutate)
           (rule wp_mono [OF Suc.IH], use s1 in auto)
    qed
  qed
qed

lemma wp_ask:
  "quiet s0 s \<Longrightarrow> wp (ask spec reason known)
     (\<lambda>vals s'. quiet s0 s' \<and> length (inbox s') < length (inbox s) \<and>
                (\<exists>vs. accept_submission spec vs = Inr vals)) (quiet s0) s"
  using wp_ask_loop [of s0 s "Suc (length (inbox s))" spec reason known]
  by (simp add: ask_def wp_def)

subsection \<open>Enough turns\<close>

text \<open>
  Every turn takes a message from the queue, so the bound of \<open>ask\<close> is never what ends it:
  with more turns the outcome is the same.
\<close>

lemma ask_loop_enough:
  fixes s :: sec_state
  shows "length (inbox s) < n \<Longrightarrow> length (inbox s) < m \<Longrightarrow>
   ask_loop n spec reason known s = ask_loop m spec reason known s"
proof (induction n arbitrary: m s reason known)
  case 0
  then show ?case by simp
next
  case (Suc n)
  then obtain k where m: "m = Suc k" by (cases m) auto
  have post: "wp (post_form spec reason known)
      (\<lambda>_ s'. length (inbox s') < length (inbox s)) (\<lambda>_. True) s"
    by (rule wp_mono [OF wp_post_form [OF quiet_refl]]) auto
  show ?case
    unfolding m ask_loop.simps
  proof (rule bnd_cong_wp [OF post])
    fix vs and s1 :: sec_state
    assume less: "length (inbox s1) < length (inbox s)"
    have ih: "ask_loop n spec r kn s2 = ask_loop k spec r kn s2"
      if "length (inbox s2) \<le> length (inbox s1)" for r kn s2
      by (rule Suc.IH) (use Suc.prems less that m in auto)
    show "(case accept_submission spec vs of
          Inl e \<Rightarrow> bnd (ui_state ''prompt''
                 (Fmt ''{}: submission rejected: {}'' [Str (sname spec), e])) (\<lambda>_.
               ask_loop n spec (Fmt ''rejected: {}'' [e]) (keep_plain spec vs))
        | Inr v \<Rightarrow> ret v) s1 =
       (case accept_submission spec vs of
          Inl e \<Rightarrow> bnd (ui_state ''prompt''
                 (Fmt ''{}: submission rejected: {}'' [Str (sname spec), e])) (\<lambda>_.
               ask_loop k spec (Fmt ''rejected: {}'' [e]) (keep_plain spec vs))
        | Inr v \<Rightarrow> ret v) s1"
      by (cases "accept_submission spec vs")
         (auto intro!: bnd_cong_wp [where R = "\<lambda>_ s2. length (inbox s2) \<le> length (inbox s1)"] ih
           simp: ui_state_def wp_mutate)
  qed
qed

section \<open>Deciding\<close>

lemma wp_validate [wp_simps]:
  "wp (validate E spec vals) Q X s =
     Q (judge E (length (trace s)) spec vals)
       (judged (sname spec) vals (judge E (length (trace s)) spec vals) s)"
  by (simp add: wp_def validate_def Let_def judged_def)

lemma wp_sleep_retry:
  "wp sleep_retry Q X s =
     (case ticks s of 0 \<Rightarrow> X s | Suc n \<Rightarrow> Q () (slept n s))"
  by (simp add: wp_def sleep_retry_def slept_def split: nat.splits)

lemmas publish_defs = ui_state_def set_secret_def ui_blocked_def

lemma wp_decide_loop:
  assumes "quiet s0 s"
  shows "wp (decide_loop n E spec vals what k)
     (\<lambda>v s'. quiet s0 s' \<and> v_status v \<noteq> Error \<and> last_judged (trace s') = Some (sname spec, vals, v))
     (quiet s0) s"
  using assms
proof (induction n arbitrary: s k)
  case 0
  then show ?case
    by (subst decide_loop.simps) (auto simp: publish_defs wp_bnd wp_mutate wp_validate
        wp_sleep_retry wp_ret wp_wait split: nat.splits)
next
  case (Suc n)
  show ?case
    by (subst decide_loop.simps)
       (use Suc.prems in \<open>auto simp: publish_defs wp_bnd wp_mutate wp_validate wp_sleep_retry wp_ret
          split: nat.splits intro!: Suc.IH\<close>)
qed

lemma wp_validate_until_decided:
  "quiet s0 s \<Longrightarrow> wp (validate_until_decided E spec vals what)
     (\<lambda>v s'. quiet s0 s' \<and> v_status v \<noteq> Error \<and> last_judged (trace s') = Some (sname spec, vals, v))
     (quiet s0) s"
  using wp_decide_loop [of s0 s "ticks s" E spec vals what 1]
  by (simp add: validate_until_decided_def wp_def)

section \<open>What a run may do to a secret's file\<close>

text \<open>
  \<open>vetted\<close>: the file holds values that this run's trace judged valid, with the owner and mode
  the specification asks for.  \<open>guarded\<close> compares two states of a run: the trace grew, and
  every file system in between has at the secret's path what was there before or a vetted
  file, and differs elsewhere at most at the temporary file.
\<close>

definition vetted :: "secret_spec \<Rightarrow> nat \<times> nat \<Rightarrow> sec_event list \<Rightarrow> disk_file option \<Rightarrow> bool" where
  "vetted spec ids es x \<longleftrightarrow> (\<exists>vals v md vs.
     Judged (sname spec) vals v \<in> set es \<and> v_status v = Valid \<and>
     accept_submission spec vs = Inr vals \<and>
     parse_mode (smode spec) = Some md \<and> x = Some (written_file spec ids md vals))"

definition guarded_fs :: "sec_env \<Rightarrow> secret_spec \<Rightarrow> nat \<times> nat \<Rightarrow> sec_event list \<Rightarrow> fs \<Rightarrow> fs \<Rightarrow> bool" where
  "guarded_fs E spec ids es m0 m \<longleftrightarrow>
     (m (spath spec) = m0 (spath spec) \<or> vetted spec ids es (m (spath spec))) \<and>
     (\<forall>q. q \<noteq> spath spec \<and> q \<noteq> tmp_path E spec \<longrightarrow> m q = m0 q)"

definition guarded :: "sec_env \<Rightarrow> secret_spec \<Rightarrow> nat \<times> nat \<Rightarrow> sec_state \<Rightarrow> sec_state \<Rightarrow> bool" where
  "guarded E spec ids s s' \<longleftrightarrow>
     (\<exists>es. trace s' = es @ trace s) \<and> length (inbox s') \<le> length (inbox s) \<and>
     (\<exists>new. files s' # fs_seen s' = new @ files s # fs_seen s \<and>
            (\<forall>m\<in>set new. guarded_fs E spec ids (trace s') (files s) m)) \<and>
     guarded_fs E spec ids (trace s') (files s) (files s')"

lemma vetted_mono: "vetted spec ids es x \<Longrightarrow> set es \<subseteq> set es' \<Longrightarrow> vetted spec ids es' x"
  unfolding vetted_def by blast

lemma guarded_fs_mono:
  "guarded_fs E spec ids es m0 m \<Longrightarrow> set es \<subseteq> set es' \<Longrightarrow> guarded_fs E spec ids es' m0 m"
  by (auto simp: guarded_fs_def intro: vetted_mono)

lemma guarded_fs_refl [simp]: "guarded_fs E spec ids es m m"
  by (simp add: guarded_fs_def)

lemma guarded_refl [simp]: "guarded E spec ids s s"
  by (simp add: guarded_def)

lemma guarded_quiet: "guarded E spec ids s0 s1 \<Longrightarrow> quiet s1 s2 \<Longrightarrow> guarded E spec ids s0 s2"
proof -
  assume g: "guarded E spec ids s0 s1" and q: "quiet s1 s2"
  then obtain es new where "trace s1 = es @ trace s0"
      and new: "files s1 # fs_seen s1 = new @ files s0 # fs_seen s0"
        "\<forall>m\<in>set new. guarded_fs E spec ids (trace s1) (files s0) m"
    by (auto simp: guarded_def)
  moreover have sub: "set (trace s1) \<subseteq> set (trace s2)" and "files s2 = files s1" "fs_seen s2 = fs_seen s1"
    using q by (auto simp: quiet_def)
  moreover have "guarded_fs E spec ids (trace s1) (files s0) (files s1)"
    using g by (simp add: guarded_def)
  ultimately show ?thesis
    using g q unfolding guarded_def quiet_def
    by (intro conjI exI [of _ new]) (auto intro: guarded_fs_mono [OF _ sub])
qed

lemma quiet_guarded: "quiet s0 s1 \<Longrightarrow> guarded E spec ids s0 s1"
  by (rule guarded_quiet [OF guarded_refl])

text \<open>The write is allowed when its values have been judged valid.\<close>

lemma wp_write_secret:
  assumes q: "quiet s0 s" and acc: "accept_submission spec vs = Inr vals"
    and last: "last_judged (trace s) = Some (sname spec, vals, v)" and v: "v_status v = Valid"
  shows "wp (write_secret E spec ids vals)
     (\<lambda>_ s'. guarded E spec ids s0 s' \<and> last_judged (trace s') = Some (sname spec, vals, v) \<and>
        (\<exists>md. parse_mode (smode spec) = Some md \<and>
              files s' (spath spec) = Some (written_file spec ids md vals)))
     (\<lambda>s'. guarded E spec ids s0 s' \<and> files s' (spath spec) = files s0 (spath spec)) s"
proof (cases "parse_mode (smode spec)")
  case None
  have "guarded E spec ids s0 s'" if "tracks (\<lambda>m. m = files s) s s'" "files s' = files s" for s'
    using that q by (auto simp: guarded_def tracks_def quiet_def)
  then show ?thesis
    using q by (intro wp_mono [OF write_secret_no_mode [OF None]]) (auto simp: quiet_def)
next
  case (Some md)
  let ?P = "write_ok E (files s) spec (written_file spec ids md vals)"
  have fs0: "files s = files s0" "fs_seen s = fs_seen s0" using q by (auto simp: quiet_def)
  have V: "vetted spec ids es (Some (written_file spec ids md vals))"
    if "Judged (sname spec) vals v \<in> set es" for es
    using that Some acc v unfolding vetted_def by blast
  have P: "guarded_fs E spec ids es (files s0) m"
    if "?P m" "Judged (sname spec) vals v \<in> set es" for es m
    using that V [of es] by (auto simp: guarded_fs_def write_ok_def fs0)
  have J: "Judged (sname spec) vals v \<in> set (trace s)" using last by (rule last_judgedD)
  have g: "guarded E spec ids s0 s'"
    if "tracks ?P s s1" "fs_seen s' = fs_seen s1" "files s' = files s1" "inbox s' = inbox s"
      "trace s' = es @ trace s" for s1 s' es
  proof -
    have J': "Judged (sname spec) vals v \<in> set (trace s')" using J that(5) by simp
    have "\<exists>new. files s1 # fs_seen s1 = new @ files s # fs_seen s \<and> (\<forall>m\<in>set new. ?P m)"
      using that(1) by (simp add: tracks_def)
    then obtain new where new: "files s1 # fs_seen s1 = new @ files s # fs_seen s" "\<forall>m\<in>set new. ?P m"
      by blast
    then have "files s1 = files s0 \<or> ?P (files s1)" by (cases new) (auto simp: fs0)
    with new that q J' P show ?thesis
      unfolding guarded_def quiet_def by (auto simp: fs0 intro!: exI [of _ new])
  qed
  show ?thesis
  proof (rule wp_mono [OF write_secret_tracks [OF Some]])
    fix s'
    assume "tracks ?P s s' \<and> files s' (spath spec) = files s (spath spec)"
    then show "guarded E spec ids s0 s' \<and> files s' (spath spec) = files s0 (spath spec)"
      using g [of s' s' "[]"] by (auto simp: fs0 tracks_def)
  qed (use g [where es = "[Wrote (sname spec) vals]"] last Some in auto)
qed

section \<open>One secret\<close>

text \<open>
  \<open>satisfied\<close>: the file at the secret's path is complete, and the verdict this run gave on
  its values is that they are valid.
\<close>

definition satisfied :: "secret_spec \<Rightarrow> sec_event list \<Rightarrow> disk_file option \<Rightarrow> bool" where
  "satisfied spec es x \<longleftrightarrow> (\<exists>f vals v. x = Some f \<and>
     classify_stored spec (Some (parse_env_file (f_content f))) = Complete vals \<and>
     Judged (sname spec) vals v \<in> set es \<and> v_status v = Valid)"

lemma vetted_satisfied: "wf_secret spec \<Longrightarrow> vetted spec ids es x \<Longrightarrow> satisfied spec es x"
  by (auto simp: vetted_def satisfied_def written_file_def) (blast intro: accepted_is_complete)

lemma satisfied_mono: "satisfied spec es x \<Longrightarrow> set es \<subseteq> set es' \<Longrightarrow> satisfied spec es' x"
  unfolding satisfied_def by blast

lemma guarded_published [simp]: "guarded E spec ids s0 s \<Longrightarrow> guarded E spec ids s0 (published f s)"
  by (rule guarded_quiet [OF _ quiet_published [OF quiet_refl]])

lemma vetted_published [simp]:
  "vetted spec ids (trace s) x \<Longrightarrow> vetted spec ids (trace (published f s)) x"
  by (rule vetted_mono) (auto simp: published_def)

lemma satisfied_published [simp]:
  "satisfied spec (trace s) x \<Longrightarrow> satisfied spec (trace (published f s)) x"
  by (rule satisfied_mono) (auto simp: published_def)

lemma wp_context_err: "wp m Q X s \<Longrightarrow> wp (context_err c m) Q X s"
  unfolding context_err_def by (rule wp_map_err)

lemma wp_write_vetted:
  assumes "quiet s0 s" and "accept_submission spec vs = Inr vals"
    and "last_judged (trace s) = Some (sname spec, vals, v)" and "v_status v = Valid"
  shows "wp (write_secret E spec ids vals)
     (\<lambda>_ s'. guarded E spec ids s0 s' \<and> vetted spec ids (trace s') (files s' (spath spec)))
     (guarded E spec ids s0) s"
  by (rule wp_mono [OF wp_write_secret [OF assms]])
     (use assms in \<open>auto simp: vetted_def dest: last_judgedD\<close>)

lemma wp_prompt_loop:
  assumes "quiet s0 s"
  shows "wp (prompt_loop n E spec ids known reason)
     (\<lambda>_ s'. guarded E spec ids s0 s' \<and> vetted spec ids (trace s') (files s' (spath spec)))
     (guarded E spec ids s0) s"
  using assms
proof (induction n arbitrary: s known reason)
  case 0
  then show ?case by (simp add: wp_simps quiet_guarded)
next
  case (Suc n)
  have q: "quiet s0 (published f s)" for f using Suc.prems by simp
  show ?case
    unfolding prompt_loop.simps set_secret_def wp_bnd wp_mutate
  proof (rule wp_mono [OF wp_ask [OF q]], goal_cases accepted stopped)
    case (stopped s1)
    then show ?case by (rule quiet_guarded)
  next
    case (accepted vals s1)
    then obtain vs where q1: "quiet s0 s1" and acc: "accept_submission spec vs = Inr vals" by blast
    show ?case
    proof (rule wp_mono [OF wp_validate_until_decided [OF q1]], goal_cases decided stopped)
      case (stopped s2)
      then show ?case by (rule quiet_guarded)
    next
      case (decided v s2)
      show ?case
      proof (cases "v_status v")
        case Valid
        with decided have "last_judged (trace s2) = Some (sname spec, vals, v)" "quiet s0 s2" by auto
        note wr = wp_write_vetted [OF this(2) acc this(1) Valid]
        show ?thesis
          unfolding Valid validator_status.case wp_bnd
          by (rule wp_context_err, rule wp_mono [OF wr]) (simp_all add: wp_simps ui_state_def)
      next
        case Invalid
        then show ?thesis
          unfolding Let_def ui_state_def
          by (simp only: validator_status.case wp_bnd wp_mutate) (rule Suc.IH, use decided in simp)
      next
        case Error
        with decided show ?thesis by simp
      qed
    qed
  qed
qed

lemma wp_prompt_until_accepted:
  "quiet s0 s \<Longrightarrow> wp (prompt_until_accepted E spec ids known reason)
     (\<lambda>_ s'. guarded E spec ids s0 s' \<and> vetted spec ids (trace s') (files s' (spath spec)))
     (guarded E spec ids s0) s"
  using wp_prompt_loop [of s0 s "Suc (length (inbox s))"]
  by (simp add: prompt_until_accepted_def wp_def)

lemma wp_read_file [wp_simps]:
  "wp (read_file E p) Q X s = Q (case e_read_error E (length (trace s)) p of
      Some e \<Rightarrow> Inl e | None \<Rightarrow> Inr (map_option f_content (files s p))) s"
  by (simp add: read_file_def wp_gets)

lemma wp_satisfy:
  assumes "quiet s0 s" and wf: "wf_secret spec"
  shows "wp (satisfy E spec ids)
     (\<lambda>_ s'. guarded E spec ids s0 s' \<and> satisfied spec (trace s') (files s' (spath spec)))
     (guarded E spec ids s0) s"
proof -
  have ask: "wp (prompt_until_accepted E spec ids known reason)
     (\<lambda>_ s'. guarded E spec ids s0 s' \<and> satisfied spec (trace s') (files s' (spath spec)))
     (guarded E spec ids s0) s1" if "quiet s0 s1" for s1 known reason
    by (rule wp_mono [OF wp_prompt_until_accepted [OF that]])
       (auto intro: vetted_satisfied [OF wf])
  let ?x = "files s (spath spec)"
  let ?c = "classify_stored spec (map_option (\<lambda>f. parse_env_file (f_content f)) ?x)"
  have q: "quiet s0 (published f (published g s))" for f g using assms(1) by simp
  let ?n = "length (trace s)"
  note start = satisfy_def set_secret_def ui_state_def wp_bnd wp_mutate wp_read_file
  show ?thesis
  proof (cases "e_read_error E (Suc (Suc ?n)) (spath spec)")
    case (Some e)
    then have read: "e_read_error E (length (trace (published f (published g s)))) (spath spec) = Some e" for f g
      by (simp add: published_def)
    show ?thesis by (simp add: start read wp_fail quiet_guarded q)
  next
    case None
    then have read: "e_read_error E (length (trace (published f (published g s)))) (spath spec) = None" for f g
      by (simp add: published_def)
    show ?thesis
    proof (cases ?c)
      case Absent
      then show ?thesis by (simp add: start read option.map_comp comp_def ask q)
    next
      case (Incomplete r usable)
      then show ?thesis by (simp add: start read option.map_comp comp_def ask q)
    next
      case (Complete vals)
      then obtain f where f: "?x = Some f"
          "classify_stored spec (Some (parse_env_file (f_content f))) = Complete vals"
        by (cases ?x) (auto simp: classify_stored_def)
      show ?thesis
        apply (simp add: start read option.map_comp comp_def Complete)
      proof (rule wp_mono [OF wp_validate_until_decided [OF q]], goal_cases decided stopped)
        case (stopped s2)
        then show ?case by (rule quiet_guarded)
      next
        case (decided v s2)
        have "files s2 = files s" using decided assms(1) by (auto simp: quiet_def)
        with f decided have sat: "v_status v = Valid \<Longrightarrow> satisfied spec (trace s2) (files s2 (spath spec))"
          by (auto simp: satisfied_def dest: last_judgedD)
        show ?case
          by (cases "v_status v")
             (use decided sat in \<open>auto simp: set_secret_def ui_state_def wp_bnd wp_mutate wp_fail
                Let_def ask quiet_guarded\<close>)
      qed
    qed
  qed
qed

section \<open>All secrets\<close>

text \<open>
  \<open>protected\<close> is what survives of \<open>guarded\<close> when the daemon goes on with other secrets: it is
  transitive, and a run for one secret protects every secret with another path.
\<close>

definition protected :: "secret_spec \<Rightarrow> nat \<times> nat \<Rightarrow> sec_state \<Rightarrow> sec_state \<Rightarrow> bool" where
  "protected spec ids s s' \<longleftrightarrow> set (trace s) \<subseteq> set (trace s') \<and>
     (\<exists>new. files s' # fs_seen s' = new @ files s # fs_seen s \<and>
        (\<forall>m\<in>set new. m (spath spec) = files s (spath spec) \<or>
                      vetted spec ids (trace s') (m (spath spec))))"

definition separate :: "sec_env \<Rightarrow> (secret_spec \<times> (nat \<times> nat)) list \<Rightarrow> bool" where
  "separate E jobs \<longleftrightarrow> distinct (map (\<lambda>(s, _). spath s) jobs) \<and>
     (\<forall>(a, _)\<in>set jobs. \<forall>(b, _)\<in>set jobs. tmp_path E a \<noteq> spath b)"

lemma protected_now: "protected spec ids s s' \<Longrightarrow>
   files s' (spath spec) = files s (spath spec) \<or> vetted spec ids (trace s') (files s' (spath spec))"
proof -
  assume "protected spec ids s s'"
  then obtain new where "files s' # fs_seen s' = new @ files s # fs_seen s"
      "\<forall>m\<in>set new. m (spath spec) = files s (spath spec) \<or> vetted spec ids (trace s') (m (spath spec))"
    by (auto simp: protected_def)
  then show ?thesis by (cases new) auto
qed

lemma protected_refl [simp]: "protected spec ids s s"
  by (simp add: protected_def)

lemma protected_trans:
  assumes ab: "protected spec ids a b" and bc: "protected spec ids b c"
  shows "protected spec ids a c"
proof -
  let ?p = "spath spec"
  have sub: "set (trace a) \<subseteq> set (trace b)" "set (trace b) \<subseteq> set (trace c)"
    using assms by (auto simp: protected_def)
  obtain m where m: "files b # fs_seen b = m @ files a # fs_seen a"
      "\<forall>x\<in>set m. x ?p = files a ?p \<or> vetted spec ids (trace b) (x ?p)"
    using ab by (auto simp: protected_def)
  obtain n where n: "files c # fs_seen c = n @ files b # fs_seen b"
      "\<forall>x\<in>set n. x ?p = files b ?p \<or> vetted spec ids (trace c) (x ?p)"
    using bc by (auto simp: protected_def)
  have "files b ?p = files a ?p \<or> vetted spec ids (trace c) (files b ?p)"
    using protected_now [OF ab] vetted_mono [OF _ sub(2)] by blast
  moreover have "\<forall>x\<in>set m. x ?p = files a ?p \<or> vetted spec ids (trace c) (x ?p)"
    using m(2) vetted_mono [OF _ sub(2)] by blast
  ultimately have "\<forall>x\<in>set (n @ m). x ?p = files a ?p \<or> vetted spec ids (trace c) (x ?p)"
    using n(2) by fastforce
  with m(1) n(1) sub show ?thesis
    unfolding protected_def by (intro conjI exI [of _ "n @ m"]) auto
qed

lemma guarded_protected:
  assumes "guarded E spec ids s s'" and "(spec, ids) = (spec', ids') \<or>
     (spath spec' \<noteq> spath spec \<and> spath spec' \<noteq> tmp_path E spec)"
  shows "protected spec' ids' s s'"
proof -
  obtain new where "files s' # fs_seen s' = new @ files s # fs_seen s"
      "\<forall>m\<in>set new. guarded_fs E spec ids (trace s') (files s) m"
    using assms(1) by (auto simp: guarded_def)
  with assms show ?thesis
    unfolding protected_def guarded_def guarded_fs_def
    by (intro conjI exI [of _ new]) auto
qed

lemma separateD:
  assumes "separate E jobs" "(a, i) \<in> set jobs" "(b, j) \<in> set jobs"
  shows "(a, i) = (b, j) \<or> (spath b \<noteq> spath a \<and> spath b \<noteq> tmp_path E a)"
proof -
  have "inj_on (\<lambda>(s, _). spath s) (set jobs)" using assms(1) by (simp add: separate_def distinct_map)
  with assms show ?thesis
    by (force simp: separate_def dest: inj_onD [where x = "(a, i)" and y = "(b, j)"])
qed

lemma wp_each_satisfy:
  assumes sep: "separate E jobs" and wf: "\<forall>(s, _)\<in>set jobs. wf_secret s"
    and "set todo \<subseteq> set jobs"
    and "\<forall>(a, i)\<in>set jobs. protected a i s0 s"
    and "\<forall>(a, i)\<in>set jobs - set todo. satisfied a (trace s) (files s (spath a))"
  shows "wp (each (\<lambda>(s, ids). satisfy E s ids) todo)
     (\<lambda>_ s'. \<forall>(a, i)\<in>set jobs. protected a i s0 s' \<and> satisfied a (trace s') (files s' (spath a)))
     (\<lambda>s'. \<forall>(a, i)\<in>set jobs. protected a i s0 s') s"
  using assms(3-5)
proof (induction todo arbitrary: s)
  case Nil
  then show ?case by (auto simp: wp_ret)
next
  case (Cons job todo)
  obtain a i where job: "job = (a, i)" by (cases job)
  have aj: "(a, i) \<in> set jobs" using Cons.prems(1) job by simp
  have prot: "protected b j s0 s1" if "guarded E a i s s1" "(b, j) \<in> set jobs" for b j s1
    using that Cons.prems(2) guarded_protected [OF that(1) separateD [OF sep aj that(2)]]
    by (auto intro: protected_trans)
  have keep: "satisfied b (trace s1) (files s1 (spath b))"
    if g: "guarded E a i s s1" and sat: "satisfied a (trace s1) (files s1 (spath a))"
      and b: "(b, j) \<in> set jobs - set todo" for b j s1
  proof (cases "(b, j) = (a, i)")
    case True
    with sat show ?thesis by simp
  next
    case False
    with separateD [OF sep aj, of b j] b have "spath b \<noteq> spath a" "spath b \<noteq> tmp_path E a" by auto
    with g have "files s1 (spath b) = files s (spath b)" by (auto simp: guarded_def guarded_fs_def)
    moreover have "satisfied b (trace s) (files s (spath b))"
      using b False Cons.prems(3) job by auto
    moreover have "set (trace s) \<subseteq> set (trace s1)" using g by (auto simp: guarded_def)
    ultimately show ?thesis by (auto intro: satisfied_mono)
  qed
  have "wf_secret a" using wf aj by auto
  then show ?case
    unfolding job each.simps wp_bnd prod.case
  proof (rule wp_mono [OF wp_satisfy [OF quiet_refl]], goal_cases finished stopped)
    case (finished u s1)
    then show ?case
      by (intro Cons.IH) (use Cons.prems(1) prot keep in auto)
  next
    case (stopped s1)
    with prot show ?case by auto
  qed
qed

lemma guarded_trans_quiet_protected:
  "quiet s0 s \<Longrightarrow> protected spec ids s0 s"
  unfolding quiet_def protected_def by (intro conjI exI [of _ "[]"]) auto

lemma protected_published [simp]: "protected spec ids s0 s \<Longrightarrow> protected spec ids s0 (published f s)"
  by (erule protected_trans) (simp add: guarded_trans_quiet_protected)

lemma wp_finish [wp_simps]: "wp (finish m) Q X s = Q ()
    (published (\<lambda>sn. sn\<lparr>ss_phase := ''done'', ss_message := m\<rparr>)
      (published (\<lambda>sn. sn\<lparr>ss_done := True, ss_blocked := False, ss_prompt := None\<rparr>) s))"
  by (simp add: finish_def ui_state_def wp_bnd wp_mutate)

lemma wp_boot_session:
  assumes "separate E jobs" and "\<forall>(s, _)\<in>set jobs. wf_secret s"
  shows "wp (boot_session E jobs)
     (\<lambda>_ s'. \<forall>(a, i)\<in>set jobs. protected a i s s' \<and> satisfied a (trace s') (files s' (spath a)))
     (\<lambda>s'. \<forall>(a, i)\<in>set jobs. protected a i s s') s"
  unfolding boot_session_def wp_bnd
  by (rule wp_mono [OF wp_each_satisfy [OF assms]]) (auto simp: wp_finish split: prod.splits)

lemma wp_stored_file:
  "(\<And>r. Q r s) \<Longrightarrow> wp (stored_file E spec) Q X s"
  by (simp add: stored_file_def wp_simps)

lemma wp_each:
  "I s \<Longrightarrow> (\<And>x s. I s \<Longrightarrow> wp (f x) (\<lambda>_. I) I s) \<Longrightarrow> wp (each f xs) (\<lambda>_. I) I s"
  by (induction xs arbitrary: s) (auto simp: wp_simps intro: wp_mono)

lemma wp_show_stored:
  assumes "quiet s0 s \<and> inbox s = ms"
  shows "wp (show_stored E spec) (\<lambda>_ s'. quiet s0 s' \<and> inbox s' = ms)
           (\<lambda>s'. quiet s0 s' \<and> inbox s' = ms) s"
  unfolding show_stored_def wp_bnd
  by (rule wp_stored_file) (use assms in \<open>auto simp: set_secret_def wp_mutate split: stored_state.splits\<close>)

lemma wp_wait_for_choice:
  assumes "quiet s0 s"
  shows "wp wait_for_choice (\<lambda>n s'. quiet s0 s' \<and> Edit n \<in> set (inbox s)) (quiet s0) s"
proof (cases "take_answer (\<lambda>m. case m of Edit n \<Rightarrow> Some n | Submit _ _ \<Rightarrow> None) (inbox s)")
  case None
  with assms show ?thesis by (simp add: wp_def wait_for_choice_def)
next
  case (Some p)
  obtain n rest where p: "p = (n, rest)" by (cases p)
  obtain pre m where "inbox s = pre @ m # rest"
      "(case m of Edit n \<Rightarrow> Some n | Submit _ _ \<Rightarrow> None) = Some n"
    using take_answer_SomeD [OF Some [unfolded p]] by blast
  with assms Some p show ?thesis
    by (auto simp: wp_def wait_for_choice_def split: secret_msg.splits)
qed

lemma wp_edit_session:
  "wp (edit_session E jobs)
     (\<lambda>_ s'. \<exists>(a, i)\<in>set jobs. Edit (sname a) \<in> set (inbox s) \<and> guarded E a i s s' \<and>
        vetted a i (trace s') (files s' (spath a)))
     (\<lambda>s'. quiet s s' \<or> (\<exists>(a, i)\<in>set jobs. Edit (sname a) \<in> set (inbox s) \<and> guarded E a i s s')) s"
proof -
  let ?Q = "\<lambda>_ s'. \<exists>(a, i)\<in>set jobs. Edit (sname a) \<in> set (inbox s) \<and> guarded E a i s s' \<and>
        vetted a i (trace s') (files s' (spath a))"
  let ?X = "\<lambda>s'. quiet s s' \<or> (\<exists>(a, i)\<in>set jobs. Edit (sname a) \<in> set (inbox s) \<and> guarded E a i s s')"
  have all: "wp (each (\<lambda>(s, _). show_stored E s) jobs)
      (\<lambda>_ s'. quiet s s' \<and> inbox s' = inbox s) (\<lambda>s'. quiet s s' \<and> inbox s' = inbox s) s"
    by (rule wp_each) (auto simp: wp_show_stored)
  show ?thesis
    unfolding edit_session_def wp_bnd wp_mutate ui_state_def
  proof (rule wp_mono [OF all], goal_cases shown stopped)
    case (stopped s1)
    then show ?case by simp
  next
    case (shown u s1)
    then have q1: "quiet s (published f (published g s1))" for f g by simp
    show ?case
    proof (rule wp_mono [OF wp_wait_for_choice [OF q1]], goal_cases chosen stopped)
      case (stopped s2)
      then show ?case by simp
    next
      case (chosen n s2)
      with shown have q2: "quiet s (published f s2)" and n: "Edit n \<in> set (inbox s)" for f by auto
      show ?case
      proof (cases "find (\<lambda>(s, _). sname s = n) jobs")
        case None
        with q2 show ?thesis by (simp add: wp_fail)
      next
        case (Some job)
        obtain a i where job: "job = (a, i)" by (cases job)
        with Some have ai: "(a, i) \<in> set jobs" "sname a = n" by (auto dest: find_SomeD)
        have go: "wp (prompt_until_accepted E a i known reason)
             (\<lambda>_ s'. guarded E a i s s' \<and> vetted a i (trace s') (files s' (spath a)))
             (guarded E a i s) (published f (published g s2))" for known reason f g
          using q2 by (intro wp_prompt_until_accepted) simp
        show ?thesis
          unfolding Some job option.case prod.case wp_bnd Let_def wp_mutate
          by (rule wp_stored_file, rule wp_mono [OF go])
             (use ai n in \<open>auto simp: wp_finish intro!: bexI [of _ "(a, i)"]\<close>)
      qed
    qed
  qed
qed

end
