(* ===== verification/Secrets_Invariant.thy ===== *)
theory Secrets_Invariant
  imports Secrets_Daemon
begin

text \<open>
  Invariants of a whole session.  A property that the single steps of the daemon keep (showing
  something, posting a form, taking a choice, sleeping, a file-system call, a validation, noting
  a write) is kept by every composed operation and by both sessions, however they end.
\<close>

locale session_invariant =
  fixes I :: "sec_state \<Rightarrow> bool"
    and E :: sec_env
    and declared :: "secret_spec \<Rightarrow> bool"
  assumes shows_state: "keeps I (ui_state ph m)"
    and shows_secret: "keeps I (set_secret n st d)"
    and shows_blocked: "keeps I (ui_blocked b)"
    and shows_done: "keeps I (mutate (\<lambda>sn. sn\<lparr>ss_done := True, ss_blocked := False, ss_prompt := None\<rparr>))"
    and shows_choosing: "keeps I (mutate (\<lambda>sn. sn\<lparr>ss_choosing := b\<rparr>))"
    and shows_list: "keeps I (mutate (\<lambda>sn. sn\<lparr>ss_secrets := l\<rparr>))"
    and posts: "keeps I (post_form spec reason known)"
    and chooses: "keeps I wait_for_choice"
    and sleeps: "keeps I sleep_retry"
    and calls: "keeps I (do_fs E c)"
    and notes_write: "keeps I (log_event (Wrote n vals))"
    and validates: "declared spec \<Longrightarrow> keeps I (validate E spec vals)"
begin

lemmas steps = shows_state shows_secret shows_blocked shows_done shows_choosing shows_list posts
  chooses sleeps calls notes_write

lemma finishes: "keeps I (finish m)"
  unfolding finish_def by (intro keeps_intros steps)

lemma reads: "keeps I (read_file E p)" "keeps I (stored_file E spec)"
  by (auto simp: read_file_def stored_file_def intro!: keeps_intros)

lemma asks: "keeps I (ask spec reason known)"
proof -
  have "keeps I (ask_loop n spec reason known)" for n
    by (induction n arbitrary: reason known) (auto intro!: keeps_intros steps split: sum.split)
  then show ?thesis by (simp add: ask_def keeps_def del: ask_loop.simps)
qed

lemma writes: "keeps I (write_secret E spec ids vals)"
  unfolding write_secret_def context_err_def or_cleanup_def Let_def
  by (auto intro!: keeps_intros steps)

lemma decides:
  assumes "declared spec"
  shows "keeps I (validate_until_decided E spec vals what)"
proof -
  have "keeps I (decide_loop n E spec vals what k)" for n k
    by (induction n arbitrary: k)
       (subst decide_loop.simps, auto intro!: keeps_intros steps validates [OF assms])+
  then show ?thesis by (simp add: validate_until_decided_def keeps_def)
qed

lemma prompts:
  assumes "declared spec"
  shows "keeps I (prompt_until_accepted E spec ids known reason)"
proof -
  have "keeps I (prompt_loop n E spec ids known reason)" for n
    by (induction n arbitrary: known reason)
       (auto simp: context_err_def Let_def intro!: keeps_intros steps asks writes decides [OF assms]
          split: validator_status.split)
  then show ?thesis by (simp add: prompt_until_accepted_def keeps_def del: prompt_loop.simps)
qed

lemma satisfies:
  assumes "declared spec"
  shows "keeps I (satisfy E spec ids)"
  unfolding satisfy_def Let_def
  by (auto intro!: keeps_intros steps reads prompts decides assms
      split: stored_state.split validator_status.split)

lemma boots: "\<forall>(s, ids)\<in>set jobs. declared s \<Longrightarrow> keeps I (boot_session E jobs)"
  unfolding boot_session_def by (auto intro!: keeps_intros finishes satisfies)

lemma shows_stored: "keeps I (show_stored E spec)"
  unfolding show_stored_def by (auto intro!: keeps_intros steps reads split: stored_state.split)

lemma edits: "\<forall>(s, ids)\<in>set jobs. declared s \<Longrightarrow> keeps I (edit_session E jobs)"
  unfolding edit_session_def Let_def
  by (auto intro!: keeps_intros steps reads finishes prompts shows_stored dest: find_SomeD)

lemma runs: "\<forall>(s, ids)\<in>set jobs. declared s \<Longrightarrow> keeps I (run_sessions E edit jobs)"
  unfolding run_sessions_def by (auto intro!: keeps_intros steps boots edits)

end

end
