(* ===== verification/Secrets_Privacy.thy ===== *)
theory Secrets_Privacy
  imports Secrets_Session Secrets_Invariant
begin

text \<open>
  What leaves operator-secretsd: no snapshot the daemon ever publishes carries a value in a
  sensitive field of its form, and the diagnostics of a failed validator run hold none of the
  values once they are redacted.
\<close>

section \<open>Published forms\<close>

definition form_blank :: "secret_prompt \<Rightarrow> bool" where
  "form_blank p \<longleftrightarrow> (\<forall>f\<in>set (pr_fields p). pf_sensitive f \<longrightarrow> pf_value f = [])"

definition snapshot_blank :: "secrets_snapshot \<Rightarrow> bool" where
  "snapshot_blank sn \<longleftrightarrow> (case ss_prompt sn of None \<Rightarrow> True | Some p \<Rightarrow> form_blank p)"

definition blank :: "sec_state \<Rightarrow> bool" where
  "blank s \<longleftrightarrow> snapshot_blank (snap s) \<and>
     (\<forall>e\<in>set (trace s). case e of Published sn \<Rightarrow> snapshot_blank sn | _ \<Rightarrow> True)"

lemma keeps_mutate:
  assumes "\<And>sn. snapshot_blank sn \<Longrightarrow> snapshot_blank (f sn)"
  shows "keeps blank (mutate f)"
  using assms by (auto simp: keeps_def mutate_def update_state_def blank_def Let_def)

lemma snapshot_blank_simps [simp]:
  "snapshot_blank (sn\<lparr>ss_phase := a\<rparr>) = snapshot_blank sn"
  "snapshot_blank (sn\<lparr>ss_message := b\<rparr>) = snapshot_blank sn"
  "snapshot_blank (sn\<lparr>ss_blocked := c\<rparr>) = snapshot_blank sn"
  "snapshot_blank (sn\<lparr>ss_secrets := d\<rparr>) = snapshot_blank sn"
  "snapshot_blank (sn\<lparr>ss_done := c\<rparr>) = snapshot_blank sn"
  "snapshot_blank (sn\<lparr>ss_choosing := c\<rparr>) = snapshot_blank sn"
  "snapshot_blank (sn\<lparr>ss_prompt := None\<rparr>)"
  "snapshot_blank (sn\<lparr>ss_prompt := Some p\<rparr>) = form_blank p"
  by (simp_all add: snapshot_blank_def)

lemma prompt_fields_blank [simp]: "form_blank (p\<lparr>pr_fields := prompt_fields spec known\<rparr>)"
  by (auto simp: form_blank_def prompt_fields_def)

lemma form_blank_prompt [simp]:
  "form_blank \<lparr>pr_id = i, pr_secret = n, pr_description = d, pr_reason = r,
     pr_fields = prompt_fields spec known\<rparr>"
  by (auto simp: form_blank_def prompt_fields_def)

interpretation privacy: session_invariant blank E "\<lambda>_. True"
  for E
proof unfold_locales
  show "keeps blank (ui_state ph m)" "keeps blank (set_secret n st d)" "keeps blank (ui_blocked b)"
      "keeps blank (mutate (\<lambda>sn. sn\<lparr>ss_done := True, ss_blocked := False, ss_prompt := None\<rparr>))"
      "keeps blank (mutate (\<lambda>sn. sn\<lparr>ss_choosing := b\<rparr>))" "keeps blank (mutate (\<lambda>sn. sn\<lparr>ss_secrets := l\<rparr>))"
    for ph m n st d b l
    by (auto simp: publish_defs intro!: keeps_mutate)
  show "keeps blank wait_for_choice" "keeps blank sleep_retry"
    by (auto simp: keeps_def wait_for_choice_def sleep_retry_def blank_def split: option.splits nat.splits)
  show "keeps blank (do_fs E c)" for c
    by (auto simp: keeps_def do_fs_def fs_step_def blank_def split: option.splits)
  show "keeps blank (log_event (Wrote n vals))" "keeps blank (validate E spec vals)" for n vals spec
    by (auto simp: keeps_def log_event_def update_state_def validate_def blank_def Let_def)
  show "keeps blank (post_form spec reason known)" for spec reason known
  proof -
    have "keeps blank fresh_prompt_id" "keeps blank (wait_for_submission i)" for i
      by (auto simp: keeps_def fresh_prompt_id_def wait_for_submission_def blank_def split: option.splits)
    then show ?thesis unfolding post_form_def by (auto intro!: keeps_intros keeps_mutate)
  qed
qed

section \<open>Redaction\<close>

text \<open>
  A value cannot be made of pieces of the marker when it has neither guillemet and does not
  occur in the word between them.
\<close>

definition unlike_marker :: "rstr \<Rightarrow> bool" where
  "unlike_marker v \<longleftrightarrow> 0xAB \<notin> set v \<and> 0xBB \<notin> set v \<and> \<not> contains (str ''redacted'') v"

lemma starts_with_split:
  assumes "starts_with (a @ d # b) v" and "d \<notin> set v"
  shows "starts_with a v"
proof -
  obtain y where y: "a @ d # b = v @ y" using assms(1) by (auto simp: starts_with_iff)
  have "length v \<le> length a"
  proof (rule ccontr)
    assume "\<not> length v \<le> length a"
    then have "(v @ y) ! length a = v ! length a" and "length a < length v"
      by (auto simp: nth_append)
    moreover have "(v @ y) ! length a = d" unfolding y [symmetric] by simp
    ultimately show False using assms(2) by (metis nth_mem)
  qed
  then have "take (length v) a = take (length v) (v @ y)" unfolding y [symmetric] by simp
  then show ?thesis by (simp add: starts_with_def)
qed

lemma contains_split:
  assumes "contains (a @ d # b) v" and "d \<notin> set v"
  shows "contains a v \<or> contains b v"
  using assms
proof (induction a)
  case Nil
  then show ?case using starts_with_split [of "[]" d b v] by (cases b) (auto simp: starts_with_def)
next
  case (Cons c a)
  then show ?case using starts_with_split [of "c # a" d b v] by auto
qed

lemma contains_marker: "unlike_marker v \<Longrightarrow> v \<noteq> [] \<Longrightarrow> contains (marker @ s) v \<Longrightarrow> contains s v"
  using contains_split [of "[]" "0xAB" "str ''redacted'' @ 0xBB # s" v]
    contains_split [of "str ''redacted''" "0xBB" s v]
  by (auto simp: marker_def unlike_marker_def contains_iff)

text \<open>
  A piece of the replaced text without the markers' characters was a piece of the text
  before: the replaced text is a chain of markers and pieces of the original.
\<close>

lemma contains_replace_gen:
  "r = marker \<Longrightarrow> unlike_marker v \<Longrightarrow> v \<noteq> [] \<Longrightarrow> p \<noteq> [] \<Longrightarrow>
   contains (q @ replace p r s) v \<Longrightarrow> contains (q @ s) v"
proof (induction p r s arbitrary: q rule: replace.induct)
  case (1 p r)
  then show ?case by simp
next
  case (2 p r c s)
  show ?case
  proof (cases "starts_with (c # s) p")
    case False
    with 2 show ?thesis using "2.IH"(3) [of "q @ [c]"] by simp
  next
    case True
    let ?r = "replace p r (drop (length p) (c # s))"
    have "contains (q @ 0xAB # (str ''redacted'' @ 0xBB # ?r)) v"
      using 2 True by (simp add: marker_def)
    then have "contains q v \<or> contains (str ''redacted'' @ 0xBB # ?r) v"
      using 2 by (intro contains_split) (auto simp: unlike_marker_def)
    then have "contains q v \<or> contains ?r v"
      using 2 contains_split [of "str ''redacted''" "0xBB" ?r v] by (auto simp: unlike_marker_def)
    then consider "contains q v" | "contains (drop (length p) (c # s)) v"
      using "2.IH"(2) [of "[]"] 2 True by auto
    then show ?thesis
    proof cases
      case 1
      then show ?thesis by (force simp: contains_iff)
    next
      case 2
      then obtain a b where "drop (length p) (c # s) = a @ v @ b" by (auto simp: contains_iff)
      then have "q @ c # s = (q @ take (length p) (c # s) @ a) @ v @ b"
        by (metis append.assoc append_take_drop_id)
      then show ?thesis unfolding contains_iff by blast
    qed
  qed
qed

lemma contains_replace:
  "unlike_marker v \<Longrightarrow> v \<noteq> [] \<Longrightarrow> p \<noteq> [] \<Longrightarrow> contains (replace p marker s) v \<Longrightarrow> contains s v"
  using contains_replace_gen [of marker v p "[]" s] by simp

lemma starts_with_replace:
  "r = marker \<Longrightarrow> 0xAB \<notin> set w \<Longrightarrow> p \<noteq> [] \<Longrightarrow> starts_with (replace p r s) w \<Longrightarrow> starts_with s w"
proof (induction p r s arbitrary: w rule: replace.induct)
  case (1 p r)
  then show ?case by simp
next
  case (2 p r c s)
  show ?case
  proof (cases w)
    case Nil
    then show ?thesis by (simp add: starts_with_simps)
  next
    case (Cons d w')
    show ?thesis
    proof (cases "starts_with (c # s) p")
      case True
      with 2 Cons show ?thesis by (simp add: marker_def starts_with_simps)
    next
      case False
      with 2 Cons show ?thesis by (simp add: starts_with_simps)
    qed
  qed
qed

lemma replace_removes:
  "r = marker \<Longrightarrow> unlike_marker p \<Longrightarrow> p \<noteq> [] \<Longrightarrow> \<not> contains (replace p r s) p"
proof (induction p r s rule: replace.induct)
  case (1 p r)
  then show ?case by simp
next
  case (2 p r c s)
  show ?case
  proof (cases "starts_with (c # s) p")
    case True
    let ?r = "replace p r (drop (length p) (c # s))"
    have "\<not> contains ?r p" using "2.IH"(2) "2.prems" True by blast
    then have "\<not> contains (marker @ ?r) p" using contains_marker "2.prems" by blast
    moreover have "replace p r (c # s) = marker @ ?r" using True "2.prems" by simp
    ultimately show ?thesis by simp
  next
    case False
    obtain d w where p: "p = d # w" using "2.prems" by (cases p) auto
    have "0xAB \<notin> set w" using "2.prems"(2) by (simp add: p unlike_marker_def)
    then have "starts_with (replace p r s) w \<Longrightarrow> starts_with s w"
      using starts_with_replace "2.prems" by blast
    moreover have "\<not> (c = d \<and> starts_with s w)" using False by (simp add: p starts_with_simps)
    ultimately have "\<not> starts_with (c # replace p r s) p"
      unfolding p starts_with_simps by blast
    moreover have "\<not> contains (replace p r s) p" using "2.IH"(3) "2.prems" False by blast
    moreover have "replace p r (c # s) = c # replace p r s" using False "2.prems" by simp
    ultimately show ?thesis by simp
  qed
qed

lemma redact_values_clean:
  assumes "\<forall>(k, v)\<in>set vals. 4 \<le> length v \<longrightarrow> unlike_marker v"
    and "(k, v) \<in> set vals" and "4 \<le> length v"
  shows "\<not> contains (redact_values t vals) v"
proof -
  have "\<forall>(k, v)\<in>set vals. 4 \<le> length v \<longrightarrow> \<not> contains (redact_values t vals) v"
    using assms(1)
  proof (induction vals rule: rev_induct)
    case Nil
    then show ?case by simp
  next
    case (snoc kv vals)
    obtain k v where kv: "kv = (k, v)" by (cases kv)
    let ?o = "redact_values t vals"
    have eq: "redact_values t (vals @ [(k, v)]) =
        (if 4 \<le> length v \<and> contains ?o v then replace v marker ?o else ?o)"
      by (simp add: redact_values_def)
    show ?case
    proof (cases "4 \<le> length v \<and> contains ?o v")
      case False
      with snoc show ?thesis by (auto simp: eq kv)
    next
      case True
      then have v: "v \<noteq> []" "unlike_marker v" using snoc.prems by (auto simp: kv)
      have "\<not> contains (replace v marker ?o) w" if "(l, w) \<in> set vals" "4 \<le> length w" for l w
      proof -
        have "w \<noteq> []" "unlike_marker w" "\<not> contains ?o w" using that snoc by auto
        then show ?thesis using contains_replace v(1) by blast
      qed
      with True v show ?thesis by (auto simp: eq kv replace_removes)
    qed
  qed
  with assms(2,3) show ?thesis by auto
qed

end
