(* ===== verification/Secrets_Start.thy ===== *)
theory Secrets_Start
  imports Secrets_Session
begin

text \<open>
  operator-secretsd from \<open>main\<close> to the sessions: the command line, the specification, the owners,
  the control socket and its directory, and what the state file says in the end.  Paths are
  absolute.  The nodes of the file system around the socket are a map from paths, as for
  \<open>prepare_socket_dir\<close>; \<open>start\<close> also lists the maps gone through since the directory was
  accepted, newest first.
\<close>

section \<open>Code\<close>

record sec_cli =
  c_spec :: rstr
  c_socket :: rstr
  c_validator_timeout :: nat
  c_retry_interval :: nat
  c_edit :: bool

text \<open>\<open>state_file_for\<close>.\<close>

definition state_file_for :: "rstr \<Rightarrow> rstr" where
  "state_file_for socket = (case path_parent socket of
      Some dir \<Rightarrow> if dir \<noteq> [] then path_join dir (str ''state'') else str ''state''
    | None \<Rightarrow> str ''state'')"

text \<open>What the operating system answers during the start.\<close>

record start_env =
  read_spec :: "message + rstr"
  spec_json :: "rstr \<Rightarrow> message + secrets_spec"
  getent_run :: "string \<Rightarrow> rstr \<Rightarrow> rstr option"
  passwd_text :: rstr
  group_text :: rstr
  dir_fault :: dir_faults
  unlink_fails :: bool
  bind_fault :: "message option"
  chmod_fault :: "message option"
  s_umask :: mode
  s_euid :: nat

text \<open>
  \<open>remove_file\<close> of what may be left of an older socket (a directory stays, as does anything when
  the removal fails, which is ignored), \<open>UnixListener::bind\<close>, which creates a socket open to everyone the umask does not exclude and fails on a path in
  use, and \<open>set_permissions\<close>.
\<close>

definition remove_stale :: "start_env \<Rightarrow> rstr \<Rightarrow> (rstr \<rightharpoonup> fs_node) \<Rightarrow> (rstr \<rightharpoonup> fs_node)" where
  "remove_stale S p nodes = (case nodes p of
      Some n \<Rightarrow> if is_dir n \<or> unlink_fails S then nodes else nodes(p := None)
    | None \<Rightarrow> nodes)"

definition bind_socket :: "start_env \<Rightarrow> rstr \<Rightarrow> (rstr \<rightharpoonup> fs_node) \<Rightarrow> message + (rstr \<rightharpoonup> fs_node)" where
  "bind_socket S p nodes = (case bind_fault S of
      Some e \<Rightarrow> Inl (Fmt ''binding control socket: {}'' [e])
    | None \<Rightarrow>
        if nodes p \<noteq> None then Inl (Fmt ''binding control socket: {}'' [lit ''address in use''])
        else Inr (nodes(p \<mapsto> \<lparr>is_dir = False, node_uid = s_euid S, node_mode = 0x1FF AND NOT (s_umask S)\<rparr>)))"

definition restrict_socket :: "start_env \<Rightarrow> rstr \<Rightarrow> (rstr \<rightharpoonup> fs_node) \<Rightarrow> message + (rstr \<rightharpoonup> fs_node)" where
  "restrict_socket S p nodes = (case chmod_fault S of
      Some e \<Rightarrow> Inl (Fmt ''restricting control socket: {}'' [e])
    | None \<Rightarrow> Inr (nodes(p := map_option (\<lambda>n. n\<lparr>node_mode := owner_rw\<rparr>) (nodes p))))"

definition start :: "start_env \<Rightarrow> sec_cli \<Rightarrow> (rstr \<rightharpoonup> fs_node) \<Rightarrow>
    message + ((secret_spec \<times> (nat \<times> nat)) list \<times> (rstr \<rightharpoonup> fs_node) list)" where
  "start S cli nodes = (case read_spec S of
      Inl e \<Rightarrow> Inl (Fmt ''reading spec {}: {}'' [Str (c_spec cli), e])
    | Inr t \<Rightarrow> (case spec_parse (spec_json S) t of
        Inl e \<Rightarrow> Inl e
      | Inr spec \<Rightarrow> (case resolve_all (getent_run S) (passwd_text S) (group_text S) (secrets spec) of
          Inl e \<Rightarrow> Inl e
        | Inr jobs \<Rightarrow>
            (case (case path_parent (c_socket cli) of
                Some dir \<Rightarrow> prepare_socket_dir (dir_fault S) (s_umask S) (s_euid S) dir nodes
              | None \<Rightarrow> Inr nodes) of
              Inl e \<Rightarrow> Inl e
            | Inr n1 \<Rightarrow>
                (let n2 = remove_stale S (c_socket cli) n1 in
                 case bind_socket S (c_socket cli) n2 of
                   Inl e \<Rightarrow> Inl e
                 | Inr n3 \<Rightarrow>
                     (case restrict_socket S (c_socket cli) n3 of
                        Inl e \<Rightarrow> Inl e
                      | Inr n4 \<Rightarrow> Inr (jobs, [n4, n3, n2, n1])))))))"

text \<open>
  \<open>run\<close> on the state the sessions begin with, and \<open>main\<close>: the exit code, and what is written to
  the state file when the run failed.
\<close>

definition secretsd_run :: "sec_env \<Rightarrow> start_env \<Rightarrow> sec_cli \<Rightarrow> (rstr \<rightharpoonup> fs_node) \<Rightarrow> sec_state \<Rightarrow>
    (message, unit) outcome \<times> sec_state" where
  "secretsd_run E S cli nodes s =
     (case start S cli nodes of
        Inl e \<Rightarrow> (Failed e, s)
      | Inr (jobs, _) \<Rightarrow>
          run_sessions (E\<lparr>e_timeout_secs := c_validator_timeout cli, e_retry_secs := c_retry_interval cli\<rparr>)
            (c_edit cli) jobs s)"

definition secretsd_main :: "(message, unit) outcome \<Rightarrow> sec_cli \<Rightarrow> nat \<times> (rstr \<times> message) option" where
  "secretsd_main r cli = (case r of
      Failed e \<Rightarrow> (1, Some (state_file_for (c_socket cli), Fmt ''FAILED: {}'' [e]))
    | _ \<Rightarrow> (0, None))"

section \<open>What a start guarantees\<close>

lemma spec_parse_checked: "spec_parse fj t = Inr spec \<Longrightarrow> s \<in> set (secrets spec) \<Longrightarrow> check_secret s = None"
  by (auto simp: spec_parse_def find_map_None_iff split: sum.splits if_splits option.splits)

lemma resolve_all_fst: "resolve_all ge pw gr ss = Inr jobs \<Longrightarrow> map fst jobs = ss"
  by (induction ss arbitrary: jobs) (auto split: sum.splits)

definition private_dir :: "nat \<Rightarrow> rstr \<Rightarrow> (rstr \<rightharpoonup> fs_node) \<Rightarrow> bool" where
  "private_dir euid dir nodes \<longleftrightarrow>
     (\<exists>n. nodes dir = Some n \<and> is_dir n \<and> node_uid n = euid \<and> node_mode n AND group_other = 0)"

lemma prepare_private:
  assumes "prepare_socket_dir faults umask euid dir nodes = Inr nodes'"
  shows "private_dir euid dir nodes' \<and> (nodes dir \<noteq> None \<longrightarrow> nodes' = nodes) \<and> (\<forall>q. q \<noteq> dir \<longrightarrow> nodes' q = nodes q)"
proof -
  have new: "(0x1C0 AND NOT umask) AND group_other = 0"
  proof -
    have "(0x1C0 AND NOT umask) AND group_other = (0x1C0 AND group_other) AND NOT umask"
      by (simp only: ac_simps)
    then show ?thesis by simp
  qed
  have old: "(m AND 0x1FF) AND group_other = m AND group_other" for m :: mode
    by (simp add: and.assoc)
  show ?thesis
    using assms new
    by (auto simp: private_dir_def prepare_socket_dir_def Let_def old split: option.splits if_splits prod.splits)
qed

lemma start_cases:
  assumes "start S cli nodes = Inr (jobs, seen)"
  obtains t spec n1 n3 where "read_spec S = Inr t" and "spec_parse (spec_json S) t = Inr spec"
    and "resolve_all (getent_run S) (passwd_text S) (group_text S) (secrets spec) = Inr jobs"
    and "case path_parent (c_socket cli) of
        Some dir \<Rightarrow> prepare_socket_dir (dir_fault S) (s_umask S) (s_euid S) dir nodes = Inr n1
      | None \<Rightarrow> n1 = nodes"
    and "bind_socket S (c_socket cli) (remove_stale S (c_socket cli) n1) = Inr n3"
    and "seen = [n3(c_socket cli := map_option (\<lambda>n. n\<lparr>node_mode := owner_rw\<rparr>) (n3 (c_socket cli))), n3,
        remove_stale S (c_socket cli) n1, n1]"
  using assms
  by (auto simp: start_def restrict_socket_def Let_def split: sum.splits option.splits)

lemma private_dir_upd: "q \<noteq> dir \<Longrightarrow> private_dir euid dir (nodes(q := x)) = private_dir euid dir nodes"
  by (simp add: private_dir_def)

lemma private_dir_stale: "private_dir euid dir (remove_stale S p nodes) = private_dir euid dir nodes" if "p \<noteq> dir"
  using that by (auto simp: remove_stale_def private_dir_def split: option.split)

text \<open>C9: The daemon listens only where nobody else can reach it: when it starts, the socket's directory
  belongs to it and is closed to group and others in every file system it goes through from
  before the socket is bound, the bound socket ends as its own with mode 0600, and the jobs it
  then works on are exactly the secrets of the specification, each of which has passed the check.\<close>

theorem start_is_private_and_checked:
  assumes "start S cli nodes = Inr (jobs, seen)"
    and "path_parent (c_socket cli) = Some dir" and "dir \<noteq> c_socket cli"
  shows "(\<forall>m\<in>set seen. private_dir (s_euid S) dir m) \<and>
     hd seen (c_socket cli) = Some \<lparr>is_dir = False, node_uid = s_euid S, node_mode = owner_rw\<rparr> \<and>
     (\<exists>t spec. read_spec S = Inr t \<and> spec_parse (spec_json S) t = Inr spec \<and> map fst jobs = secrets spec \<and>
        (\<forall>(s, ids)\<in>set jobs. check_secret s = None))"
proof (rule start_cases [OF assms(1)])
  fix t spec n1 n3
  assume t: "read_spec S = Inr t" "spec_parse (spec_json S) t = Inr spec"
    and jobs: "resolve_all (getent_run S) (passwd_text S) (group_text S) (secrets spec) = Inr jobs"
    and prepared: "case path_parent (c_socket cli) of
        Some dir \<Rightarrow> prepare_socket_dir (dir_fault S) (s_umask S) (s_euid S) dir nodes = Inr n1
      | None \<Rightarrow> n1 = nodes"
    and bound: "bind_socket S (c_socket cli) (remove_stale S (c_socket cli) n1) = Inr n3"
    and seen: "seen = [n3(c_socket cli := map_option (\<lambda>n. n\<lparr>node_mode := owner_rw\<rparr>) (n3 (c_socket cli))), n3,
        remove_stale S (c_socket cli) n1, n1]"
  have ne: "c_socket cli \<noteq> dir" using assms(3) by simp
  have n1: "private_dir (s_euid S) dir n1" using prepared prepare_private by (simp add: assms(2))
  have n3: "n3 = (remove_stale S (c_socket cli) n1)(c_socket cli \<mapsto>
      \<lparr>is_dir = False, node_uid = s_euid S, node_mode = 0x1FF AND NOT (s_umask S)\<rparr>)"
    using bound by (simp add: bind_socket_def split: option.splits if_splits)
  have stale: "private_dir (s_euid S) dir (remove_stale S (c_socket cli) n1)"
    using n1 private_dir_stale [OF ne] by simp
  have "\<forall>m\<in>set seen. private_dir (s_euid S) dir m"
    unfolding seen n3 using n1 stale by (simp add: private_dir_upd [OF ne])
  moreover have "hd seen (c_socket cli) = Some \<lparr>is_dir = False, node_uid = s_euid S, node_mode = owner_rw\<rparr>"
    unfolding seen n3 by simp
  moreover have fst: "map fst jobs = secrets spec" using jobs by (rule resolve_all_fst)
  moreover have "check_secret (fst job) = None" if "job \<in> set jobs" for job
    using spec_parse_checked [OF t(2), of "fst job"] that fst by (metis image_eqI list.set_map)
  ultimately show ?thesis using t by (auto simp: split_beta)
qed

definition demo_cli :: sec_cli where
  "demo_cli = \<lparr>c_spec = str ''/spec'', c_socket = str ''/run/os/sock'', c_validator_timeout = 60,
     c_retry_interval = 30, c_edit = False\<rparr>"

definition demo_start :: start_env where
  "demo_start = \<lparr>read_spec = Inr [], spec_json = (\<lambda>_. Inr \<lparr>version = SPEC_VERSION, secrets = []\<rparr>),
     getent_run = (\<lambda>_ _. None), passwd_text = [], group_text = [],
     dir_fault = \<lparr>parents_err = None, create_err = None, stat_err = None\<rparr>, unlink_fails = False, bind_fault = None,
     chmod_fault = None, s_umask = 0x12, s_euid = 0\<rparr>"

lemma demo_socket_dir: "path_parent (c_socket demo_cli) = Some (str ''/run/os'')"
  by code_simp

theorem start_is_private_and_checked_witness:
  "\<exists>jobs seen. start demo_start demo_cli Map.empty = Inr (jobs, seen) \<and>
     (\<forall>m\<in>set seen. private_dir 0 (str ''/run/os'') m)"
proof -
  have ne: "str ''/run/os'' \<noteq> c_socket demo_cli" by (simp add: demo_cli_def str_def)
  have "prepare_socket_dir (dir_fault demo_start) (s_umask demo_start) (s_euid demo_start) (str ''/run/os'') Map.empty =
      Inr [str ''/run/os'' \<mapsto> \<lparr>is_dir = True, node_uid = 0, node_mode = 0x1C0\<rparr>]"
    by (simp add: demo_start_def prepare_socket_dir_def)
  then obtain jobs seen where run: "start demo_start demo_cli Map.empty = Inr (jobs, seen)"
    using ne by (simp add: start_def demo_socket_dir demo_start_def spec_parse_def remove_stale_def
        bind_socket_def restrict_socket_def Let_def)
  show ?thesis
    using start_is_private_and_checked [OF run demo_socket_dir ne] run by (auto simp: demo_start_def)
qed

text \<open>
  The state file is written beside the socket even when the directory was refused: the failure
  text goes where the refused directory's owner decides.
\<close>

lemma refused_directory_gets_state:
  assumes "start S cli nodes = Inl e"
  shows "secretsd_main (fst (secretsd_run E S cli nodes s)) cli =
     (1, Some (state_file_for (c_socket cli), Fmt ''FAILED: {}'' [e]))"
  using assms by (simp add: secretsd_run_def secretsd_main_def)

end
