(* ===== verification/Secrets_Claims.thy ===== *)
theory Secrets_Claims
  imports Secrets_Privacy Secrets_Start
begin

text \<open>
  The properties of operator-secrets, each with a run of the model in which its hypotheses
  hold.  The example is a database credential with a plain user name and a sensitive
  password, no validator command, and an operator who answers a stale prompt, then half of
  the form, then all of it.
\<close>

section \<open>An example run\<close>

definition demo_secret :: secret_spec where
  "demo_secret = \<lparr>sname = str ''db'', sdescription = [],
     sfields = [\<lparr>fname = str ''USER'', fdescription = [], sensitive = False\<rparr>,
                \<lparr>fname = str ''PASS'', fdescription = [], sensitive = True\<rparr>],
     spath = str ''/s/db'', sowner = str ''root'', sgroup = None, smode = str ''0440'',
     validate_command = None\<rparr>"

definition demo_env :: sec_env where
  "demo_env = \<lparr>e_run = (\<lambda>_ _ _. TimedOut), e_from_json = (\<lambda>_. Inl (lit ''no JSON'')),
     e_fault = (\<lambda>_ _. None), e_read_error = (\<lambda>_ _. None), e_timeout_secs = 30,
     e_retry_secs = 10, e_ids = (0, 0), e_umask = 0x12, e_pid = 42\<rparr>"

definition demo_vals :: "(rstr \<times> rstr) list" where
  "demo_vals = [(str ''USER'', str ''u''), (str ''PASS'', str ''p w'')]"

definition demo_state :: sec_state where
  "demo_state = \<lparr>snap = default_snapshot, next_prompt_id = 0,
     inbox = [Submit 7 [], Submit 1 [(str ''USER'', str ''u'')], Submit 2 demo_vals],
     files = Map.empty, fs_seen = [], ticks = 0, trace = []\<rparr>"

definition demo_boot :: "(message, unit) outcome \<times> sec_state" where
  "demo_boot = boot_session demo_env [(demo_secret, (3, 4))] demo_state"

definition demo_edit :: "(message, unit) outcome \<times> sec_state" where
  "demo_edit = edit_session demo_env [(demo_secret, (3, 4))]
     (demo_state\<lparr>inbox := Edit (str ''db'') # Submit 1 demo_vals # []\<rparr>)"

lemma demo_separate: "separate demo_env [(demo_secret, (3, 4))]"
  by code_simp

lemma demo_checked: "check_secret demo_secret = None"
  by code_simp

section \<open>The sessions\<close>

text \<open>C1: boot_session returns (the boot goes on) only when for every declared secret the file at
  its path parses to a complete set of values and the validator's verdict of this run on
  exactly these values is Valid.\<close>

theorem boot_only_with_valid_secrets:
  assumes "separate E jobs" and "\<forall>(spec, ids)\<in>set jobs. check_secret spec = None"
    and "boot_session E jobs s = (Done (), s')"
  shows "\<forall>(spec, ids)\<in>set jobs. \<exists>f vals v. files s' (spath spec) = Some f \<and>
     classify_stored spec (Some (parse_env_file (f_content f))) = Complete vals \<and>
     Judged (sname spec) vals v \<in> set (trace s') \<and> v_status v = Valid"
  using wp_DoneD [OF wp_boot_session [OF assms(1)] assms(3)] assms(2)
  unfolding satisfied_def check_secret_None_iff by fast

theorem boot_only_with_valid_secrets_witness:
  "\<exists>f vals v. files (snd demo_boot) (str ''/s/db'') = Some f \<and>
     classify_stored demo_secret (Some (parse_env_file (f_content f))) = Complete vals \<and>
     Judged (str ''db'') vals v \<in> set (trace (snd demo_boot)) \<and> v_status v = Valid"
proof -
  have "fst demo_boot = Done ()" by code_simp
  then have run: "boot_session demo_env [(demo_secret, (3, 4))] demo_state = (Done (), snd demo_boot)"
    by (simp add: demo_boot_def prod_eq_iff)
  show ?thesis
    using boot_only_with_valid_secrets [OF demo_separate _ run] demo_checked
    by (simp add: demo_secret_def)
qed

text \<open>C2: However a boot session ends (released, failed, or still waiting for the operator or the
  validator), every file system it went through has at each secret's path either the file
  that was there at the start or a file whose values this session judged Valid and an
  operator's form supplied.  A stored credential is never discarded for a worse one.\<close>

theorem boot_replaces_only_by_valid:
  assumes "separate E jobs" and "\<forall>(spec, ids)\<in>set jobs. check_secret spec = None"
    and "boot_session E jobs s = (r, s')" and "(spec, ids) \<in> set jobs"
  shows "\<exists>new. files s' # fs_seen s' = new @ files s # fs_seen s \<and>
     (\<forall>m\<in>set new. m (spath spec) = files s (spath spec) \<or>
                   vetted spec ids (trace s') (m (spath spec)))"
proof -
  have "\<forall>(a, i)\<in>set jobs. protected a i s s'"
    using wp_boot_session [OF assms(1), of s] assms(2,3)
    by (cases r) (fastforce simp: wp_def check_secret_None_iff)+
  with assms(4) show ?thesis by (auto simp: protected_def)
qed

theorem boot_replaces_only_by_valid_witness:
  "\<exists>new. files (snd demo_boot) # fs_seen (snd demo_boot) = new @ [Map.empty] \<and>
     (\<forall>m\<in>set new. m (str ''/s/db'') = None \<or>
        vetted demo_secret (3, 4) (trace (snd demo_boot)) (m (str ''/s/db'')))"
proof -
  have run: "boot_session demo_env [(demo_secret, (3, 4))] demo_state = (fst demo_boot, snd demo_boot)"
    by (simp add: demo_boot_def)
  have "spath demo_secret = str ''/s/db''" "files demo_state = Map.empty" "fs_seen demo_state = []"
    by (simp_all add: demo_secret_def demo_state_def)
  then show ?thesis
    using boot_replaces_only_by_valid [OF demo_separate _ run, of demo_secret "(3, 4)"] demo_checked
    by simp
qed

text \<open>C5: An edit session that ends well has replaced one declared secret, one the operator asked
  for, and the file now at its path holds values judged Valid in this session, with the
  owner and mode of the specification; nothing but that path and its temporary file differs
  from before.\<close>

theorem edit_writes_chosen_secret:
  assumes "edit_session E jobs s = (Done (), s')"
  shows "\<exists>(spec, ids)\<in>set jobs. Edit (sname spec) \<in> set (inbox s) \<and>
     vetted spec ids (trace s') (files s' (spath spec)) \<and>
     (\<forall>q. q \<noteq> spath spec \<and> q \<noteq> tmp_path E spec \<longrightarrow> files s' q = files s q)"
proof -
  obtain a i where "(a, i) \<in> set jobs" "Edit (sname a) \<in> set (inbox s)" "guarded E a i s s'"
      "vetted a i (trace s') (files s' (spath a))"
    using wp_DoneD [OF wp_edit_session assms] by auto
  then show ?thesis
    by (intro bexI [of _ "(a, i)"]) (simp_all add: guarded_def guarded_fs_def)
qed

theorem edit_writes_chosen_secret_witness:
  "vetted demo_secret (3, 4) (trace (snd demo_edit)) (files (snd demo_edit) (str ''/s/db''))"
proof -
  have "fst demo_edit = Done ()" by code_simp
  then have "edit_session demo_env [(demo_secret, (3, 4))]
      (demo_state\<lparr>inbox := Edit (str ''db'') # Submit 1 demo_vals # []\<rparr>) = (Done (), snd demo_edit)"
    by (simp add: demo_edit_def prod_eq_iff)
  from edit_writes_chosen_secret [OF this] show ?thesis by (simp add: demo_secret_def)
qed

section \<open>Writing\<close>

text \<open>C3: write_secret is atomic and private.  Whatever call fails, every file system it went
  through has at the secret's path the old file or the complete new one, and any file it
  brought into being is closed to group and others until it has its final owner and mode.
  It returns without error exactly when the new file is in place, and leaves the old one
  otherwise.\<close>

theorem write_secret_atomic:
  assumes "parse_mode (smode spec) = Some md" and "write_secret E spec ids vals s = (r, s')"
  shows "(\<exists>new. files s' # fs_seen s' = new @ files s # fs_seen s \<and>
            (\<forall>m\<in>set new. write_ok E (files s) spec (written_file spec ids md vals) m)) \<and>
         files s' (spath spec) = (case r of
             Done _ \<Rightarrow> Some (written_file spec ids md vals)
           | _ \<Rightarrow> files s (spath spec))"
  using write_secret_tracks [OF assms(1), of E ids vals s] assms(2)
  by (cases r) (auto simp: wp_def tracks_def)

definition demo_write :: "(message, unit) outcome \<times> sec_state" where
  "demo_write = write_secret demo_env demo_secret (3, 4) demo_vals demo_state"

theorem write_secret_atomic_witness:
  "files (snd demo_write) (str ''/s/db'') =
     Some \<lparr>f_content = encode_env_file demo_vals, f_mode = 0x120, f_owner = (3, 4)\<rparr>"
proof -
  have md: "parse_mode (smode demo_secret) = Some 288" by code_simp
  have "fst demo_write = Done ()" by code_simp
  then have run: "write_secret demo_env demo_secret (3, 4) demo_vals demo_state = (Done (), snd demo_write)"
    by (simp add: demo_write_def prod_eq_iff)
  show ?thesis
    using conjunct2 [OF write_secret_atomic [OF md run]]
    by (simp add: demo_secret_def written_file_def)
qed

section \<open>Deciding and asking\<close>

text \<open>validate_until_decided never returns the Error verdict: when it returns, the last
  verdict of the run is the one returned, on the values it was given, it is Valid or Invalid,
  and no file has changed while it waited.\<close>

theorem validate_until_decided_decides:
  assumes "validate_until_decided E spec vals what s = (Done v, s')"
  shows "v_status v \<noteq> Error \<and> last_judged (trace s') = Some (sname spec, vals, v) \<and>
     files s' = files s \<and> fs_seen s' = fs_seen s"
  using wp_DoneD [OF wp_validate_until_decided [OF quiet_refl] assms] by (auto simp: quiet_def)

theorem validate_until_decided_decides_witness:
  "\<exists>v s'. validate_until_decided demo_env demo_secret [(str ''USER'', str ''u'')] ''x'' demo_state = (Done v, s') \<and>
     v_status v \<noteq> Error \<and> last_judged (trace s') = Some (str ''db'', [(str ''USER'', str ''u'')], v)"
proof -
  let ?r = "validate_until_decided demo_env demo_secret [(str ''USER'', str ''u'')] ''x'' demo_state"
  have "(case fst ?r of Done _ \<Rightarrow> True | _ \<Rightarrow> False)" by code_simp
  then obtain v where "?r = (Done v, snd ?r)" by (cases "fst ?r") (auto simp: prod_eq_iff)
  from validate_until_decided_decides [OF this] this show ?thesis
    by (intro exI [of _ v] exI [of _ "snd ?r"]) (simp add: demo_secret_def)
qed

text \<open>A form is answered whatever stands before the answer in the queue: messages for other
  prompts and choices are skipped, the first submission for the posted prompt is taken, and
  when it is acceptable ask returns its values in declaration order, leaving the rest of the
  queue.\<close>

theorem ask_takes_first_answer:
  assumes "inbox s = stale @ Submit (Suc (next_prompt_id s)) vs # rest"
    and "\<forall>m\<in>set stale. \<forall>ws. m \<noteq> Submit (Suc (next_prompt_id s)) ws"
    and "accept_submission spec vs = Inr vals"
  shows "\<exists>s'. ask spec reason known s = (Done vals, s') \<and> inbox s' = rest \<and>
     next_prompt_id s' = Suc (next_prompt_id s) \<and> ss_prompt (snap s') = None \<and> files s' = files s"
proof -
  have "take_answer (answers_prompt (Suc (next_prompt_id s))) (inbox s) = Some (vs, rest)"
    unfolding assms(1) using assms(2)
    by (induction stale) (auto simp: answers_prompt_def split: secret_msg.splits)
  then show ?thesis
    using assms(3)
    by (simp add: ask_def post_form_def bnd_def fresh_prompt_id_def mutate_def update_state_def
        wait_for_submission_def ret_def Let_def)
qed

theorem ask_takes_first_answer_witness:
  "\<exists>s'. ask demo_secret (lit ''r'') Map.empty (demo_state\<lparr>next_prompt_id := 1\<rparr>) = (Done demo_vals, s') \<and>
     inbox s' = []"
proof -
  have "accept_submission demo_secret demo_vals = Inr demo_vals" by code_simp
  then show ?thesis
    using ask_takes_first_answer [of "demo_state\<lparr>next_prompt_id := 1\<rparr>"
        "[Submit 7 [], Submit 1 [(str ''USER'', str ''u'')]]" demo_vals "[]" demo_secret demo_vals]
    by (auto simp: demo_state_def numeral_2_eq_2)
qed

text \<open>The model's bound on the turns of ask is enough: with more turns than messages the result
  does not depend on the bound, so the bound never ends a conversation.\<close>

theorem ask_bound_enough:
  fixes s :: sec_state
  assumes "length (inbox s) < n"
  shows "ask_loop n spec reason known s = ask spec reason known s"
  unfolding ask_def by (rule ask_loop_enough [OF assms]) simp

theorem ask_bound_enough_witness:
  "ask_loop 9 demo_secret (lit ''r'') Map.empty demo_state = ask demo_secret (lit ''r'') Map.empty demo_state"
  by (rule ask_bound_enough) (simp add: demo_state_def)

text \<open>accept_submission returns values exactly when every submitted name is declared and
  submitted once and every declared field has a non-empty value without control characters;
  the result lists the declared fields in declaration order.\<close>

theorem accept_submission_exact:
  "accept_submission spec vs = Inr vals \<longleftrightarrow>
     distinct (map fst vs) \<and> (\<forall>(k, v)\<in>set vs. field_of spec k \<noteq> None) \<and>
     (\<forall>f\<in>set (sfields spec). \<exists>v. map_of vs (fname f) = Some v \<and> v \<noteq> [] \<and> \<not> list_ex is_control v) \<and>
     vals = map (\<lambda>f. (fname f, the (map_of vs (fname f)))) (sfields spec)"
  unfolding accept_submission_Inr_iff ok_value_def list_ex_iff by blast

theorem accept_submission_exact_witness:
  "\<not> (\<exists>vals. accept_submission demo_secret [(str ''USER'', str ''u'')] = Inr vals)"
  by (simp add: accept_submission_exact demo_secret_def)

text \<open>C6: What an accepted form supplied is what the next boot reads: the values written with
  encode_env_file and read back with parse_env_file are classified Complete with the same
  values in the same order.\<close>

theorem accepted_form_is_read_back:
  assumes "check_secret spec = None" and "accept_submission spec vs = Inr vals"
  shows "classify_stored spec (Some (parse_env_file (encode_env_file vals))) = Complete vals"
  using accepted_is_complete assms check_secret_None_iff by blast

theorem accepted_form_is_read_back_witness:
  "classify_stored demo_secret (Some (parse_env_file (encode_env_file demo_vals))) = Complete demo_vals"
  by (rule accepted_form_is_read_back [OF demo_checked, of demo_vals]) code_simp

section \<open>Env-files\<close>

text \<open>C7: parse_env_file inverts encode_env_file: with valid keys and values without a newline, the
  parsed map is the written one, the last of several entries for a key winning.\<close>

theorem env_file_roundtrip:
  assumes "\<forall>(k, v)\<in>set fs. is_valid_key k \<and> 10 \<notin> set v"
  shows "parse_env_file (encode_env_file fs) = map_of (rev fs)"
  by (rule parse_encode_file [OF assms])

theorem env_file_roundtrip_witness:
  "parse_env_file (encode_env_file [(str ''A'', str ''it is \"x$y''), (str ''B'', [])]) (str ''A'')
     = Some (str ''it is \"x$y'')"
proof -
  have "\<forall>(k, v)\<in>set [(str ''A'', str ''it is \"x$y''), (str ''B'', [])]. is_valid_key k \<and> 10 \<notin> set v"
    by code_simp
  from env_file_roundtrip [OF this] show ?thesis by simp
qed


section \<open>What leaves the daemon\<close>

text \<open>C4: No snapshot a session publishes, whatever the operator typed and whatever is stored,
  carries a value in a sensitive field of its form.\<close>

theorem snapshots_never_carry_sensitive_values:
  assumes "run_sessions E edit jobs s = (r, s')" and "trace s = []" and "ss_prompt (snap s) = None"
    and "Published sn \<in> set (trace s')" and "ss_prompt sn = Some p" and "f \<in> set (pr_fields p)"
    and "pf_sensitive f"
  shows "pf_value f = []"
proof -
  have "blank s" using assms(2,3) by (simp add: blank_def snapshot_blank_def)
  moreover have "keeps blank (run_sessions E edit jobs)" by (rule privacy.runs) simp
  ultimately have "blank s'" using assms(1) by (auto intro: keepsD)
  with assms(4-7) show ?thesis by (fastforce simp: blank_def snapshot_blank_def form_blank_def)
qed

definition demo_form :: secret_prompt where
  "demo_form = \<lparr>pr_id = 2, pr_secret = str ''db'', pr_description = [],
     pr_reason = Fmt ''rejected: {}'' [Fmt ''{} is missing'' [Str (str ''PASS'')]],
     pr_fields = prompt_fields demo_secret (Map.empty(str ''USER'' \<mapsto> str ''u''))\<rparr>"

theorem snapshots_never_carry_sensitive_values_witness:
  "pf_value (pr_fields demo_form ! 0) = str ''u'' \<and> pf_value (pr_fields demo_form ! 1) = []"
proof
  show "pf_value (pr_fields demo_form ! 0) = str ''u''" by code_simp
  let ?r = "run_sessions demo_env False [(demo_secret, (3, 4))] demo_state"
  have run: "run_sessions demo_env False [(demo_secret, (3, 4))] demo_state = (fst ?r, snd ?r)" by simp
  have "list_ex (\<lambda>e. case e of Published sn \<Rightarrow> ss_prompt sn = Some demo_form | _ \<Rightarrow> False)
          (trace (snd ?r))"
    by code_simp
  then obtain e where e: "e \<in> set (trace (snd ?r))"
      "case e of Published sn \<Rightarrow> ss_prompt sn = Some demo_form | _ \<Rightarrow> False"
    unfolding list_ex_iff by blast
  have "\<exists>sn. e = Published sn \<and> ss_prompt sn = Some demo_form"
    using e(2) by (simp split: sec_event.splits)
  with e(1) obtain sn where sn: "Published sn \<in> set (trace (snd ?r))" "ss_prompt sn = Some demo_form"
    by blast
  have st: "trace demo_state = []" "ss_prompt (snap demo_state) = None"
    by (simp_all add: demo_state_def default_snapshot_def)
  have f: "pr_fields demo_form ! 1 \<in> set (pr_fields demo_form)" "pf_sensitive (pr_fields demo_form ! 1)"
    by (simp_all add: demo_form_def prompt_fields_def demo_secret_def)
  show "pf_value (pr_fields demo_form ! 1) = []"
    by (rule snapshots_never_carry_sensitive_values [OF run st sn f])
qed

text \<open>Redaction removes every value of four or more characters from a validator's standard
  error, as long as no such value is built from the characters of the marker itself.\<close>

theorem redact_values_removes:
  assumes "\<forall>(k, v)\<in>set vals. 4 \<le> length v \<longrightarrow> unlike_marker v"
    and "(k, v) \<in> set vals" and "4 \<le> length v"
  shows "\<not> contains (redact_values t vals) v"
  by (rule redact_values_clean [OF assms])

theorem redact_values_removes_witness:
  "\<not> contains (redact_values (str ''bad token hunter2'') [(str ''PASS'', str ''hunter2'')]) (str ''hunter2'')"
  by (rule redact_values_removes [where k = "str ''PASS''"])
     (simp_all add: unlike_marker_def str_def starts_with_def)

text \<open>What redaction does not promise: replacing the values one after the other, it leaves the
  rest of a longer value standing when a shorter one is its prefix.\<close>

theorem redact_values_leaves_suffix:
  "redact_values (str ''login hunter2secret failed'')
     [(str ''USER'', str ''hunt''), (str ''PASS'', str ''hunter2secret'')]
   = str ''login '' @ marker @ str ''er2secret failed''"
  by code_simp

section \<open>Verdicts, owners, the socket directory\<close>

text \<open>With a validator command, a verdict other than Error is what the command itself printed: it
  was spawned, it answered in time, and its trimmed output is the JSON object with that
  status.  Every failure to run it, silence or garbage gives Error, never Invalid.\<close>

theorem verdict_is_the_validators:
  assumes "validate_command spec = Some argv"
  shows "v_status (judge E n spec vals) = st \<and> st \<noteq> Error \<longleftrightarrow>
     (\<exists>out err ex msg. e_run E n argv (map_of (rev vals)) = Answered out err ex \<and>
        trim (trim out) \<noteq> [] \<and> e_from_json E (trim (trim out)) = Inr (st, msg) \<and> st \<noteq> Error)"
proof (cases "e_run E n argv (map_of (rev vals))")
  case (Answered out err ex)
  show ?thesis
  proof (cases "e_from_json E (trim (trim out))")
    case (Inl e)
    then show ?thesis
      by (simp add: judge_def assms Answered run_verdict_def parse_validator_output_def
          verdict_error_def Let_def)
  next
    case (Inr a)
    obtain st' msg where a: "a = (st', msg)" by (cases a)
    show ?thesis
      by (cases "st' = Error"; cases "trim (trim out) = []")
         (auto simp: judge_def assms Answered Inr a run_verdict_def parse_validator_output_def
           verdict_error_def Let_def)
  qed
qed (auto simp: judge_def assms run_verdict_def verdict_error_def)

theorem verdict_is_the_validators_witness:
  "v_status (judge (demo_env\<lparr>e_run := \<lambda>_ _ _. Answered (str '' {} '') [] ExitSuccess,
       e_from_json := \<lambda>_. Inr (Invalid, None)\<rparr>) 0
     (demo_secret\<lparr>validate_command := Some [str ''check'']\<rparr>) demo_vals) = Invalid"
proof -
  have "trim (trim (str '' {} '')) \<noteq> []"
    by (simp add: trim_def trim_start_def trim_end_def is_whitespace_def str_def)
  then show ?thesis
    using verdict_is_the_validators [of "demo_secret\<lparr>validate_command := Some [str ''check'']\<rparr>"
      "[str ''check'']" "demo_env\<lparr>e_run := \<lambda>_ _ _. Answered (str '' {} '') [] ExitSuccess,
        e_from_json := \<lambda>_. Inr (Invalid, None)\<rparr>" 0 demo_vals Invalid]
    by simp
qed

text \<open>In a well-formed passwd or group database, lookup_id finds the id of the first entry with
  the name; a name that is itself a decimal number below 2^32 is taken as the id.\<close>

theorem lookup_id_in_database:
  assumes "\<forall>e\<in>set es. wf_entry e"
  shows "lookup_id (passwd_db es) name =
     (case parse_uint 4294967295 name of
        Some n \<Rightarrow> Some n
      | None \<Rightarrow> map_of (map (\<lambda>(n, pw, i, rest). (n, i)) es) name)"
  by (simp add: lookup_id_def lines_passwd_db [OF assms] find_map_entries [OF assms] split: option.split)

theorem lookup_id_in_database_witness:
  "lookup_id (passwd_db [(str ''root'', str ''x'', 0, str ''0:root:/root:/bin/sh''),
                         (str ''pg'', str ''x'', 71, str ''71::/:/bin/sh'')]) (str ''pg'') = Some 71"
proof -
  have wf: "\<forall>e\<in>set [(str ''root'', str ''x'', 0, str ''0:root:/root:/bin/sh''),
                    (str ''pg'', str ''x'', 71, str ''71::/:/bin/sh'')]. wf_entry e"
    by (simp add: wf_entry_def str_def)
  have "parse_uint 4294967295 (str ''pg'') = None"
    by (simp add: parse_uint_def parse_digits_def str_def is_ascii_digit_def)
  then show ?thesis by (simp add: lookup_id_in_database [OF wf])
qed

text \<open>When prepare_socket_dir accepts a directory, it is a directory of the daemon's own user
  closed to group and others; it changes nothing about a directory that was already there,
  and refuses every other node.\<close>

theorem prepare_socket_dir_private:
  assumes "prepare_socket_dir faults umask euid dir nodes = Inr nodes'"
  shows "\<exists>n. nodes' dir = Some n \<and> is_dir n \<and> node_uid n = euid \<and> node_mode n AND group_other = 0 \<and>
     (nodes dir \<noteq> None \<longrightarrow> nodes' = nodes) \<and> (\<forall>q. q \<noteq> dir \<longrightarrow> nodes' q = nodes q)"
  using prepare_private [OF assms] by (auto simp: private_dir_def)

theorem prepare_socket_dir_private_witness:
  "\<exists>n. (Map.empty(str ''/run/x'' \<mapsto> \<lparr>is_dir = True, node_uid = 0, node_mode = 0x1C0\<rparr>)) (str ''/run/x'') = Some n
     \<and> node_mode n AND group_other = 0"
proof -
  have "prepare_socket_dir \<lparr>parents_err = None, create_err = None, stat_err = None\<rparr> 0x12 0 (str ''/run/x'')
      Map.empty = Inr (Map.empty(str ''/run/x'' \<mapsto> \<lparr>is_dir = True, node_uid = 0, node_mode = 0x1C0\<rparr>))"
    by (simp add: prepare_socket_dir_def)
  from prepare_socket_dir_private [OF this] show ?thesis by auto
qed

end
