(* ===== verification/Disk_Plan.thy ===== *)
theory Disk_Plan
  imports Rust_Str
begin

text \<open>
  The pure half of the /var disk manager, \<open>packages/var-disk-manager/src/lib.rs\<close>: the
  classification of one disk from its probe, the plan for the whole set of disks, and the
  small parsers the daemon bases its decisions on.  Disk ids, labels and probe values are
  code point lists; \<open>option\<close> is the source's \<open>Option\<close>.
\<close>

section \<open>Data\<close>

definition VAR_TYPE_GUID :: rstr where
  "VAR_TYPE_GUID = str ''4d21b016-b534-45c2-a9fb-5c16e091fd2d''"

record identity =
  luks_partuuid :: rstr
  fs_label :: rstr
  mapper :: rstr

datatype disk_class = Luks | Legacy | Blank | Foreign

record disk_info =
  di_id :: rstr
  di_class :: disk_class
  di_detail :: message

datatype prompt_kind = UnlockPassphrase | NewPassphrase | RepeatPassphrase | Confirm

datatype mapper_fs = Btrfs | Empty | Other rstr | Unknown

record disk_probe =
  probe_id :: rstr
  has_part1 :: bool
  part_fstype :: "rstr option"
  part_partuuid :: "rstr option"
  disk_pttype :: "rstr option"
  disk_fstype :: "rstr option"

datatype disk_plan =
    PlanUnlock rstr
  | PlanBootLegacy rstr
  | PlanMigrate rstr rstr
  | PlanProvision rstr
  | PlanBlock message
  | PlanNoDisks

section \<open>Operations\<close>

definition parse_confirm :: "rstr \<Rightarrow> bool option" where
  "parse_confirm answer =
     (let a = to_ascii_lowercase (trim answer) in
      if a = str ''y'' \<or> a = str ''yes'' then Some True
      else if a = str ''n'' \<or> a = str ''no'' then Some False
      else None)"

definition mapper_fs_from_blkid :: "int option \<Rightarrow> rstr \<Rightarrow> mapper_fs" where
  "mapper_fs_from_blkid code out =
     (if code = Some 0 then
        (if trim out = str ''btrfs'' then Btrfs
         else if trim out = [] then Unknown
         else Other (trim out))
      else if code = Some 2 then Empty
      else Unknown)"

definition unwrap_or :: "'a \<Rightarrow> 'a option \<Rightarrow> 'a" where
  "unwrap_or d x = (case x of None \<Rightarrow> d | Some a \<Rightarrow> a)"

definition classify :: "disk_probe \<Rightarrow> rstr \<Rightarrow> disk_class" where
  "classify p luks_uuid =
     (if has_part1 p then
        (let fstype = unwrap_or [] (part_fstype p); partuuid = unwrap_or [] (part_partuuid p) in
         if fstype = str ''crypto_LUKS'' \<and> eq_ignore_ascii_case partuuid luks_uuid then Luks
         else if fstype = str ''btrfs'' \<and> eq_ignore_ascii_case partuuid VAR_TYPE_GUID then Legacy
         else Foreign)
      else if disk_pttype p = None \<and> disk_fstype p = None then Blank
      else Foreign)"

definition of_class :: "disk_class \<Rightarrow> (rstr \<times> disk_class) list \<Rightarrow> rstr list" where
  "of_class c disks = map fst (filter (\<lambda>(i, k). k = c) disks)"

definition first :: "'a list \<Rightarrow> 'a option" where
  "first xs = (case xs of [] \<Rightarrow> None | x # _ \<Rightarrow> Some x)"

definition too_many :: "string \<times> rstr list \<Rightarrow> message option" where
  "too_many = (\<lambda>(kind, ids). if 1 < length ids
     then Some (Fmt ''multiple {} volumes attached ({}); detach the extra volume and power-cycle''
                 [lit kind, Str (join (str '', '') ids)])
     else None)"

definition plan :: "(rstr \<times> disk_class) list \<Rightarrow> disk_plan" where
  "plan disks =
     (let luks = of_class Luks disks; legacy = of_class Legacy disks; blanks = of_class Blank disks in
      case find_map too_many [(''LUKS'', luks), (''legacy var'', legacy), (''blank'', blanks)] of
        Some reason \<Rightarrow> PlanBlock reason
      | None \<Rightarrow>
          (case (first luks, first legacy, first blanks) of
             (Some l, Some old, _) \<Rightarrow> PlanBlock
               (Fmt ''UNENCRYPTED DISK STILL ATTACHED: detach old volume {} from this machine and power-cycle (encrypted volume {} stays)'' [Str old, Str l])
           | (Some l, None, _) \<Rightarrow> PlanUnlock l
           | (None, Some old, Some new) \<Rightarrow> PlanMigrate old new
           | (None, Some old, None) \<Rightarrow> PlanBootLegacy old
           | (None, None, Some new) \<Rightarrow> PlanProvision new
           | (None, None, None) \<Rightarrow> PlanNoDisks))"

text \<open>The wildcard characters are the star (42), the question mark (63) and the bracket (91).\<close>

definition split_prefix_glob :: "rstr \<Rightarrow> (rstr \<times> rstr) option" where
  "split_prefix_glob glob =
     (case strip_suffix_char glob 42 of
        None \<Rightarrow> None
      | Some rest \<Rightarrow>
          if list_ex (\<lambda>c. c = 42 \<or> c = 63 \<or> c = 91) rest then None
          else (case rsplit_once 47 rest of
              None \<Rightarrow> None
            | Some (dir, pre) \<Rightarrow> if dir = [] \<or> pre = [] then None else Some (dir, pre)))"

definition used_line :: "rstr \<Rightarrow> nat option" where
  "used_line line =
     (let t = trim_start line in
      if starts_with t (str ''Used:'') \<and> line \<noteq> [] \<and> is_whitespace (hd line)
      then (case strip_prefix t (str ''Used:'') of
              None \<Rightarrow> None
            | Some r \<Rightarrow> parse_uint 18446744073709551615 (trim r))
      else None)"

definition parse_btrfs_used :: "rstr \<Rightarrow> nat option" where
  "parse_btrfs_used output = find_map used_line (lines output)"

section \<open>Classification\<close>

lemma classify_Blank_iff:
  "classify p u = Blank \<longleftrightarrow> \<not> has_part1 p \<and> disk_pttype p = None \<and> disk_fstype p = None"
  by (simp add: classify_def Let_def)

lemma classify_Luks_iff:
  "classify p u = Luks \<longleftrightarrow> has_part1 p \<and> part_fstype p = Some (str ''crypto_LUKS'') \<and>
     (\<exists>v. unwrap_or [] (part_partuuid p) = v \<and> eq_ignore_ascii_case v u)"
  by (auto simp: classify_def Let_def unwrap_or_def split: option.splits)

section \<open>Plans\<close>

lemma of_class_set: "set (of_class c disks) = {i. (i, c) \<in> set disks}"
  by (force simp: of_class_def)

lemma first_Some_iff: "first xs = Some x \<longleftrightarrow> (\<exists>ys. xs = x # ys)"
  by (cases xs) (auto simp: first_def)

lemma first_None_iff: "first xs = None \<longleftrightarrow> xs = []"
  by (cases xs) (auto simp: first_def)

text \<open>
  The plan as a table over the three lists: a disk is touched only when it is the only one
  of its class, and an encrypted and an unencrypted volume never boot together.
\<close>

lemmas list_shapes = remdups_adj.cases [case_names none one more]

lemma plan_table:
  "(plan disks = PlanUnlock l \<longleftrightarrow> of_class Luks disks = [l] \<and> of_class Legacy disks = [] \<and>
      length (of_class Blank disks) \<le> 1) \<and>
   (plan disks = PlanBootLegacy old \<longleftrightarrow> of_class Luks disks = [] \<and> of_class Legacy disks = [old] \<and>
      of_class Blank disks = []) \<and>
   (plan disks = PlanMigrate old new \<longleftrightarrow> of_class Luks disks = [] \<and> of_class Legacy disks = [old] \<and>
      of_class Blank disks = [new]) \<and>
   (plan disks = PlanProvision new \<longleftrightarrow> of_class Luks disks = [] \<and> of_class Legacy disks = [] \<and>
      of_class Blank disks = [new]) \<and>
   (plan disks = PlanNoDisks \<longleftrightarrow> of_class Luks disks = [] \<and> of_class Legacy disks = [] \<and>
      of_class Blank disks = []) \<and>
   ((\<exists>r. plan disks = PlanBlock r) \<longleftrightarrow>
      1 < length (of_class Luks disks) \<or> 1 < length (of_class Legacy disks) \<or>
      1 < length (of_class Blank disks) \<or>
      (of_class Luks disks \<noteq> [] \<and> of_class Legacy disks \<noteq> []))"
  by (cases "of_class Luks disks" rule: list_shapes; cases "of_class Legacy disks" rule: list_shapes;
      cases "of_class Blank disks" rule: list_shapes)
     (simp_all add: plan_def first_def too_many_def)

section \<open>Parsers\<close>

lemma split_prefix_glob_Some_iff:
  "split_prefix_glob g = Some (dir, pre) \<longleftrightarrow>
     g = dir @ 47 # pre @ [42] \<and> dir \<noteq> [] \<and> pre \<noteq> [] \<and> 47 \<notin> set pre \<and>
     (\<forall>c\<in>set (dir @ pre). c \<noteq> 42 \<and> c \<noteq> 63 \<and> c \<noteq> 91)"
proof -
  let ?bad = "\<lambda>c. c = 42 \<or> c = 63 \<or> c = (91 :: rchar)"
  have "split_prefix_glob g = Some (dir, pre) \<longleftrightarrow>
     (\<exists>rest. strip_suffix_char g 42 = Some rest \<and> \<not> list_ex ?bad rest \<and>
        rsplit_once 47 rest = Some (dir, pre) \<and> dir \<noteq> [] \<and> pre \<noteq> [])"
    by (cases "strip_suffix_char g 42") (auto simp: split_prefix_glob_def split: option.splits if_splits)
  also have "\<dots> \<longleftrightarrow> (\<exists>rest. g = rest @ [42] \<and> \<not> list_ex ?bad rest \<and>
      (rest = dir @ 47 # pre \<and> 47 \<notin> set pre) \<and> dir \<noteq> [] \<and> pre \<noteq> [])"
    by (simp only: strip_suffix_char_Some_iff rsplit_once_Some_iff)
  also have "\<dots> \<longleftrightarrow> g = dir @ 47 # pre @ [42] \<and> dir \<noteq> [] \<and> pre \<noteq> [] \<and> 47 \<notin> set pre \<and>
      (\<forall>c\<in>set (dir @ pre). c \<noteq> 42 \<and> c \<noteq> 63 \<and> c \<noteq> 91)"
    by (force simp: list_ex_iff)
  finally show ?thesis .
qed

end
