(* ===== verification/Disk_Daemon.thy ===== *)
theory Disk_Daemon
  imports Disk_Plan "HOL-Library.List_Lexorder"
begin

text \<open>
  var-disk-managerd, \<open>packages/var-disk-manager/src/bin/daemon.rs\<close>: the UI hub, the
  subprocess helpers, the enumeration and probing of the data disks, and the operations on
  them: unlock, format, migrate, provision.

  The daemon does its disk work through external tools, so the model's effect is the list of
  commands it ran.  \<open>dtrace\<close> records, newest first, every command with its result, every
  published snapshot and every answer an operator gave.  The environment \<open>disk_env\<close> decides
  what a command prints and how it exits; it is asked with the position in the trace, so
  the same command may answer differently each time.
\<close>

section \<open>State\<close>

record disk_prompt =
  dp_id :: nat
  dp_kind :: prompt_kind
  dp_text :: message

record disk_snapshot =
  dn_phase :: string
  dn_message :: message
  dn_blocked :: bool
  dn_disks :: "disk_info list"
  dn_progress :: "(nat \<times> nat) option"
  dn_prompt :: "disk_prompt option"
  dn_fingerprint :: "rstr option"

definition empty_snapshot :: disk_snapshot where
  "empty_snapshot = \<lparr>dn_phase = [], dn_message = Str [], dn_blocked = False, dn_disks = [],
     dn_progress = None, dn_prompt = None, dn_fingerprint = None\<rparr>"

record command =
  prog_name :: string
  cmd_args :: "rstr list"
  cmd_stdin :: "rstr option"

text \<open>
  \<open>Exited\<close> has the exit code (\<open>None\<close>: killed by a signal), what the command printed on its
  two outputs, and the error of writing its standard input, if any.
\<close>

datatype cmd_result =
    SpawnFailed message
  | NoPipe
  | WaitErr message
  | Exited "int option" rstr rstr "message option"

record copy_run =
  copy_setup :: "message option"
  copy_chunks :: "(nat \<times> bool) list"
  copy_broken :: "message option"
  send_exit :: "message + int option"
  recv_exit :: "message + int option"
  send_stderr :: rstr
  recv_stderr :: rstr

datatype dm_event =
    Showed disk_snapshot
  | Ran command cmd_result
  | Typed prompt_kind message rstr
  | Looked
  | MadeDir string
  | Copied copy_run
  | Napped

record disk_state =
  dsnap :: disk_snapshot
  dnext_id :: nat
  dinbox :: "(nat \<times> rstr) list"
  dtrace :: "dm_event list"

record disk_env =
  d_run :: "nat \<Rightarrow> command \<Rightarrow> cmd_result"
  d_exists :: "nat \<Rightarrow> rstr \<Rightarrow> bool"
  d_list :: "nat \<Rightarrow> rstr \<Rightarrow> rstr list option"
  d_mkdir :: "nat \<Rightarrow> string \<Rightarrow> message option"
  d_copy :: "nat \<Rightarrow> copy_run"

record disk_cfg =
  by_id_dir :: rstr
  vol_prefix :: rstr
  ident :: identity
  min_passphrase_len :: nat

type_synonym 'a diskd = "(disk_state, message, 'a) prog"

definition SIZE_HEADROOM :: nat where "SIZE_HEADROOM = 2 ^ 30"
definition GROW_THRESHOLD :: nat where "GROW_THRESHOLD = 16 * 2 ^ 20"
definition LUKS_HEADER_SLACK :: nat where "LUKS_HEADER_SLACK = 64 * 2 ^ 20"

text \<open>Addition of \<open>u64\<close> in a release build.\<close>

definition add64 :: "nat \<Rightarrow> nat \<Rightarrow> nat" where
  "add64 a b = (a + b) mod 2 ^ 64"

section \<open>The UI hub\<close>

definition push :: "dm_event \<Rightarrow> disk_state \<Rightarrow> disk_state" where
  "push e s = s\<lparr>dtrace := e # dtrace s\<rparr>"

definition record_event :: "dm_event \<Rightarrow> unit diskd" where
  "record_event e = update_state (push e)"

definition dmutate :: "(disk_snapshot \<Rightarrow> disk_snapshot) \<Rightarrow> unit diskd" where
  "dmutate f = update_state (\<lambda>s. push (Showed (f (dsnap s))) (s\<lparr>dsnap := f (dsnap s)\<rparr>))"

definition dstate :: "string \<Rightarrow> message \<Rightarrow> unit diskd" where
  "dstate ph m = dmutate (\<lambda>sn. sn\<lparr>dn_phase := ph, dn_message := m\<rparr>)"

definition progress :: "nat \<Rightarrow> nat \<Rightarrow> unit diskd" where
  "progress copied whole = dmutate (\<lambda>sn. sn\<lparr>dn_progress := Some (copied, whole)\<rparr>)"

definition answer_of :: "nat \<Rightarrow> nat \<times> rstr \<Rightarrow> rstr option" where
  "answer_of i m = (if fst m = i then Some (snd m) else None)"

interpretation prompt: mailbox answer_of
  by unfold_locales (auto simp: answer_of_def split: if_splits)

definition wait_for_answer :: "nat \<Rightarrow> prompt_kind \<Rightarrow> message \<Rightarrow> rstr diskd" where
  "wait_for_answer i kind t = (\<lambda>s. case take_answer (answer_of i) (dinbox s) of
      Some (v, rest) \<Rightarrow> (Done v, push (Typed kind t v) (s\<lparr>dinbox := rest\<rparr>))
    | None \<Rightarrow> (Waiting, s\<lparr>dinbox := []\<rparr>))"

definition dask :: "prompt_kind \<Rightarrow> message \<Rightarrow> rstr diskd" where
  "dask kind t =
     bnd (\<lambda>s. (Done (Suc (dnext_id s)), s\<lparr>dnext_id := Suc (dnext_id s)\<rparr>)) (\<lambda>i.
     bnd (dmutate (\<lambda>sn. sn\<lparr>dn_prompt := Some \<lparr>dp_id = i, dp_kind = kind, dp_text = t\<rparr>\<rparr>)) (\<lambda>_.
     bnd (wait_for_answer i kind t) (\<lambda>v.
     bnd (dmutate (\<lambda>sn. sn\<lparr>dn_prompt := None\<rparr>)) (\<lambda>_.
     ret v))))"

text \<open>A loop that asks in every turn needs one turn more than there are messages.\<close>

definition asking :: "('x \<Rightarrow> ('a + 'x) diskd) \<Rightarrow> 'x \<Rightarrow> 'a diskd" where
  "asking body x = (\<lambda>s. loop (Suc (length (dinbox s))) body x s)"

definition confirm_turn :: "message \<Rightarrow> (bool + unit) diskd" where
  "confirm_turn t =
     bnd (dask Confirm t) (\<lambda>a. case parse_confirm a of
         Some yes \<Rightarrow> ret (Inl yes)
       | None \<Rightarrow> bnd (dstate ''prompt'' (lit ''please answer y or n'')) (\<lambda>_. ret (Inr ())))"

definition ask_confirm :: "message \<Rightarrow> bool diskd" where
  "ask_confirm t = asking (\<lambda>_. confirm_turn t) ()"

text \<open>\<open>block_forever\<close> never returns; its keepalive publishes the same snapshot again.\<close>

definition block_forever :: "message \<Rightarrow> 'a diskd" where
  "block_forever reason =
     bnd (dstate ''blocked'' (Fmt ''BLOCKED: {}'' [reason])) (\<lambda>_.
     bnd (dmutate (\<lambda>sn. sn\<lparr>dn_blocked := True, dn_progress := None\<rparr>)) (\<lambda>_.
     park))"

section \<open>Subprocesses\<close>

definition exec :: "disk_env \<Rightarrow> command \<Rightarrow> cmd_result diskd" where
  "exec E c = (\<lambda>s. let r = d_run E (length (dtrace s)) c in (Done r, push (Ran c r) s))"

definition status_text :: "int option \<Rightarrow> message" where
  "status_text code = (case code of
      Some c \<Rightarrow> Fmt ''exit status: {}'' [Num (nat c)]
    | None \<Rightarrow> lit ''signal'')"

definition cmd_failed :: "command \<Rightarrow> int option \<Rightarrow> rstr \<Rightarrow> 'a diskd" where
  "cmd_failed c code err =
     fail (Fmt ''{} {} failed ({}): {}''
       [lit (prog_name c), Str (join (str '' '') (cmd_args c)), status_text code, Str (trim err)])"

definition run_ok :: "disk_env \<Rightarrow> string \<Rightarrow> rstr list \<Rightarrow> rstr diskd" where
  "run_ok E p args =
     (let c = \<lparr>prog_name = p, cmd_args = args, cmd_stdin = None\<rparr> in
      bnd (exec E c) (\<lambda>r. case r of
          SpawnFailed e \<Rightarrow> fail (Fmt ''spawning {}: {}'' [lit p, e])
        | NoPipe \<Rightarrow> fail (Fmt ''spawning {}: no pipe'' [lit p])
        | WaitErr e \<Rightarrow> fail (Fmt ''spawning {}: {}'' [lit p, e])
        | Exited code out err w \<Rightarrow> if code = Some 0 then ret out else cmd_failed c code err))"

definition probe_value :: "disk_env \<Rightarrow> string \<Rightarrow> rstr list \<Rightarrow> rstr option diskd" where
  "probe_value E p args =
     bnd (exec E \<lparr>prog_name = p, cmd_args = args, cmd_stdin = None\<rparr>) (\<lambda>r. case r of
         SpawnFailed e \<Rightarrow> fail (Fmt ''spawning {}: {}'' [lit p, e])
       | NoPipe \<Rightarrow> fail (Fmt ''spawning {}: no pipe'' [lit p])
       | WaitErr e \<Rightarrow> fail (Fmt ''spawning {}: {}'' [lit p, e])
       | Exited code out err w \<Rightarrow>
           ret (if code = Some 0 \<and> trim out \<noteq> [] then Some (trim out) else None))"

definition run_with_stdin :: "disk_env \<Rightarrow> string \<Rightarrow> rstr list \<Rightarrow> rstr \<Rightarrow> unit diskd" where
  "run_with_stdin E p args secret =
     (let c = \<lparr>prog_name = p, cmd_args = args, cmd_stdin = Some secret\<rparr> in
      bnd (exec E c) (\<lambda>r. case r of
          SpawnFailed e \<Rightarrow> fail (Fmt ''spawning {}: {}'' [lit p, e])
        | NoPipe \<Rightarrow> fail (lit ''no stdin pipe'')
        | WaitErr e \<Rightarrow> fail e
        | Exited code out err w \<Rightarrow>
            if code \<noteq> Some 0 then cmd_failed c code err
            else (case w of
                Some e \<Rightarrow> fail (Fmt ''writing key material to {} stdin: {}'' [lit p, e])
              | None \<Rightarrow> ret ())))"

text \<open>A command whose failure is ignored: \<open>let _ = Command::new(...)...\<close>.\<close>

definition run_quietly :: "disk_env \<Rightarrow> string \<Rightarrow> rstr list \<Rightarrow> unit diskd" where
  "run_quietly E p args =
     bnd (exec E \<lparr>prog_name = p, cmd_args = args, cmd_stdin = None\<rparr>) (\<lambda>_. ret ())"

definition settle :: "disk_env \<Rightarrow> unit diskd" where
  "settle E = run_quietly E ''udevadm'' [str ''settle'', str ''--timeout=30'']"

definition make_dir :: "disk_env \<Rightarrow> string \<Rightarrow> unit diskd" where
  "make_dir E p = (\<lambda>s. (case d_mkdir E (length (dtrace s)) p of
      None \<Rightarrow> Done () | Some e \<Rightarrow> Failed e, push (MadeDir p) s))"

definition path_exists :: "disk_env \<Rightarrow> rstr \<Rightarrow> bool diskd" where
  "path_exists E p = (\<lambda>s. (Done (d_exists E (length (dtrace s)) p), push Looked s))"

section \<open>Enumeration and probing\<close>

definition list_volumes :: "disk_env \<Rightarrow> disk_cfg \<Rightarrow> rstr list diskd" where
  "list_volumes E cfg = (\<lambda>s.
     (Done (sort (case d_list E (length (dtrace s)) (by_id_dir cfg) of
          None \<Rightarrow> []
        | Some names \<Rightarrow>
            filter (\<lambda>n. starts_with n (vol_prefix cfg) \<and> \<not> contains n (str ''-part'')) names)),
      push Looked s))"

definition dev :: "disk_cfg \<Rightarrow> rstr \<Rightarrow> rstr" where
  "dev cfg i = by_id_dir cfg @ str ''/'' @ i"

definition part1 :: "disk_cfg \<Rightarrow> rstr \<Rightarrow> rstr" where
  "part1 cfg i = by_id_dir cfg @ str ''/'' @ i @ str ''-part1''"

definition mapper_dev :: "disk_cfg \<Rightarrow> rstr" where
  "mapper_dev cfg = str ''/dev/mapper/'' @ mapper (ident cfg)"

definition parse_u64 :: "rstr \<Rightarrow> nat diskd" where
  "parse_u64 t = (case parse_uint 18446744073709551615 t of
      Some n \<Rightarrow> ret n
    | None \<Rightarrow> fail (Fmt ''not a number: {}'' [Str t]))"

definition blockdev_bytes :: "disk_env \<Rightarrow> rstr \<Rightarrow> nat diskd" where
  "blockdev_bytes E p =
     bnd (run_ok E ''blockdev'' [str ''--getsize64'', p]) (\<lambda>out. parse_u64 (trim out))"

text \<open>The partition every format and every growth writes: one, with the deployment's id.\<close>

definition part_args :: "disk_cfg \<Rightarrow> rstr \<Rightarrow> rstr list" where
  "part_args cfg disk =
     [str ''-n'', str ''1:0:0'', str ''-t'', str ''1:'' @ VAR_TYPE_GUID,
      str ''-u'', str ''1:'' @ luks_partuuid (ident cfg), str ''-c'', str ''1:var'', disk]"

definition maybe_grow_partition :: "disk_env \<Rightarrow> disk_cfg \<Rightarrow> rstr \<Rightarrow> bool diskd" where
  "maybe_grow_partition E cfg i =
     bnd (blockdev_bytes E (dev cfg i)) (\<lambda>disk_bytes.
     bnd (blockdev_bytes E (part1 cfg i)) (\<lambda>part_bytes.
       if disk_bytes \<le> add64 part_bytes GROW_THRESHOLD then ret False
       else
         bnd (dstate ''grow/partition''
               (Fmt ''volume {} was enlarged; extending the partition to fill it'' [Str i])) (\<lambda>_.
         bnd (run_ok E ''sgdisk'' [str ''-e'', dev cfg i]) (\<lambda>_.
         bnd (run_ok E ''sgdisk'' (str ''-d'' # str ''1'' # part_args cfg (dev cfg i))) (\<lambda>_.
         bnd (settle E) (\<lambda>_.
         ret True))))))"

definition blkid_args :: "string \<Rightarrow> rstr \<Rightarrow> rstr list" where
  "blkid_args what p = [str ''-o'', str ''value'', str ''-s'', str what, p]"

definition probe :: "disk_env \<Rightarrow> disk_cfg \<Rightarrow> rstr \<Rightarrow> disk_probe diskd" where
  "probe E cfg i =
     bnd (path_exists E (part1 cfg i)) (\<lambda>has.
     bnd (if has then probe_value E ''blkid'' (blkid_args ''TYPE'' (part1 cfg i)) else ret None) (\<lambda>fstype.
     bnd (if has then probe_value E ''lsblk'' [str ''-rno'', str ''PARTUUID'', part1 cfg i]
          else ret None) (\<lambda>partuuid.
     bnd (probe_value E ''blkid'' (blkid_args ''PTTYPE'' (dev cfg i))) (\<lambda>pttype.
     bnd (probe_value E ''blkid'' (blkid_args ''TYPE'' (dev cfg i))) (\<lambda>dfstype.
     ret \<lparr>probe_id = i, has_part1 = has, part_fstype = fstype, part_partuuid = partuuid,
          disk_pttype = pttype, disk_fstype = dfstype\<rparr>)))))"

definition detail :: "disk_probe \<Rightarrow> message" where
  "detail p =
     (if has_part1 p then
        Fmt ''part1 fstype={} partuuid={}''
          [Str (unwrap_or (str ''-'') (part_fstype p)), Str (unwrap_or (str ''-'') (part_partuuid p))]
      else Fmt ''pttype={} fstype={}''
          [Str (unwrap_or (str ''-'') (disk_pttype p)), Str (unwrap_or (str ''-'') (disk_fstype p))])"

section \<open>Passphrases\<close>

definition new_passphrase_turn :: "disk_cfg \<Rightarrow> (rstr + unit) diskd" where
  "new_passphrase_turn cfg =
     bnd (dask NewPassphrase (lit ''New LUKS passphrase for this server's /var volume'')) (\<lambda>a.
       if length a < min_passphrase_len cfg then
         bnd (dstate ''prompt'' (Fmt ''passphrase too short (min {} chars), asking again''
               [Num (min_passphrase_len cfg)])) (\<lambda>_. ret (Inr ()))
       else
         bnd (dask RepeatPassphrase (lit ''Repeat passphrase'')) (\<lambda>b.
           if a = b then ret (Inl a)
           else bnd (dstate ''prompt'' (lit ''passphrases did not match, asking again'')) (\<lambda>_.
                ret (Inr ()))))"

definition ask_new_passphrase :: "disk_cfg \<Rightarrow> rstr diskd" where
  "ask_new_passphrase cfg = asking (\<lambda>_. new_passphrase_turn cfg) ()"

section \<open>Disk operations\<close>

text \<open>The wait for a partition's device node: up to that many looks, half a second apart.\<close>

fun wait_for_node :: "nat \<Rightarrow> disk_env \<Rightarrow> rstr \<Rightarrow> unit diskd" where
  "wait_for_node 0 E p = ret ()"
| "wait_for_node (Suc n) E p =
     bnd (path_exists E p) (\<lambda>there.
       if there then ret ()
       else bnd (record_event Napped) (\<lambda>_. wait_for_node n E p))"

definition mkfs_mapper :: "disk_env \<Rightarrow> disk_cfg \<Rightarrow> rstr diskd" where
  "mkfs_mapper E cfg = run_ok E ''mkfs.btrfs'' [str ''-L'', fs_label (ident cfg), mapper_dev cfg]"

definition partition_disk :: "disk_env \<Rightarrow> disk_cfg \<Rightarrow> rstr \<Rightarrow> unit diskd" where
  "partition_disk E cfg i =
     bnd (dstate ''format/partition'' (Fmt ''partitioning {}'' [Str i])) (\<lambda>_.
     bnd (run_ok E ''sgdisk'' [str ''--zap-all'', dev cfg i]) (\<lambda>_.
     bnd (run_ok E ''sgdisk'' (part_args cfg (dev cfg i))) (\<lambda>_.
     bnd (settle E) (\<lambda>_.
     bnd (wait_for_node 60 E (part1 cfg i)) (\<lambda>_.
     bnd (path_exists E (part1 cfg i)) (\<lambda>there.
     if there then ret () else fail (Fmt ''partition {} did not appear'' [Str (part1 cfg i)])))))))"

definition format_encrypted :: "disk_env \<Rightarrow> disk_cfg \<Rightarrow> rstr \<Rightarrow> rstr \<Rightarrow> unit diskd" where
  "format_encrypted E cfg i passphrase =
     bnd (partition_disk E cfg i) (\<lambda>_.
     bnd (dstate ''format/luks'' (Fmt ''creating LUKS2 container on {}-part1'' [Str i])) (\<lambda>_.
     bnd (run_with_stdin E ''cryptsetup''
           [str ''luksFormat'', str ''--type'', str ''luks2'', str ''--label'', str ''var-crypt'',
            str ''--batch-mode'', str ''--key-file'', str ''-'', part1 cfg i] passphrase) (\<lambda>_.
     bnd (run_with_stdin E ''cryptsetup''
           [str ''open'', str ''--key-file'', str ''-'', str ''--allow-discards'',
            str ''--persistent'', part1 cfg i, mapper (ident cfg)] passphrase) (\<lambda>_.
     bnd (dstate ''format/mkfs'' (Fmt ''creating btrfs on /dev/mapper/{}''
           [Str (mapper (ident cfg))])) (\<lambda>_.
     bnd (mkfs_mapper E cfg) (\<lambda>_.
     settle E))))))"

definition subvol_exists :: "disk_env \<Rightarrow> rstr \<Rightarrow> bool diskd" where
  "subvol_exists E p =
     bnd (exec E \<lparr>prog_name = ''btrfs'', cmd_args = [str ''subvolume'', str ''show'', p], cmd_stdin = None\<rparr>)
       (\<lambda>r. ret (case r of Exited code _ _ _ \<Rightarrow> code = Some 0 | _ \<Rightarrow> False))"

definition mount_top :: "disk_env \<Rightarrow> rstr \<Rightarrow> rstr \<Rightarrow> rstr diskd" where
  "mount_top E device at = run_ok E ''mount'' [str ''-o'', str ''subvol=/'', device, at]"

definition create_var_subvol :: "disk_env \<Rightarrow> disk_cfg \<Rightarrow> unit diskd" where
  "create_var_subvol E cfg =
     bnd (make_dir E ''/new-var-fs'') (\<lambda>_.
     bnd (mount_top E (mapper_dev cfg) (str ''/new-var-fs'')) (\<lambda>_.
     bnd (run_ok E ''btrfs'' [str ''subvolume'', str ''create'', str ''/new-var-fs/var'']) (\<lambda>_.
     bnd (run_ok E ''umount'' [str ''/new-var-fs'']) (\<lambda>_.
     ret ()))))"

definition unlock_turn :: "disk_env \<Rightarrow> disk_cfg \<Rightarrow> rstr \<Rightarrow> (rstr + unit) diskd" where
  "unlock_turn E cfg i =
     bnd (dask UnlockPassphrase (Fmt ''Passphrase for /var volume ({})'' [Str i])) (\<lambda>pw.
     bnd (dstate ''unlock'' (lit ''unlocking...'')) (\<lambda>_.
     bnd (attempt (run_with_stdin E ''cryptsetup''
           [str ''open'', str ''--key-file'', str ''-'', str ''--allow-discards'',
            part1 cfg i, mapper (ident cfg)] pw)) (\<lambda>r. case r of
         Inr _ \<Rightarrow> ret (Inl pw)
       | Inl e \<Rightarrow> bnd (dstate ''unlock'' (Fmt ''unlock failed ({}); asking again'' [e])) (\<lambda>_.
                  ret (Inr ())))))"

text \<open>The mapping follows the partition when that grew now or in a boot that died before this.\<close>

definition resize_mapping :: "disk_env \<Rightarrow> disk_cfg \<Rightarrow> rstr \<Rightarrow> bool \<Rightarrow> rstr \<Rightarrow> unit diskd" where
  "resize_mapping E cfg i grew pw =
     bnd (if grew then ret True
          else bnd (blockdev_bytes E (part1 cfg i)) (\<lambda>part_bytes.
               bnd (blockdev_bytes E (mapper_dev cfg)) (\<lambda>mapper_bytes.
               ret (add64 mapper_bytes LUKS_HEADER_SLACK < part_bytes)))) (\<lambda>needed.
     if needed then
       bnd (dstate ''grow/luks'' (lit ''extending the LUKS mapping to the grown partition'')) (\<lambda>_.
       bnd (run_with_stdin E ''cryptsetup''
             [str ''resize'', str ''--key-file'', str ''-'', mapper (ident cfg)] pw) (\<lambda>_.
       settle E))
     else ret ())"

definition probe_mapper :: "disk_env \<Rightarrow> disk_cfg \<Rightarrow> mapper_fs diskd" where
  "probe_mapper E cfg =
     bnd (exec E \<lparr>prog_name = ''blkid'', cmd_args = blkid_args ''TYPE'' (mapper_dev cfg),
                  cmd_stdin = None\<rparr>) (\<lambda>r.
       ret (case r of
          Exited code out _ _ \<Rightarrow> mapper_fs_from_blkid code out
        | _ \<Rightarrow> mapper_fs_from_blkid None []))"

definition unlock_btrfs :: "disk_env \<Rightarrow> disk_cfg \<Rightarrow> rstr \<Rightarrow> unit diskd" where
  "unlock_btrfs E cfg i =
     bnd (make_dir E ''/new-var-fs'') (\<lambda>_.
     bnd (mount_top E (mapper_dev cfg) (str ''/new-var-fs'')) (\<lambda>_.
     bnd (run_ok E ''btrfs'' [str ''filesystem'', str ''resize'', str ''max'', str ''/new-var-fs'']) (\<lambda>_.
     bnd (subvol_exists E (str ''/new-var-fs/var'')) (\<lambda>have_subvol.
     bnd (if have_subvol then ret ()
          else
            bnd (ask_confirm (Fmt ''Volume {} has a btrfs filesystem but no 'var' subvolume (the boot mounts subvol=var). Create it now? This is additive and erases nothing. Only expected on a fresh/half-provisioned volume; if this volume should already hold data, answer n and investigate. [y/n]'' [Str i])) (\<lambda>yes.
              if yes then
                bnd (run_ok E ''btrfs'' [str ''subvolume'', str ''create'', str ''/new-var-fs/var'']) (\<lambda>_.
                ret ())
              else
                bnd (run_ok E ''umount'' [str ''/new-var-fs'']) (\<lambda>_.
                block_forever (Fmt ''volume {} has btrfs but no 'var' subvolume and the operator DECLINED to create it. Nothing was written. Investigate (mapper open at {}), or power-cycle to be asked again.'' [Str i, Str (mapper_dev cfg)])))) (\<lambda>_.
     bnd (run_ok E ''umount'' [str ''/new-var-fs'']) (\<lambda>_.
     ret ()))))))"

definition unlock_empty :: "disk_env \<Rightarrow> disk_cfg \<Rightarrow> rstr \<Rightarrow> unit diskd" where
  "unlock_empty E cfg i =
     bnd (ask_confirm (Fmt ''Volume {} is unlocked but contains no filesystem. Format it as btrfs (label {})? This erases nothing - the volume is empty. This is only safe if this is a fresh/half-provisioned volume; if you expected data here, answer n and investigate (nothing will be written on n). [y/n]'' [Str i, Str (fs_label (ident cfg))])) (\<lambda>yes.
       if yes then
         bnd (dstate ''format/mkfs'' (Fmt ''creating btrfs on {}'' [Str (mapper_dev cfg)])) (\<lambda>_.
         bnd (mkfs_mapper E cfg) (\<lambda>_.
         bnd (settle E) (\<lambda>_.
         create_var_subvol E cfg)))
       else
         block_forever (Fmt ''volume {} is unlocked but has no filesystem and the operator DECLINED to format it. Nothing was written; the volume is untouched. If this volume should hold data, investigate now - the mapper is still open at {}. To format manually: mkfs.btrfs -L {} {}, then reboot. Or simply power-cycle to be asked again.''
           [Str i, Str (mapper_dev cfg), Str (fs_label (ident cfg)), Str (mapper_dev cfg)]))"

definition unlock :: "disk_env \<Rightarrow> disk_cfg \<Rightarrow> rstr \<Rightarrow> unit diskd" where
  "unlock E cfg i =
     bnd (maybe_grow_partition E cfg i) (\<lambda>grew.
     bnd (asking (\<lambda>_. unlock_turn E cfg i) ()) (\<lambda>pw.
     bnd (settle E) (\<lambda>_.
     bnd (resize_mapping E cfg i grew pw) (\<lambda>_.
     bnd (probe_mapper E cfg) (\<lambda>found.
     bnd (case found of
          Btrfs \<Rightarrow> unlock_btrfs E cfg i
        | Empty \<Rightarrow> unlock_empty E cfg i
        | Other t \<Rightarrow> block_forever (Fmt ''volume {} is unlocked but contains an unexpected filesystem type '{}' (expected btrfs). NOT touching it; investigate manually and power-cycle.'' [Str i, Str t])
        | Unknown \<Rightarrow> block_forever (Fmt ''volume {} is unlocked but its contents could not be determined (blkid probe on {} failed). Emptiness is NOT established, so nothing will be written. Investigate manually and power-cycle.'' [Str i, Str (mapper_dev cfg)])) (\<lambda>_.
     dstate ''unlock'' (lit ''unlocked; boot continuing'')))))))"

definition ensure_label :: "disk_env \<Rightarrow> disk_cfg \<Rightarrow> rstr \<Rightarrow> unit diskd" where
  "ensure_label E cfg i =
     bnd (probe_value E ''blkid'' (blkid_args ''LABEL'' (part1 cfg i))) (\<lambda>label.
     bnd (if label = Some (fs_label (ident cfg)) then ret ()
          else
            bnd (dstate ''legacy'' (lit ''labeling legacy filesystem'')) (\<lambda>_.
            bnd (run_ok E ''btrfs'' [str ''filesystem'', str ''label'', part1 cfg i, fs_label (ident cfg)]) (\<lambda>_.
            run_quietly E ''udevadm'' [str ''trigger'', str ''--settle'', part1 cfg i]))) (\<lambda>_.
     dstate ''legacy'' (lit ''booting unencrypted (pre-migration)'')))"

section \<open>Migration and provisioning\<close>

text \<open>
  The pump between \<open>btrfs send\<close> and \<open>btrfs receive\<close>: the sizes it read, each with whether
  the update interval had passed, until the stream ended or broke.
\<close>

fun pump :: "(nat \<times> bool) list \<Rightarrow> nat \<Rightarrow> nat \<Rightarrow> unit diskd" where
  "pump [] copied whole = ret ()"
| "pump ((n, due) # cs) copied whole =
     (let copied = add64 copied n in
      bnd (if due then progress (min copied whole) whole else ret ()) (\<lambda>_. pump cs copied whole))"

definition copy_with_progress :: "disk_env \<Rightarrow> nat \<Rightarrow> unit diskd" where
  "copy_with_progress E whole =
     bnd (\<lambda>s. (Done (d_copy E (length (dtrace s))), push (Copied (d_copy E (length (dtrace s)))) s)) (\<lambda>c.
       case copy_setup c of
         Some e \<Rightarrow> fail e
       | None \<Rightarrow>
           bnd (pump (copy_chunks c) 0 whole) (\<lambda>_.
           case (send_exit c, recv_exit c) of
             (Inl e, _) \<Rightarrow> fail (Fmt ''waiting for btrfs send: {}'' [e])
           | (Inr _, Inl e) \<Rightarrow> fail (Fmt ''waiting for btrfs receive: {}'' [e])
           | (Inr sc, Inr rc) \<Rightarrow>
               (case copy_broken c of
                  Some e \<Rightarrow> fail (Fmt ''copy failed: {}; btrfs send: {}; btrfs receive: {}''
                              [e, Str (send_stderr c), Str (recv_stderr c)])
                | None \<Rightarrow>
                    if sc \<noteq> Some 0 then
                      fail (Fmt ''btrfs send failed ({}): {}'' [status_text sc, Str (send_stderr c)])
                    else if rc \<noteq> Some 0 then
                      fail (Fmt ''btrfs receive failed ({}): {}'' [status_text rc, Str (recv_stderr c)])
                    else progress whole whole)))"

definition btrfs_subvol :: "disk_env \<Rightarrow> rstr list \<Rightarrow> rstr diskd" where
  "btrfs_subvol E args = run_ok E ''btrfs'' (str ''subvolume'' # args)"

text \<open>The inspection that precedes a migration: the bytes in use, or a block.\<close>

definition inspect_source :: "disk_env \<Rightarrow> disk_cfg \<Rightarrow> rstr \<Rightarrow> rstr \<Rightarrow> nat diskd" where
  "inspect_source E cfg legacy blank =
     bnd (dstate ''migrate/inspect'' (lit ''migration: inspecting source'')) (\<lambda>_.
     bnd (mount_top E (part1 cfg legacy) (str ''/old'')) (\<lambda>_.
     bnd (subvol_exists E (str ''/old/.migrate-src'')) (\<lambda>leftover.
     bnd (if leftover then
            bnd (btrfs_subvol E [str ''delete'', str ''/old/.migrate-src'']) (\<lambda>_. run_ok E ''sync'' [])
          else ret []) (\<lambda>_.
     bnd (run_ok E ''btrfs'' [str ''filesystem'', str ''usage'', str ''-b'', str ''/old'']) (\<lambda>usage.
     case parse_btrfs_used usage of
       None \<Rightarrow>
         bnd (ignore (run_ok E ''umount'' [str ''/old''])) (\<lambda>_.
         block_forever (lit ''MIGRATION ABORTED: could not determine used bytes on the source''))
     | Some used \<Rightarrow>
         bnd (run_ok E ''blockdev'' [str ''--getsize64'', dev cfg blank]) (\<lambda>size_out.
         bnd (map_err (\<lambda>e. Fmt ''parsing blockdev output: {}'' [e]) (parse_u64 (trim size_out))) (\<lambda>target.
         if target < add64 used SIZE_HEADROOM then
           bnd (ignore (run_ok E ''umount'' [str ''/old''])) (\<lambda>_.
           block_forever (Fmt ''MIGRATION ABORTED: new volume ({} bytes) smaller than used data + 1GiB headroom ({} bytes). Attach a bigger volume and power-cycle.''
             [Num target, Num (add64 used SIZE_HEADROOM)]))
         else ret used)))))))"

definition copy_system :: "disk_env \<Rightarrow> disk_cfg \<Rightarrow> rstr \<Rightarrow> nat \<Rightarrow> unit diskd" where
  "copy_system E cfg legacy used =
     bnd (dstate ''migrate/copy'' (lit ''copying /var (btrfs send/receive)'')) (\<lambda>_.
     bnd (btrfs_subvol E [str ''snapshot'', str ''-r'', str ''/old/var'', str ''/old/.migrate-src'']) (\<lambda>_.
     bnd (run_ok E ''sync'' []) (\<lambda>_.
     bnd (mount_top E (mapper_dev cfg) (str ''/new'')) (\<lambda>_.
     bnd (copy_with_progress E used) (\<lambda>_.
     bnd (btrfs_subvol E [str ''snapshot'', str ''/new/.migrate-src'', str ''/new/var'']) (\<lambda>_.
     bnd (btrfs_subvol E [str ''delete'', str ''/new/.migrate-src'']) (\<lambda>_.
     bnd (dstate ''migrate/cleanup'' (lit ''migration: cleaning up'')) (\<lambda>_.
     bnd (btrfs_subvol E [str ''delete'', str ''/old/.migrate-src'']) (\<lambda>_.
     bnd (run_ok E ''sync'' []) (\<lambda>_.
     bnd (run_ok E ''umount'' [str ''/new'']) (\<lambda>_.
     bnd (run_ok E ''umount'' [str ''/old'']) (\<lambda>_.
     bnd (run_ok E ''cryptsetup'' [str ''close'', mapper (ident cfg)]) (\<lambda>_.
     bnd (dmutate (\<lambda>sn. sn\<lparr>dn_progress := None\<rparr>)) (\<lambda>_.
     block_forever (Fmt ''MIGRATION COMPLETE. Detach the old volume ({}) from this machine, then power-cycle. Do NOT delete the old volume until the server is verified healthy.''
       [Str legacy])))))))))))))))"

definition migrate :: "disk_env \<Rightarrow> disk_cfg \<Rightarrow> rstr \<Rightarrow> rstr \<Rightarrow> unit diskd" where
  "migrate E cfg legacy blank =
     bnd (make_dir E ''/old'') (\<lambda>_.
     bnd (make_dir E ''/new'') (\<lambda>_.
     bnd (inspect_source E cfg legacy blank) (\<lambda>used.
     bnd (ask_new_passphrase cfg) (\<lambda>passphrase.
     bnd (format_encrypted E cfg blank passphrase) (\<lambda>_.
     copy_system E cfg legacy used)))))"

definition provision :: "disk_env \<Rightarrow> disk_cfg \<Rightarrow> rstr \<Rightarrow> unit diskd" where
  "provision E cfg blank =
     bnd (dstate ''provision'' (lit ''fresh server: provisioning encrypted /var'')) (\<lambda>_.
     bnd (ask_new_passphrase cfg) (\<lambda>passphrase.
     bnd (format_encrypted E cfg blank passphrase) (\<lambda>_.
     bnd (create_var_subvol E cfg) (\<lambda>_.
     dstate ''provision'' (lit ''provisioned; boot continuing'')))))"

section \<open>The boot\<close>

text \<open>
  The wait for the disks: up to 90 looks, a second apart, until five looks in a row find the
  same number of disks as the look before, not zero.
\<close>

fun settle_disks :: "nat \<Rightarrow> disk_env \<Rightarrow> disk_cfg \<Rightarrow> nat \<Rightarrow> nat \<Rightarrow> unit diskd" where
  "settle_disks 0 E cfg calm prev = ret ()"
| "settle_disks (Suc n) E cfg calm prev =
     bnd (list_volumes E cfg) (\<lambda>v.
       let count = length v; calm = (if 0 < count \<and> count = prev then calm + 1 else 0) in
       if 5 \<le> calm then ret ()
       else bnd (record_event Napped) (\<lambda>_. settle_disks n E cfg calm count))"

fun classify_all :: "disk_env \<Rightarrow> disk_cfg \<Rightarrow> rstr list \<Rightarrow> disk_info list diskd" where
  "classify_all E cfg [] = ret []"
| "classify_all E cfg (i # is) =
     bnd (probe E cfg i) (\<lambda>p.
     let c = classify p (luks_partuuid (ident cfg)) in
     bnd (if c = Foreign then
            dstate ''classify'' (Fmt ''ignoring foreign volume {} ({})'' [Str i, detail p])
          else ret ()) (\<lambda>_.
     bnd (classify_all E cfg is) (\<lambda>rest.
     ret (\<lparr>di_id = i, di_class = c, di_detail = detail p\<rparr> # rest))))"

definition carry_out :: "disk_env \<Rightarrow> disk_cfg \<Rightarrow> disk_plan \<Rightarrow> unit diskd" where
  "carry_out E cfg p = (case p of
      PlanUnlock luks \<Rightarrow> unlock E cfg luks
    | PlanBootLegacy legacy \<Rightarrow> ensure_label E cfg legacy
    | PlanMigrate legacy blank \<Rightarrow> migrate E cfg legacy blank
    | PlanProvision blank \<Rightarrow> provision E cfg blank
    | PlanBlock reason \<Rightarrow> block_forever reason
    | PlanNoDisks \<Rightarrow> fail (lit ''no data volume found''))"

definition run_daemon :: "disk_env \<Rightarrow> disk_cfg \<Rightarrow> unit diskd" where
  "run_daemon E cfg =
     bnd (dstate ''enumerate'' (lit ''waiting for data volumes'')) (\<lambda>_.
     bnd (settle E) (\<lambda>_.
     bnd (settle_disks 90 E cfg 0 0) (\<lambda>_.
     bnd (dstate ''classify'' (lit ''classifying data volumes'')) (\<lambda>_.
     bnd (list_volumes E cfg) (\<lambda>ids.
     bnd (classify_all E cfg ids) (\<lambda>infos.
     bnd (dmutate (\<lambda>sn. sn\<lparr>dn_disks := infos\<rparr>)) (\<lambda>_.
     carry_out E cfg (plan (map (\<lambda>d. (di_id d, di_class d)) infos)))))))))"

text \<open>What comes before: the glob is split and the tools are looked up.\<close>

definition required_tools :: "string list" where
  "required_tools = [''blkid'', ''lsblk'', ''blockdev'', ''wipefs'', ''sgdisk'', ''cryptsetup'',
     ''btrfs'', ''mkfs.btrfs'', ''udevadm'', ''mount'', ''umount'', ''sync'']"

definition configure :: "(string \<Rightarrow> bool) \<Rightarrow> rstr \<Rightarrow> identity \<Rightarrow> nat \<Rightarrow> message + disk_cfg" where
  "configure found glob idt min_len =
     (case split_prefix_glob glob of
        None \<Rightarrow> Inl (Fmt ''--volume-glob must have the form <dir>/<prefix>* (got: {})'' [Str glob])
      | Some (dir, pre) \<Rightarrow>
          (case find (\<lambda>t. \<not> found t) required_tools of
             Some t \<Rightarrow> Inl (Fmt ''required tool missing from initrd: {}'' [lit t])
           | None \<Rightarrow> Inr \<lparr>by_id_dir = dir, vol_prefix = pre, ident = idt,
                          min_passphrase_len = min_len\<rparr>))"

end
