(* ===== verification/Disk_Safety.thy ===== *)
theory Disk_Safety
  imports Disk_Daemon
begin

text \<open>
  What var-disk-managerd may do to the disks.  Its commands are events of the trace, so the
  guarantees are about the trace: a command that destroys data is preceded by what justifies
  it.  \<open>adds\<close> says which events a program can add; the programs that add none of the
  destructive commands are dealt with by one rule per construct, and only the few that do
  are followed step by step.
\<close>

named_theorems adds_intros "the events a program of the daemon adds"

section \<open>The events a program adds\<close>

definition adds :: "(dm_event \<Rightarrow> bool) \<Rightarrow> 'a diskd \<Rightarrow> bool" where
  "adds P m \<longleftrightarrow> (\<forall>s. \<exists>new. dtrace (snd (m s)) = new @ dtrace s \<and> (\<forall>e\<in>set new. P e))"

lemma addsD:
  assumes "adds P m" and "m s = (r, s')"
  shows "\<exists>new. dtrace s' = new @ dtrace s \<and> (\<forall>e\<in>set new. P e)"
  using assms(1) [unfolded adds_def, rule_format, of s] assms(2) by simp

lemma adds_none: "(\<And>s. dtrace (snd (m s)) = dtrace s) \<Longrightarrow> adds P m"
  by (simp add: adds_def)

lemma adds_one: "(\<And>s. dtrace (snd (m s)) = e s # dtrace s \<and> P (e s)) \<Longrightarrow> adds P m"
  by (force simp: adds_def)

lemma adds_ret [adds_intros]: "adds P (ret a)"
  by (rule adds_none) (simp add: ret_def)

lemma adds_fail [adds_intros]: "adds P (fail e)"
  by (rule adds_none) (simp add: fail_def)

lemma adds_park [adds_intros]: "adds P park"
  by (rule adds_none) (simp add: park_def)

lemma adds_wait [adds_intros]: "adds P wait"
  by (rule adds_none) (simp add: wait_def)

lemma adds_bnd [adds_intros]:
  assumes m: "adds P m" and f: "\<And>a. adds P (f a)"
  shows "adds P (bnd m f)"
  unfolding adds_def
proof
  fix s
  obtain r s1 where ms: "m s = (r, s1)" by force
  obtain new where new: "dtrace s1 = new @ dtrace s" "\<forall>e\<in>set new. P e"
    using addsD [OF m ms] by blast
  show "\<exists>new. dtrace (snd (bnd m f s)) = new @ dtrace s \<and> (\<forall>e\<in>set new. P e)"
  proof (cases r)
    case (Done a)
    obtain more where "dtrace (snd (f a s1)) = more @ dtrace s1" "\<forall>e\<in>set more. P e"
      using f [of a] by (auto simp: adds_def)
    with new ms Done show ?thesis by (intro exI [of _ "more @ new"]) (auto simp: bnd_def)
  qed (use new ms in \<open>auto simp: bnd_def\<close>)
qed

lemma adds_attempt [adds_intros]: "adds P m \<Longrightarrow> adds P (attempt m)"
  unfolding adds_def attempt_def
  by (auto split: prod.splits outcome.splits) (metis snd_conv)+

lemma adds_ignore [adds_intros]: "adds P m \<Longrightarrow> adds P (ignore m)"
  unfolding ignore_def by (intro adds_intros)

lemma adds_map_err [adds_intros]: "adds P m \<Longrightarrow> adds P (map_err f m)"
  unfolding map_err_def by (intro adds_intros) (auto intro: adds_intros split: sum.splits)

lemma adds_if [adds_intros]:
  "(b \<Longrightarrow> adds P m) \<Longrightarrow> (\<not> b \<Longrightarrow> adds P n) \<Longrightarrow> adds P (if b then m else n)"
  by simp

lemma adds_option [adds_intros]:
  "adds P m \<Longrightarrow> (\<And>a. adds P (f a)) \<Longrightarrow> adds P (case x of None \<Rightarrow> m | Some a \<Rightarrow> f a)"
  by (cases x) auto

lemma adds_sum [adds_intros]:
  "(\<And>a. adds P (f a)) \<Longrightarrow> (\<And>b. adds P (g b)) \<Longrightarrow> adds P (case x of Inl a \<Rightarrow> f a | Inr b \<Rightarrow> g b)"
  by (cases x) auto

lemma adds_prod [adds_intros]: "(\<And>a b. adds P (f a b)) \<Longrightarrow> adds P (case x of (a, b) \<Rightarrow> f a b)"
  by (cases x) auto

lemma adds_result [adds_intros]:
  "(\<And>e. adds P (f e)) \<Longrightarrow> adds P g \<Longrightarrow> (\<And>e. adds P (h e)) \<Longrightarrow> (\<And>c out err w. adds P (k c out err w)) \<Longrightarrow>
   adds P (case r of SpawnFailed e \<Rightarrow> f e | NoPipe \<Rightarrow> g | WaitErr e \<Rightarrow> h e | Exited c out err w \<Rightarrow> k c out err w)"
  by (cases r) auto

lemma adds_loop [adds_intros]: "(\<And>x. adds P (body x)) \<Longrightarrow> adds P (loop n body x)"
  by (induction n arbitrary: x) (auto intro!: adds_intros)

lemma adds_asking [adds_intros]: "(\<And>x. adds P (body x)) \<Longrightarrow> adds P (asking body x)"
  using adds_loop [of P body] by (simp add: asking_def adds_def del: loop.simps)

subsection \<open>The building blocks\<close>

lemma push_simps [simp]:
  "dtrace (push e s) = e # dtrace s" "dinbox (push e s) = dinbox s" "dsnap (push e s) = dsnap s"
  by (simp_all add: push_def)

lemma adds_dmutate [adds_intros]: "(\<And>sn. P (Showed sn)) \<Longrightarrow> adds P (dmutate f)"
  by (rule adds_one [where e = "\<lambda>s. Showed (f (dsnap s))"]) (simp add: dmutate_def update_state_def)

lemma adds_dstate [adds_intros]: "(\<And>sn. P (Showed sn)) \<Longrightarrow> adds P (dstate ph m)"
  unfolding dstate_def by (intro adds_intros)

lemma adds_progress [adds_intros]: "(\<And>sn. P (Showed sn)) \<Longrightarrow> adds P (progress c w)"
  unfolding progress_def by (intro adds_intros)

lemma adds_block [adds_intros]: "(\<And>sn. P (Showed sn)) \<Longrightarrow> adds P (block_forever r)"
  unfolding block_forever_def by (intro adds_intros)

lemma adds_record [adds_intros]: "P e \<Longrightarrow> adds P (record_event e)"
  by (rule adds_one [where e = "\<lambda>_. e"]) (simp add: record_event_def update_state_def)

lemma adds_wait_for_answer [adds_intros]: "(\<And>k t v. P (Typed k t v)) \<Longrightarrow> adds P (wait_for_answer i kind t)"
  by (auto simp: adds_def wait_for_answer_def split: option.splits)

lemma adds_dask [adds_intros]:
  "(\<And>sn. P (Showed sn)) \<Longrightarrow> (\<And>k t v. P (Typed k t v)) \<Longrightarrow> adds P (dask kind t)"
  unfolding dask_def by (intro adds_intros adds_none) auto

lemma adds_exec [adds_intros]: "(\<And>r. P (Ran c r)) \<Longrightarrow> adds P (exec E c)"
  by (rule adds_one [where e = "\<lambda>s. Ran c (d_run E (length (dtrace s)) c)"]) (simp add: exec_def Let_def)

lemma adds_cmd_failed [adds_intros]: "adds P (cmd_failed c code err)"
  unfolding cmd_failed_def by (intro adds_intros)

lemma adds_run [adds_intros]:
  "(\<And>r. P (Ran \<lparr>prog_name = p, cmd_args = args, cmd_stdin = None\<rparr> r)) \<Longrightarrow> adds P (run_ok E p args)"
  "(\<And>r. P (Ran \<lparr>prog_name = p, cmd_args = args, cmd_stdin = None\<rparr> r)) \<Longrightarrow> adds P (probe_value E p args)"
  "(\<And>r. P (Ran \<lparr>prog_name = p, cmd_args = args, cmd_stdin = None\<rparr> r)) \<Longrightarrow> adds P (run_quietly E p args)"
  "(\<And>r. P (Ran \<lparr>prog_name = p, cmd_args = args, cmd_stdin = Some pw\<rparr> r)) \<Longrightarrow> adds P (run_with_stdin E p args pw)"
  unfolding run_ok_def probe_value_def run_quietly_def run_with_stdin_def Let_def
  by (intro adds_intros; assumption)+

lemma adds_looks [adds_intros]:
  "P Looked \<Longrightarrow> adds P (path_exists E p)" "P Looked \<Longrightarrow> adds P (list_volumes E cfg)"
  "P (MadeDir d) \<Longrightarrow> adds P (make_dir E d)"
  by (simp_all add: adds_def path_exists_def list_volumes_def make_dir_def)

lemma adds_parse_u64 [adds_intros]: "adds P (parse_u64 t)"
  unfolding parse_u64_def by (intro adds_intros)

section \<open>What a destructive command needs\<close>

definition typed :: "dm_event \<Rightarrow> (prompt_kind \<times> rstr) option" where
  "typed e = (case e of Typed k t v \<Rightarrow> Some (k, v) | _ \<Rightarrow> None)"

text \<open>The operator's answers and the contents of the mapper, the latest first.\<close>

definition answers :: "dm_event list \<Rightarrow> (prompt_kind \<times> rstr) list" where
  "answers es = List.map_filter typed es"

definition mapper_probe :: "disk_cfg \<Rightarrow> command" where
  "mapper_probe cfg =
     \<lparr>prog_name = ''blkid'', cmd_args = blkid_args ''TYPE'' (mapper_dev cfg), cmd_stdin = None\<rparr>"

definition found_in :: "disk_cfg \<Rightarrow> dm_event \<Rightarrow> mapper_fs option" where
  "found_in cfg e = (case e of
      Ran c (Exited code out err w) \<Rightarrow>
        if c = mapper_probe cfg then Some (mapper_fs_from_blkid code out) else None
    | _ \<Rightarrow> None)"

definition last_found :: "disk_cfg \<Rightarrow> dm_event list \<Rightarrow> mapper_fs option" where
  "last_found cfg es = find_map (found_in cfg) es"

definition shown_as :: "disk_class \<Rightarrow> rstr \<Rightarrow> dm_event list \<Rightarrow> bool" where
  "shown_as c i es \<longleftrightarrow> (\<exists>sn d. Showed sn \<in> set es \<and> d \<in> set (dn_disks sn) \<and> di_id d = i \<and> di_class d = c)"

definition is_zap :: "command \<Rightarrow> bool" where
  "is_zap c \<longleftrightarrow> prog_name c = ''sgdisk'' \<and> hd (cmd_args c) = str ''--zap-all''"

definition is_luks_format :: "command \<Rightarrow> bool" where
  "is_luks_format c \<longleftrightarrow> prog_name c = ''cryptsetup'' \<and> hd (cmd_args c) = str ''luksFormat''"

text \<open>
  \<open>permitted\<close>: a partition table is wiped, and a LUKS container created, only on a disk that
  was shown as blank, the container with a passphrase the operator has just typed twice; a
  partition is rewritten only on a disk shown as blank or as ours; a file system is created
  on the mapper only right after such a container, or when the mapper was last found empty
  and the operator's last answer was yes.
\<close>

definition permitted :: "disk_cfg \<Rightarrow> command \<Rightarrow> dm_event list \<Rightarrow> bool" where
  "permitted cfg c es \<longleftrightarrow>
     (is_zap c \<longrightarrow> (\<exists>i. shown_as Blank i es \<and> last (cmd_args c) = dev cfg i)) \<and>
     (is_luks_format c \<longrightarrow> (\<exists>i pw. shown_as Blank i es \<and> last (cmd_args c) = part1 cfg i \<and>
        cmd_stdin c = Some pw \<and> min_passphrase_len cfg \<le> length pw \<and>
        take 2 (answers es) = [(RepeatPassphrase, pw), (NewPassphrase, pw)])) \<and>
     (prog_name c = ''sgdisk'' \<longrightarrow>
        (\<exists>i. (shown_as Blank i es \<or> shown_as Luks i es) \<and> last (cmd_args c) = dev cfg i)) \<and>
     (prog_name c = ''mkfs.btrfs'' \<longrightarrow> last (cmd_args c) = mapper_dev cfg \<and>
        ((\<exists>k r. Ran k r \<in> set es \<and> is_luks_format k) \<or>
         (last_found cfg es = Some Empty \<and>
          (\<exists>v as. answers es = (Confirm, v) # as \<and> parse_confirm v = Some True))))"

fun justified :: "disk_cfg \<Rightarrow> dm_event list \<Rightarrow> bool" where
  "justified cfg [] = True"
| "justified cfg (e # es) =
     (justified cfg es \<and> (case e of Ran c r \<Rightarrow> permitted cfg c es | _ \<Rightarrow> True))"

definition harmless :: "command \<Rightarrow> bool" where
  "harmless c \<longleftrightarrow> prog_name c \<noteq> ''sgdisk'' \<and> prog_name c \<noteq> ''mkfs.btrfs'' \<and> \<not> is_luks_format c"

definition mild :: "dm_event \<Rightarrow> bool" where
  "mild e \<longleftrightarrow> (case e of Ran c r \<Rightarrow> harmless c | _ \<Rightarrow> True)"

definition silent :: "dm_event \<Rightarrow> bool" where
  "silent e \<longleftrightarrow> mild e \<and> typed e = None"

lemma event_simps [simp]:
  "mild (Showed sn)" "mild (Typed k t v)" "mild Looked" "mild (MadeDir d)" "mild (Copied cr)" "mild Napped"
  "mild (Ran c r) = harmless c" "silent (Showed sn)" "silent Looked" "silent (MadeDir d)"
  "silent (Copied cr)" "silent Napped" "silent (Ran c r) = harmless c" "\<not> silent (Typed k t v)"
  by (simp_all add: mild_def silent_def typed_def)

lemma harmless_permitted: "harmless c \<Longrightarrow> permitted cfg c es"
  by (simp add: harmless_def permitted_def is_zap_def)

lemma justified_mild: "justified cfg es \<Longrightarrow> \<forall>e\<in>set new. mild e \<Longrightarrow> justified cfg (new @ es)"
  by (induction new) (auto simp: harmless_permitted split: dm_event.splits)

text \<open>A property of traces that silent events keep, kept by the programs that add no others.\<close>

definition kept_by :: "(dm_event \<Rightarrow> bool) \<Rightarrow> (dm_event list \<Rightarrow> bool) \<Rightarrow> bool" where
  "kept_by P A \<longleftrightarrow> (\<forall>e es. P e \<longrightarrow> A es \<longrightarrow> A (e # es))"

lemma kept_by_append: "kept_by P A \<Longrightarrow> \<forall>e\<in>set new. P e \<Longrightarrow> A es \<Longrightarrow> A (new @ es)"
  by (induction new) (auto simp: kept_by_def)

lemma wp_adds:
  assumes "adds P m" and "kept_by P A" and "A (dtrace s)"
  shows "wp m (\<lambda>_ s'. A (dtrace s')) (\<lambda>s'. A (dtrace s')) s"
proof -
  obtain r s' where ms: "m s = (r, s')" by force
  obtain new where "dtrace s' = new @ dtrace s" "\<forall>e\<in>set new. P e"
    using addsD [OF assms(1) ms] by blast
  then have "A (dtrace s')" using kept_by_append assms(2,3) by metis
  with ms show ?thesis by (cases r) (auto simp: wp_def)
qed

lemma kept_justified: "kept_by mild (justified cfg)"
  by (auto simp: kept_by_def harmless_permitted split: dm_event.splits)

lemma shown_as_Cons [simp]: "shown_as c i es \<Longrightarrow> shown_as c i (e # es)"
  by (auto simp: shown_as_def)

lemma answers_simps [simp]:
  "answers (Typed k t v # es) = (k, v) # answers es" "typed e = None \<Longrightarrow> answers (e # es) = answers es"
  by (simp_all add: answers_def map_filter_simps typed_def)

lemma wp_exec [wp_simps]:
  "wp (exec E c) Q X s = Q (d_run E (length (dtrace s)) c) (push (Ran c (d_run E (length (dtrace s)) c)) s)"
  by (simp add: wp_def exec_def Let_def)

lemma wp_dmutate [wp_simps]:
  "wp (dmutate f) Q X s = Q () (push (Showed (f (dsnap s))) (s\<lparr>dsnap := f (dsnap s)\<rparr>))"
  by (simp add: dmutate_def wp_simps)

section \<open>The programs that destroy nothing\<close>

lemma harmless_simps [simp]:
  "harmless \<lparr>prog_name = ''udevadm'', cmd_args = a, cmd_stdin = x\<rparr>"
  "harmless \<lparr>prog_name = ''blockdev'', cmd_args = a, cmd_stdin = x\<rparr>"
  "harmless \<lparr>prog_name = ''blkid'', cmd_args = a, cmd_stdin = x\<rparr>"
  "harmless \<lparr>prog_name = ''lsblk'', cmd_args = a, cmd_stdin = x\<rparr>"
  "harmless \<lparr>prog_name = ''btrfs'', cmd_args = a, cmd_stdin = x\<rparr>"
  "harmless \<lparr>prog_name = ''mount'', cmd_args = a, cmd_stdin = x\<rparr>"
  "harmless \<lparr>prog_name = ''umount'', cmd_args = a, cmd_stdin = x\<rparr>"
  "harmless \<lparr>prog_name = ''sync'', cmd_args = a, cmd_stdin = x\<rparr>"
  "harmless \<lparr>prog_name = ''cryptsetup'', cmd_args = str ''open'' # a, cmd_stdin = x\<rparr>"
  "harmless \<lparr>prog_name = ''cryptsetup'', cmd_args = str ''close'' # a, cmd_stdin = x\<rparr>"
  "harmless \<lparr>prog_name = ''cryptsetup'', cmd_args = str ''resize'' # a, cmd_stdin = x\<rparr>"
  by (simp_all add: harmless_def is_luks_format_def)

lemma adds_silent_looks [adds_intros]:
  "adds silent (settle E)" "adds silent (blockdev_bytes E p)" "adds silent (subvol_exists E p)"
  "adds silent (mount_top E d p)" "adds silent (btrfs_subvol E args)" "adds silent (probe_mapper E cfg)"
  unfolding settle_def blockdev_bytes_def subvol_exists_def mount_top_def btrfs_subvol_def probe_mapper_def
  by (intro adds_intros; simp)+

lemma adds_silent_probe [adds_intros]: "adds silent (probe E cfg i)"
  unfolding probe_def by (intro adds_intros; simp)

lemma adds_silent_classify [adds_intros]: "adds silent (classify_all E cfg is)"
  by (induction "is") (auto simp: Let_def intro!: adds_intros)

lemma adds_silent_settle_disks [adds_intros]: "adds silent (settle_disks n E cfg c p)"
  by (induction n arbitrary: c p) (auto simp: Let_def intro!: adds_intros)

lemma adds_silent_node [adds_intros]: "adds silent (wait_for_node n E p)"
  by (induction n) (auto intro!: adds_intros)

lemma adds_silent_subvol [adds_intros]: "adds silent (create_var_subvol E cfg)"
  unfolding create_var_subvol_def by (intro adds_intros; simp)

lemma adds_silent_resize [adds_intros]: "adds silent (resize_mapping E cfg i g pw)"
  unfolding resize_mapping_def by (intro adds_intros; simp)

lemma adds_silent_label [adds_intros]: "adds silent (ensure_label E cfg i)"
  unfolding ensure_label_def by (intro adds_intros; simp)

lemma adds_silent_pump [adds_intros]: "adds silent (pump cs c w)"
  by (induction cs c w rule: pump.induct) (auto simp: Let_def intro!: adds_intros)

lemma adds_silent_copy [adds_intros]: "adds silent (copy_with_progress E w)"
  unfolding copy_with_progress_def
  by (intro adds_intros adds_one [where e = "\<lambda>s. Copied (d_copy E (length (dtrace s)))"]; simp)

lemma adds_silent_inspect [adds_intros]: "adds silent (inspect_source E cfg l b)"
  unfolding inspect_source_def by (intro adds_intros; simp)

lemma adds_mild_asks [adds_intros]:
  "adds mild (ask_confirm t)" "adds mild (ask_new_passphrase cfg)" "adds mild (unlock_turn E cfg i)"
  unfolding ask_confirm_def confirm_turn_def ask_new_passphrase_def new_passphrase_turn_def unlock_turn_def
  by (intro adds_intros; simp)+

lemma adds_weaken: "adds silent m \<Longrightarrow> adds mild m"
  unfolding adds_def silent_def by (meson)

lemma adds_mild_btrfs [adds_intros]: "adds mild (unlock_btrfs E cfg i)"
  unfolding unlock_btrfs_def
  by (intro adds_intros adds_weaken [OF adds_silent_looks(3)] adds_weaken [OF adds_silent_looks(4)]; simp)

section \<open>Asking\<close>

definition talk :: "dm_event \<Rightarrow> bool" where
  "talk e \<longleftrightarrow> (case e of Ran c r \<Rightarrow> False | _ \<Rightarrow> True)"

lemma talk_simps [simp]: "talk (Showed sn)" "talk (Typed k t v)" "\<not> talk (Ran c r)"
  by (simp_all add: talk_def)

text \<open>What the last answers are when a question has been answered.\<close>

lemma wp_dask:
  assumes "\<And>v s'. \<exists>sn sn'. dtrace s' = Showed sn # Typed kind t v # Showed sn' # dtrace s \<Longrightarrow> Q v s'"
    and "\<And>s'. \<exists>sn. dtrace s' = Showed sn # dtrace s \<Longrightarrow> X s'"
  shows "wp (dask kind t) Q X s"
  using assms
  by (auto simp: dask_def wait_for_answer_def dmutate_def update_state_def bnd_def ret_def wp_def
      push_def split: option.splits)

lemma wp_asking:
  assumes "A (dtrace s)"
    and "\<And>x s. A (dtrace s) \<Longrightarrow> wp (body x)
           (\<lambda>r s'. case r of Inl a \<Rightarrow> Q a s' | Inr y \<Rightarrow> A (dtrace s')) (\<lambda>s'. A (dtrace s')) s"
  shows "wp (asking body x) Q (\<lambda>s'. A (dtrace s')) s"
  using wp_loop [of "\<lambda>_ s. A (dtrace s)" x s body Q "\<lambda>s'. A (dtrace s')" "Suc (length (dinbox s))"] assms
  by (simp add: asking_def wp_def del: loop.simps)

lemma wp_dstate [wp_simps]: "wp (dstate ph m) Q X s =
    Q () (push (Showed ((dsnap s)\<lparr>dn_phase := ph, dn_message := m\<rparr>))
           (s\<lparr>dsnap := (dsnap s)\<lparr>dn_phase := ph, dn_message := m\<rparr>\<rparr>))"
  by (simp add: dstate_def wp_dmutate)

lemma wp_ask_confirm:
  assumes A: "kept_by talk A" and "A (dtrace s)"
  shows "wp (ask_confirm t)
     (\<lambda>b s'. A (dtrace s') \<and> (\<exists>v as. answers (dtrace s') = (Confirm, v) # as \<and> parse_confirm v = Some b))
     (\<lambda>s'. A (dtrace s')) s"
  unfolding ask_confirm_def
proof (rule wp_asking [where A = A, OF assms(2)])
  fix x :: unit and s :: disk_state
  assume "A (dtrace s)"
  then have k: "A (Showed b # Typed k t v # Showed a # dtrace s)" "A (Showed a # dtrace s)"
    "A (Showed c # Showed b # Typed k t v # Showed a # dtrace s)" for a b c k t v
    using A by (simp_all add: kept_by_def)
  show "wp (confirm_turn t) (\<lambda>r s'. case r of
       Inl b \<Rightarrow> A (dtrace s') \<and> (\<exists>v as. answers (dtrace s') = (Confirm, v) # as \<and> parse_confirm v = Some b)
     | Inr y \<Rightarrow> A (dtrace s')) (\<lambda>s'. A (dtrace s')) s"
    unfolding confirm_turn_def wp_bnd
    by (rule wp_dask) (auto simp: wp_simps typed_def k split: option.splits)
qed

lemma wp_ask_new_passphrase:
  assumes A: "kept_by talk A" and "A (dtrace s)"
  shows "wp (ask_new_passphrase cfg)
     (\<lambda>pw s'. A (dtrace s') \<and> min_passphrase_len cfg \<le> length pw \<and>
        take 2 (answers (dtrace s')) = [(RepeatPassphrase, pw), (NewPassphrase, pw)])
     (\<lambda>s'. A (dtrace s')) s"
  unfolding ask_new_passphrase_def
proof (rule wp_asking [where A = A, OF assms(2)])
  fix x :: unit and s :: disk_state
  assume a: "A (dtrace s)"
  have k: "A es \<Longrightarrow> A (Showed b # Typed k t v # Showed a # es)" "A es \<Longrightarrow> A (Showed a # es)" for a b k t v es
    using A by (simp_all add: kept_by_def)
  show "wp (new_passphrase_turn cfg) (\<lambda>r s'. case r of
       Inl pw \<Rightarrow> A (dtrace s') \<and> min_passphrase_len cfg \<le> length pw \<and>
        take 2 (answers (dtrace s')) = [(RepeatPassphrase, pw), (NewPassphrase, pw)]
     | Inr y \<Rightarrow> A (dtrace s')) (\<lambda>s'. A (dtrace s')) s"
    unfolding new_passphrase_turn_def wp_bnd
  proof (rule wp_dask, goal_cases typed_once stopped)
    case (typed_once v s1)
    then show ?case
      using a by (auto simp: wp_simps typed_def k intro!: wp_dask)
  next
    case (stopped s1)
    then show ?case using a by (auto simp: k)
  qed
qed

lemma asking_enough:
  assumes "\<And>x s. wp (body x) (\<lambda>r s'. case r of Inl _ \<Rightarrow> True | Inr _ \<Rightarrow> length (dinbox s') < length (dinbox s))
      (\<lambda>_. True) s"
    and "length (dinbox s) < n"
  shows "loop n body x s = asking body x s"
  unfolding asking_def by (rule loop_enough [where \<mu> = "\<lambda>s. length (dinbox s)"]) (use assms in auto)

section \<open>Formatting\<close>

text \<open>
  The state of mind in which a disk is formatted: everything so far was justified, the disk
  was shown as blank and its passphrase typed twice.  Only then are the partitioning and the
  container permitted, and they leave it as it is.
\<close>

definition cleared :: "disk_cfg \<Rightarrow> rstr \<Rightarrow> rstr \<Rightarrow> dm_event list \<Rightarrow> bool" where
  "cleared cfg i pw es \<longleftrightarrow> justified cfg es \<and> shown_as Blank i es \<and>
     min_passphrase_len cfg \<le> length pw \<and>
     take 2 (answers es) = [(RepeatPassphrase, pw), (NewPassphrase, pw)]"

definition formats :: "disk_cfg \<Rightarrow> rstr \<Rightarrow> rstr \<Rightarrow> command \<Rightarrow> bool" where
  "formats cfg i pw c \<longleftrightarrow> prog_name c \<noteq> ''mkfs.btrfs'' \<and>
     (prog_name c = ''sgdisk'' \<longrightarrow> last (cmd_args c) = dev cfg i) \<and>
     (is_luks_format c \<longrightarrow> last (cmd_args c) = part1 cfg i \<and> cmd_stdin c = Some pw)"

definition formatting :: "disk_cfg \<Rightarrow> rstr \<Rightarrow> rstr \<Rightarrow> dm_event \<Rightarrow> bool" where
  "formatting cfg i pw e \<longleftrightarrow> silent e \<or> (\<exists>c r. e = Ran c r \<and> formats cfg i pw c)"

lemma formatting_silent [simp]: "silent e \<Longrightarrow> formatting cfg i pw e"
  by (simp add: formatting_def)

lemma formats_permitted: "cleared cfg i pw es \<Longrightarrow> formats cfg i pw c \<Longrightarrow> permitted cfg c es"
  unfolding cleared_def formats_def permitted_def is_zap_def by (intro conjI impI; force)

lemma silent_cases: "silent e \<Longrightarrow> typed e = None \<and> (\<forall>c r. e = Ran c r \<longrightarrow> harmless c)"
  by (auto simp: silent_def mild_def)

lemma justified_Cons_other: "(\<And>c r. e \<noteq> Ran c r) \<Longrightarrow> justified cfg (e # es) = justified cfg es"
  by (cases e) auto

lemma kept_cleared: "kept_by (formatting cfg i pw) (cleared cfg i pw)"
  unfolding kept_by_def
proof (intro allI impI)
  fix e es
  assume f: "formatting cfg i pw e" and c: "cleared cfg i pw es"
  have t: "typed e = None" using f silent_cases by (auto simp: formatting_def typed_def)
  have "justified cfg (e # es)"
  proof (cases e)
    case (Ran k r)
    have "permitted cfg k es"
      using f Ran formats_permitted [OF c] harmless_permitted by (auto simp: formatting_def)
    with c Ran show ?thesis by (simp add: cleared_def)
  qed (use c in \<open>simp_all add: cleared_def\<close>)
  with c t show "cleared cfg i pw (e # es)" by (simp add: cleared_def)
qed

lemma adds_formatting_silent: "adds silent m \<Longrightarrow> adds (formatting cfg i pw) m"
  unfolding adds_def using formatting_silent by meson

lemma formats_sgdisk [simp]:
  "formats cfg i pw \<lparr>prog_name = ''sgdisk'', cmd_args = [a, dev cfg i], cmd_stdin = None\<rparr>"
  "formats cfg i pw \<lparr>prog_name = ''sgdisk'', cmd_args = part_args cfg (dev cfg i), cmd_stdin = None\<rparr>"
  by (simp_all add: formats_def is_luks_format_def part_args_def)

lemma adds_partition_disk: "adds (formatting cfg i pw) (partition_disk E cfg i)"
  unfolding partition_disk_def
  by (intro adds_intros adds_formatting_silent [OF adds_silent_looks(1)]
      adds_formatting_silent [OF adds_silent_node]; simp add: formatting_def)

text \<open>After the container the mapper may be formatted.\<close>

definition contained :: "disk_cfg \<Rightarrow> rstr \<Rightarrow> rstr \<Rightarrow> dm_event list \<Rightarrow> bool" where
  "contained cfg i pw es \<longleftrightarrow> cleared cfg i pw es \<and> (\<exists>k r. Ran k r \<in> set es \<and> is_luks_format k)"

definition filling :: "disk_cfg \<Rightarrow> rstr \<Rightarrow> rstr \<Rightarrow> dm_event \<Rightarrow> bool" where
  "filling cfg i pw e \<longleftrightarrow> silent e \<or>
     (\<exists>r. e = Ran \<lparr>prog_name = ''mkfs.btrfs'', cmd_args = [str ''-L'', fs_label (ident cfg), mapper_dev cfg],
                   cmd_stdin = None\<rparr> r)"

lemma kept_contained: "kept_by (filling cfg i pw) (contained cfg i pw)"
  unfolding kept_by_def
proof (intro allI impI)
  fix e es
  assume f: "filling cfg i pw e" and c: "contained cfg i pw es"
  have t: "typed e = None" using f silent_cases by (auto simp: filling_def typed_def)
  have "justified cfg (e # es)"
  proof (cases e)
    case (Ran k r)
    have "permitted cfg k es"
      using f Ran harmless_permitted c
      by (auto simp: filling_def permitted_def contained_def is_zap_def is_luks_format_def)
    with c Ran show ?thesis by (simp add: contained_def cleared_def)
  qed (use c in \<open>simp_all add: contained_def cleared_def\<close>)
  with c t show "contained cfg i pw (e # es)" by (auto simp: contained_def cleared_def)
qed

lemma adds_filling_silent: "adds silent m \<Longrightarrow> adds (filling cfg i pw) m"
  unfolding adds_def filling_def by meson

lemma wp_exec_event:
  "(\<And>r. Q (Ran c r # dtrace s)) \<Longrightarrow> wp (exec E c) (\<lambda>_ s'. Q (dtrace s')) X s"
  by (simp add: wp_exec)

lemma wp_run_with_stdin_event:
  assumes "\<And>r. Q (Ran \<lparr>prog_name = p, cmd_args = args, cmd_stdin = Some pw\<rparr> r # dtrace s)"
  shows "wp (run_with_stdin E p args pw) (\<lambda>_ s'. Q (dtrace s')) (\<lambda>s'. Q (dtrace s')) s"
  using assms
  by (auto simp: run_with_stdin_def wp_bnd wp_exec Let_def cmd_failed_def wp_simps
      split: cmd_result.splits option.splits)

lemma wp_format_encrypted:
  assumes "cleared cfg i pw (dtrace s)"
  shows "wp (format_encrypted E cfg i pw) (\<lambda>_ s'. justified cfg (dtrace s'))
     (\<lambda>s'. justified cfg (dtrace s')) s"
proof -
  let ?C = "\<lambda>s. cleared cfg i pw (dtrace s)" and ?D = "\<lambda>s. contained cfg i pw (dtrace s)"
  let ?X = "\<lambda>s. justified cfg (dtrace s)"
  have weak: "?C s \<Longrightarrow> ?X s" "?D s \<Longrightarrow> ?X s" for s :: disk_state
    by (simp_all add: cleared_def contained_def)
  have part: "wp (partition_disk E cfg i) (\<lambda>_. ?C) ?X s"
    by (rule wp_mono [OF wp_adds [OF adds_partition_disk kept_cleared assms]]) (simp_all add: weak)
  have show1: "wp (dstate ph m) (\<lambda>_. ?C) ?X s1" if "?C s1" for s1 ph m
    by (rule wp_mono [OF wp_adds [OF _ kept_cleared that]]) (auto simp: weak intro!: adds_intros)
  let ?luks = "[str ''luksFormat'', str ''--type'', str ''luks2'', str ''--label'', str ''var-crypt'',
      str ''--batch-mode'', str ''--key-file'', str ''-'', part1 cfg i]"
  have box: "wp (run_with_stdin E ''cryptsetup'' ?luks pw) (\<lambda>_. ?D) ?X s1" if "?C s1" for s1
  proof -
    let ?c = "\<lparr>prog_name = ''cryptsetup'', cmd_args = ?luks, cmd_stdin = Some pw\<rparr>"
    have "formatting cfg i pw (Ran ?c r)" and l: "is_luks_format ?c" for r
      by (auto simp: formatting_def formats_def is_luks_format_def)
    then have "cleared cfg i pw (Ran ?c r # dtrace s1)" for r
      using that kept_cleared by (simp add: kept_by_def)
    then have "contained cfg i pw (Ran ?c r # dtrace s1)" for r
      using l unfolding contained_def by auto
    then show ?thesis
      by (rule wp_mono [OF wp_run_with_stdin_event [where Q = "contained cfg i pw"]]) (simp_all add: weak)
  qed
  have rest: "wp (bnd (run_with_stdin E ''cryptsetup''
           [str ''open'', str ''--key-file'', str ''-'', str ''--allow-discards'',
            str ''--persistent'', part1 cfg i, mapper (ident cfg)] pw) (\<lambda>_.
     bnd (dstate ''format/mkfs'' (Fmt ''creating btrfs on /dev/mapper/{}''
           [Str (mapper (ident cfg))])) (\<lambda>_.
     bnd (mkfs_mapper E cfg) (\<lambda>_. settle E)))) (\<lambda>_. ?D) ?X s1" if "?D s1" for s1
    by (rule wp_mono [OF wp_adds [OF _ kept_contained that]])
       (auto simp: weak mkfs_mapper_def filling_def intro!: adds_intros adds_filling_silent [OF adds_silent_looks(1)])
  show ?thesis
    unfolding format_encrypted_def
    apply (rule wp_seq [OF part])
    apply (rule wp_seq [OF show1], assumption)
    apply (rule wp_seq [OF box], assumption)
    by (rule wp_mono [OF rest]) (simp_all add: weak)
qed

section \<open>Unlocking\<close>

definition growing :: "disk_cfg \<Rightarrow> rstr \<Rightarrow> dm_event \<Rightarrow> bool" where
  "growing cfg i e \<longleftrightarrow> mild e \<or> (\<exists>c r. e = Ran c r \<and> prog_name c = ''sgdisk'' \<and>
     \<not> is_zap c \<and> last (cmd_args c) = dev cfg i)"

definition ours :: "disk_cfg \<Rightarrow> rstr \<Rightarrow> dm_event list \<Rightarrow> bool" where
  "ours cfg i es \<longleftrightarrow> justified cfg es \<and> shown_as Luks i es"

lemma kept_ours: "kept_by (growing cfg i) (ours cfg i)"
  unfolding kept_by_def
proof (intro allI impI)
  fix e es
  assume g: "growing cfg i e" and u: "ours cfg i es"
  have "justified cfg (e # es)"
  proof (cases e)
    case (Ran k r)
    have "permitted cfg k es"
    proof (cases "harmless k")
      case True
      then show ?thesis by (rule harmless_permitted)
    next
      case False
      with g Ran have "prog_name k = ''sgdisk''" "\<not> is_zap k" "last (cmd_args k) = dev cfg i"
        by (auto simp: growing_def)
      with u show ?thesis by (auto simp: ours_def permitted_def is_luks_format_def)
    qed
    with u Ran show ?thesis by (simp add: ours_def)
  qed (use u in \<open>simp_all add: ours_def\<close>)
  with u show "ours cfg i (e # es)" by (simp add: ours_def)
qed

lemma adds_growing_mild: "adds mild m \<Longrightarrow> adds (growing cfg i) m"
  unfolding adds_def growing_def by meson

lemmas adds_growing_silent = adds_growing_mild [OF adds_weaken]

lemma adds_growing_partition [adds_intros]: "adds (growing cfg i) (maybe_grow_partition E cfg i)"
  unfolding maybe_grow_partition_def
  by (intro adds_intros adds_growing_silent [OF adds_silent_looks(1)]
      adds_growing_silent [OF adds_silent_looks(2)])
     (simp_all add: growing_def is_zap_def part_args_def)

lemma adds_growing_blocks [adds_intros]:
  "adds (growing cfg i) (block_forever r)" "adds (growing cfg i) (dstate ph m)"
  by (intro adds_intros; simp add: growing_def)+

lemma wp_probe_mapper:
  assumes "ours cfg i (dtrace s)"
  shows "wp (probe_mapper E cfg) (\<lambda>f s'. ours cfg i (dtrace s') \<and>
       (f = Empty \<longrightarrow> last_found cfg (dtrace s') = Some Empty)) (\<lambda>s'. ours cfg i (dtrace s')) s"
proof -
  let ?c = "mapper_probe cfg"
  have "growing cfg i (Ran ?c r)" for r
    by (simp add: growing_def mapper_probe_def)
  then have "ours cfg i (Ran ?c r # dtrace s)" for r
    using assms kept_ours [of cfg i] by (simp add: kept_by_def)
  then show ?thesis
    unfolding probe_mapper_def wp_bnd wp_exec wp_ret mapper_probe_def [symmetric]
    by (auto simp: last_found_def found_in_def mapper_fs_from_blkid_def split: cmd_result.splits)
qed

lemma kept_talk_empty: "kept_by talk (\<lambda>es. ours cfg i es \<and> last_found cfg es = Some Empty)"
  using kept_ours [of cfg i]
  by (auto simp: kept_by_def talk_def last_found_def found_in_def growing_def split: dm_event.splits)

lemma wp_unlock_empty:
  assumes "ours cfg i (dtrace s)" and "last_found cfg (dtrace s) = Some Empty"
  shows "wp (unlock_empty E cfg i) (\<lambda>_ s'. ours cfg i (dtrace s')) (\<lambda>s'. ours cfg i (dtrace s')) s"
  unfolding unlock_empty_def wp_bnd
proof (rule wp_mono [OF wp_ask_confirm [OF kept_talk_empty [of cfg i]]], goal_cases start answered stopped)
  case start
  show ?case using assms by simp
next
  case (stopped s1)
  then show ?case by simp
next
  case (answered yes s1)
  let ?O = "\<lambda>s'. ours cfg i (dtrace s')"
  have quiet: "wp m (\<lambda>_. ?O) ?O s2" if "adds (growing cfg i) m" "?O s2" for m :: "unit diskd" and s2
    by (rule wp_adds [OF that(1) kept_ours that(2)])
  show ?case
  proof (cases yes)
    case False
    with answered show ?thesis by (simp add: quiet adds_growing_blocks)
  next
    case True
    obtain v as where v: "answers (dtrace s1) = (Confirm, v) # as" "parse_confirm v = Some True"
      using answered True by auto
    let ?c = "\<lparr>prog_name = ''mkfs.btrfs'', cmd_args = [str ''-L'', fs_label (ident cfg), mapper_dev cfg], cmd_stdin = None\<rparr>"
    have "ours cfg i (Ran ?c r # Showed sn # dtrace s1)" for r sn
    proof -
      have "permitted cfg ?c (Showed sn # dtrace s1)"
        using answered v
        by (auto simp: permitted_def is_zap_def is_luks_format_def last_found_def found_in_def typed_def)
      then show ?thesis using answered by (simp add: ours_def)
    qed
    then have mk: "wp (mkfs_mapper E cfg) (\<lambda>_. ?O) ?O s2"
      if "\<exists>sn. dtrace s2 = Showed sn # dtrace s1" for s2
      using that by (auto simp: mkfs_mapper_def run_ok_def Let_def wp_bnd wp_exec wp_simps cmd_failed_def
          split: cmd_result.splits)
    have tail: "adds (growing cfg i) (bnd (settle E) (\<lambda>_. create_var_subvol E cfg))"
      by (intro adds_intros adds_growing_silent)
    show ?thesis
      unfolding if_P [OF True]
      by (simp add: wp_bnd wp_dstate, rule wp_mono [OF mk], simp_all add: quiet [OF tail])
  qed
qed

lemma wp_unlock:
  assumes "ours cfg i (dtrace s)"
  shows "wp (unlock E cfg i) (\<lambda>_ s'. ours cfg i (dtrace s')) (\<lambda>s'. ours cfg i (dtrace s')) s"
proof -
  let ?O = "\<lambda>s'. ours cfg i (dtrace s')"
  have quiet: "wp m (\<lambda>_. ?O) ?O s2" if "adds (growing cfg i) m" "?O s2" for m :: "'b diskd" and s2
    by (rule wp_adds [OF that(1) kept_ours that(2)])
  have grow: "wp (maybe_grow_partition E cfg i) (\<lambda>_. ?O) ?O s"
    using assms by (intro wp_adds [OF adds_growing_partition kept_ours])
  have asks: "wp (asking (\<lambda>_. unlock_turn E cfg i) ()) (\<lambda>_. ?O) ?O s1" if "?O s1" for s1
    using that by (intro wp_adds [OF adds_growing_mild kept_ours]) (auto intro!: adds_intros)
  have sett: "wp (settle E) (\<lambda>_. ?O) ?O s1" if "?O s1" for s1
    using that by (intro wp_adds [OF adds_growing_silent kept_ours]) (auto intro!: adds_intros)
  have res: "wp (resize_mapping E cfg i g pw) (\<lambda>_. ?O) ?O s1" if "?O s1" for s1 g pw
    using that by (intro wp_adds [OF adds_growing_silent kept_ours]) (auto intro!: adds_intros)
  have bt: "wp (unlock_btrfs E cfg i) (\<lambda>_. ?O) ?O s1" if "?O s1" for s1
    using that by (intro wp_adds [OF adds_growing_mild kept_ours]) (auto intro!: adds_intros)
  have bl: "wp (block_forever r) (\<lambda>_. ?O) ?O s1" if "?O s1" for s1 r
    using that by (intro wp_adds [OF adds_growing_blocks(1) kept_ours])
  have st: "wp (dstate ph m) (\<lambda>_. ?O) ?O s1" if "?O s1" for s1 ph m
    using that by (intro wp_adds [OF adds_growing_blocks(2) kept_ours])
  show ?thesis
    unfolding unlock_def
    apply (rule wp_seq [OF grow])
    apply (rule wp_seq [OF asks], assumption)
    apply (rule wp_seq [OF sett], assumption)
    apply (rule wp_seq [OF res], assumption)
    unfolding wp_bnd
    apply (rule wp_mono [OF wp_probe_mapper], assumption)
     apply (elim conjE)
     apply (rule wp_mono [where Q = "\<lambda>_. ?O" and E = ?O])
       apply (auto simp: bt bl wp_unlock_empty split: mapper_fs.splits) [1]
      apply (rule st, assumption)
     apply assumption
    by assumption
qed

section \<open>The daemon\<close>

lemma shown_as_after:
  "d \<in> set infos \<Longrightarrow> di_id d = i \<Longrightarrow> di_class d = c \<Longrightarrow>
   shown_as c i (Showed (sn\<lparr>dn_disks := infos\<rparr>) # es)"
  unfolding shown_as_def by (intro exI [of _ "sn\<lparr>dn_disks := infos\<rparr>"] exI [of _ d]) simp

lemma of_class_info:
  "i \<in> set (of_class c (map (\<lambda>d. (di_id d, di_class d)) infos)) \<Longrightarrow>
   \<exists>d\<in>set infos. di_id d = i \<and> di_class d = c"
  by (auto simp: of_class_set)

lemma kept_justified_talk: "kept_by talk (\<lambda>es. justified cfg es \<and> shown_as c i es)"
  by (auto simp: kept_by_def talk_def split: dm_event.splits)

lemma kept_shown_silent: "kept_by silent (\<lambda>es. justified cfg es \<and> shown_as c i es)"
  using kept_justified [of cfg] by (auto simp: kept_by_def silent_def)

lemma wp_asked_format:
  assumes "justified cfg (dtrace s)" and "shown_as Blank i (dtrace s)"
  shows "wp (bnd (ask_new_passphrase cfg) (format_encrypted E cfg i))
     (\<lambda>_ s'. justified cfg (dtrace s')) (\<lambda>s'. justified cfg (dtrace s')) s"
  unfolding wp_bnd
  by (rule wp_mono [OF wp_ask_new_passphrase [OF kept_justified_talk [of cfg Blank i]]])
     (use assms in \<open>auto simp: cleared_def intro!: wp_format_encrypted\<close>)

lemma wp_justified: "adds mild m \<Longrightarrow> justified cfg (dtrace s) \<Longrightarrow>
   wp m (\<lambda>_ s'. justified cfg (dtrace s')) (\<lambda>s'. justified cfg (dtrace s')) s"
  by (rule wp_adds [OF _ kept_justified])

lemma wp_provision:
  assumes "justified cfg (dtrace s)" and "shown_as Blank i (dtrace s)"
  shows "wp (provision E cfg i) (\<lambda>_ s'. justified cfg (dtrace s')) (\<lambda>s'. justified cfg (dtrace s')) s"
proof -
  let ?J = "\<lambda>s'. justified cfg (dtrace s')"
  have tail: "adds mild (bnd (create_var_subvol E cfg) (\<lambda>_. dstate ''provision'' (lit ''provisioned; boot continuing'')))"
    by (intro adds_intros adds_weaken [OF adds_silent_subvol]; simp)
  have "wp (bnd (bnd (ask_new_passphrase cfg) (format_encrypted E cfg i))
      (\<lambda>_. bnd (create_var_subvol E cfg) (\<lambda>_. dstate ''provision'' (lit ''provisioned; boot continuing''))))
      (\<lambda>_. ?J) ?J s1" if "?J s1" "shown_as Blank i (dtrace s1)" for s1
    by (rule wp_seq [OF wp_asked_format [OF that]], rule wp_justified [OF tail])
  then show ?thesis
    using assms by (simp add: provision_def bnd_assoc wp_bnd [of "dstate ph m" for ph m] wp_dstate)
qed

lemma wp_migrate:
  assumes "justified cfg (dtrace s)" and "shown_as Blank i (dtrace s)"
  shows "wp (migrate E cfg l i) (\<lambda>_ s'. justified cfg (dtrace s')) (\<lambda>s'. justified cfg (dtrace s')) s"
proof -
  let ?J = "\<lambda>s'. justified cfg (dtrace s')"
  let ?K = "\<lambda>s'. justified cfg (dtrace s') \<and> shown_as Blank i (dtrace s')"
  have tail: "adds mild (copy_system E cfg l used)" for used
    unfolding copy_system_def
    by (rule adds_weaken) (intro adds_intros; simp)
  have mid: "wp (bnd (ask_new_passphrase cfg) (\<lambda>pw. bnd (format_encrypted E cfg i pw)
      (\<lambda>_. copy_system E cfg l used))) (\<lambda>_. ?J) ?J s1" if "?K s1" for s1 used
    using wp_seq [OF wp_asked_format wp_justified [OF tail [of used]], of cfg s1 i E] that
    by (simp add: bnd_assoc)
  have pre: "wp m (\<lambda>_. ?K) ?J s1" if "?K s1" "adds silent m" for m :: "'b diskd" and s1
    by (rule wp_mono [OF wp_adds [OF that(2) kept_shown_silent [of cfg Blank i]]]) (use that(1) in auto)
  show ?thesis
    unfolding migrate_def
    apply (rule wp_seq [OF pre])
      apply (use assms in simp)
     apply (intro adds_intros; simp)
    apply (rule wp_seq [OF pre], assumption)
     apply (intro adds_intros; simp)
    apply (rule wp_seq [OF pre], assumption)
     apply (intro adds_intros; simp)
    by (rule mid)
qed

lemma wp_carry_out:
  assumes "justified cfg (dtrace s)"
    and "\<forall>d\<in>set infos. shown_as (di_class d) (di_id d) (dtrace s)"
  shows "wp (carry_out E cfg (plan (map (\<lambda>d. (di_id d, di_class d)) infos)))
     (\<lambda>_ s'. justified cfg (dtrace s')) (\<lambda>s'. justified cfg (dtrace s')) s"
proof -
  let ?l = "map (\<lambda>d. (di_id d, di_class d)) infos"
  have sh: "shown_as c i (dtrace s)" if "of_class c ?l = [i]" for c i
    using of_class_info [of i c infos] that assms(2) by auto
  have un: "wp (unlock E cfg i) (\<lambda>_ s'. justified cfg (dtrace s')) (\<lambda>s'. justified cfg (dtrace s')) s"
    if "of_class Luks ?l = [i]" for i
    by (rule wp_mono [OF wp_unlock]) (use assms(1) sh [OF that] in \<open>simp_all add: ours_def\<close>)
  have la: "wp (ensure_label E cfg i) (\<lambda>_ s'. justified cfg (dtrace s')) (\<lambda>s'. justified cfg (dtrace s')) s" for i
    by (rule wp_justified [OF adds_weaken [OF adds_silent_label] assms(1)])
  have bl: "wp (block_forever r) (\<lambda>_ s'. justified cfg (dtrace s')) (\<lambda>s'. justified cfg (dtrace s')) s" for r
    by (rule wp_justified [OF _ assms(1)]) (intro adds_intros; simp)
  show ?thesis
  proof (cases "plan ?l")
    case (PlanUnlock i)
    then show ?thesis using plan_table [of ?l i] un by (simp add: carry_out_def)
  next
    case (PlanMigrate l i)
    then have "of_class Blank ?l = [i]" using plan_table [of ?l _ l i] by simp
    with PlanMigrate show ?thesis using wp_migrate assms(1) sh by (simp add: carry_out_def)
  next
    case (PlanProvision i)
    then have "of_class Blank ?l = [i]" using plan_table [of ?l _ _ i] by simp
    with PlanProvision show ?thesis using wp_provision assms(1) sh by (simp add: carry_out_def)
  qed (simp_all add: carry_out_def la bl wp_fail assms(1))
qed

lemma wp_run_daemon:
  assumes "justified cfg (dtrace s)"
  shows "wp (run_daemon E cfg) (\<lambda>_ s'. justified cfg (dtrace s')) (\<lambda>s'. justified cfg (dtrace s')) s"
proof -
  let ?J = "\<lambda>s'. justified cfg (dtrace s')"
  have step: "wp m (\<lambda>_. ?J) ?J s1" if "?J s1" "adds silent m" for m :: "'b diskd" and s1
    by (rule wp_justified [OF adds_weaken [OF that(2)] that(1)])
  have infos: "wp (classify_all E cfg ids) (\<lambda>_. ?J) ?J s1" if "?J s1" for ids s1
    by (rule wp_justified [OF adds_weaken that]) (intro adds_intros)
  have fin: "wp (bnd (dmutate (\<lambda>sn. sn\<lparr>dn_disks := infos\<rparr>)) (\<lambda>_.
      carry_out E cfg (plan (map (\<lambda>d. (di_id d, di_class d)) infos)))) (\<lambda>_. ?J) ?J s1" if "?J s1" for infos s1
    unfolding wp_bnd wp_dmutate by (rule wp_carry_out) (use that shown_as_after in auto)
  have shw: "adds silent (dstate ph m)" for ph m by (intro adds_intros; simp)
  have lst: "adds silent (list_volumes E cfg)" by (intro adds_intros; simp)
  show ?thesis
    unfolding run_daemon_def
    apply (rule wp_seq [OF step [OF assms shw]])
    apply (rule wp_seq [OF wp_justified [OF adds_weaken [OF adds_silent_looks(1)]]], assumption)
    apply (rule wp_seq [OF wp_justified [OF adds_weaken [OF adds_silent_settle_disks]]], assumption)
    apply (rule wp_seq [OF wp_justified [OF adds_weaken [OF shw]]], assumption)
    apply (rule wp_seq [OF wp_justified [OF adds_weaken [OF lst]]], assumption)
    apply (rule wp_seq [OF infos], assumption)
    by (rule fin)
qed

end
