(* ===== verification/Disk_Claims.thy ===== *)
theory Disk_Claims
  imports Disk_Safety
begin

text \<open>
  The properties of the /var disk manager.  The example run is a fresh server: one volume
  without any signature, which is provisioned after the passphrase was typed twice.
\<close>

section \<open>When the boot goes on\<close>

definition ran_ok :: "string \<Rightarrow> rstr list \<Rightarrow> dm_event list \<Rightarrow> bool" where
  "ran_ok p args es \<longleftrightarrow> (\<exists>out err w.
     Ran \<lparr>prog_name = p, cmd_args = args, cmd_stdin = None\<rparr> (Exited (Some 0) out err w) \<in> set es)"

text \<open>The file system on the mapper was mounted, has its subvolume, and was unmounted again.\<close>

definition var_ready :: "disk_cfg \<Rightarrow> dm_event list \<Rightarrow> bool" where
  "var_ready cfg es \<longleftrightarrow>
     ran_ok ''mount'' [str ''-o'', str ''subvol=/'', mapper_dev cfg, str ''/new-var-fs''] es \<and>
     (ran_ok ''btrfs'' [str ''subvolume'', str ''show'', str ''/new-var-fs/var''] es \<or>
      ran_ok ''btrfs'' [str ''subvolume'', str ''create'', str ''/new-var-fs/var''] es) \<and>
     ran_ok ''umount'' [str ''/new-var-fs''] es"

abbreviation lasting :: "(dm_event list \<Rightarrow> bool) \<Rightarrow> bool" where
  "lasting A \<equiv> kept_by (\<lambda>_. True) A"

lemma lasting_intros: "lasting (ran_ok p args)" "lasting A \<Longrightarrow> lasting B \<Longrightarrow> lasting (\<lambda>es. A es \<and> B es)"
  "lasting A \<Longrightarrow> lasting B \<Longrightarrow> lasting (\<lambda>es. A es \<or> B es)" "lasting (\<lambda>_. True)"
  by (auto simp: kept_by_def ran_ok_def)

lemma adds_any: "adds P m \<Longrightarrow> adds (\<lambda>_. True) m"
  unfolding adds_def by meson

lemma wp_lasts:
  assumes "adds P m" and "lasting A" and "A (dtrace s)"
  shows "wp m (\<lambda>_ s'. A (dtrace s')) (\<lambda>_. True) s"
  by (rule wp_mono [OF wp_adds [OF adds_any [OF assms(1)] assms(2,3)]]) auto

lemma wp_ran:
  assumes "lasting A" and "A (dtrace s)"
  shows "wp (run_ok E p args) (\<lambda>_ s'. A (dtrace s') \<and> ran_ok p args (dtrace s')) (\<lambda>_. True) s"
  using assms
  by (auto simp: run_ok_def wp_bnd wp_exec wp_simps Let_def cmd_failed_def ran_ok_def kept_by_def
      split: cmd_result.splits)

lemma wp_any: "wp m (\<lambda>_ _. True) (\<lambda>_. True) s"
  by (cases "m s"; cases "fst (m s)") (auto simp: wp_def)

lemma wp_seq_any: "(\<And>a s1. wp (f a) Q (\<lambda>_. True) s1) \<Longrightarrow> wp (bnd m f) Q (\<lambda>_. True) s"
  unfolding wp_bnd by (rule wp_mono [OF wp_any]) auto

lemma wp_block_never: "wp (block_forever r) Q (\<lambda>_. True) s"
  by (simp add: block_forever_def wp_simps)

definition mounted :: "disk_cfg \<Rightarrow> dm_event list \<Rightarrow> bool" where
  "mounted cfg es \<longleftrightarrow>
     ran_ok ''mount'' [str ''-o'', str ''subvol=/'', mapper_dev cfg, str ''/new-var-fs''] es"

definition has_var :: "dm_event list \<Rightarrow> bool" where
  "has_var es \<longleftrightarrow> ran_ok ''btrfs'' [str ''subvolume'', str ''show'', str ''/new-var-fs/var''] es \<or>
     ran_ok ''btrfs'' [str ''subvolume'', str ''create'', str ''/new-var-fs/var''] es"

lemma lasting_mounted: "lasting (mounted cfg)"
  unfolding mounted_def by (rule lasting_intros)

lemma lasting_ready: "lasting (\<lambda>es. mounted cfg es \<and> has_var es)"
  unfolding mounted_def has_var_def by (intro lasting_intros)

lemma wp_mount_mapper: "wp (mount_top E (mapper_dev cfg) (str ''/new-var-fs''))
    (\<lambda>_ s'. mounted cfg (dtrace s')) (\<lambda>_. True) s"
  unfolding mount_top_def mounted_def
  by (rule wp_mono [OF wp_ran [OF lasting_intros(4)]]) auto

lemma wp_create_var:
  assumes "mounted cfg (dtrace s)"
  shows "wp (run_ok E ''btrfs'' [str ''subvolume'', str ''create'', str ''/new-var-fs/var''])
    (\<lambda>_ s'. mounted cfg (dtrace s') \<and> has_var (dtrace s')) (\<lambda>_. True) s"
  by (rule wp_mono [OF wp_ran [OF lasting_mounted assms]]) (auto simp: has_var_def)

lemma wp_umount_ready:
  assumes "mounted cfg (dtrace s) \<and> has_var (dtrace s)"
  shows "wp (bnd (run_ok E ''umount'' [str ''/new-var-fs'']) (\<lambda>_. ret ()))
    (\<lambda>_ s'. var_ready cfg (dtrace s')) (\<lambda>_. True) s"
  unfolding wp_bnd
  by (rule wp_mono [OF wp_ran [OF lasting_ready [of cfg]]])
     (use assms in \<open>auto simp: wp_ret var_ready_def mounted_def has_var_def\<close>)

lemma wp_create_var_subvol:
  "wp (create_var_subvol E cfg) (\<lambda>_ s'. var_ready cfg (dtrace s')) (\<lambda>_. True) s"
  unfolding create_var_subvol_def
  apply (rule wp_seq_any)
  apply (rule wp_seq [OF wp_mount_mapper])
  apply (rule wp_seq [OF wp_create_var], assumption)
  by (rule wp_umount_ready)

lemma wp_unlock_btrfs:
  "wp (unlock_btrfs E cfg i) (\<lambda>_ s'. var_ready cfg (dtrace s')) (\<lambda>_. True) s"
proof -
  let ?M = "\<lambda>s. mounted cfg (dtrace s)" and ?R = "\<lambda>s. mounted cfg (dtrace s) \<and> has_var (dtrace s)"
  have found: "wp (subvol_exists E (str ''/new-var-fs/var'')) (\<lambda>b s'. ?M s' \<and> (b \<longrightarrow> ?R s')) (\<lambda>_. True) s1"
    if "?M s1" for s1
    using that by (auto simp: subvol_exists_def wp_bnd wp_exec wp_ret has_var_def ran_ok_def mounted_def
        split: cmd_result.splits)
  have made: "wp (if b then ret ()
      else bnd (ask_confirm t) (\<lambda>yes.
        if yes then
          bnd (run_ok E ''btrfs'' [str ''subvolume'', str ''create'', str ''/new-var-fs/var'']) (\<lambda>_. ret ())
        else bnd (run_ok E ''umount'' [str ''/new-var-fs'']) (\<lambda>_. block_forever r)))
      (\<lambda>_. ?R) (\<lambda>_. True) s1" if "?M s1 \<and> (b \<longrightarrow> ?R s1)" for b t r s1
  proof (cases b)
    case True
    with that show ?thesis by (simp add: wp_ret)
  next
    case False
    have "wp (ask_confirm t) (\<lambda>_. ?M) (\<lambda>_. True) s1"
      using that by (intro wp_lasts [OF adds_mild_asks(1) lasting_mounted]) auto
    moreover have "wp (bnd (run_ok E ''btrfs'' [str ''subvolume'', str ''create'', str ''/new-var-fs/var''])
        (\<lambda>_. ret ())) (\<lambda>_. ?R) (\<lambda>_. True) s2" if "?M s2" for s2
      unfolding wp_bnd by (rule wp_mono [OF wp_create_var [OF that]]) (auto simp: wp_ret)
    moreover have "wp (bnd (run_ok E ''umount'' [str ''/new-var-fs'']) (\<lambda>_. block_forever r))
        (\<lambda>_. ?R) (\<lambda>_. True) s2" for s2
      by (rule wp_seq_any) (rule wp_block_never)
    ultimately show ?thesis
      unfolding if_not_P [OF False] wp_bnd [of "ask_confirm t"] by (elim wp_mono) auto
  qed
  have resize: "wp (run_ok E ''btrfs'' a) (\<lambda>_. ?M) (\<lambda>_. True) s1" if "?M s1" for a s1
    by (rule wp_mono [OF wp_ran [OF lasting_mounted that]]) auto
  show ?thesis
    unfolding unlock_btrfs_def
    apply (rule wp_seq_any)
    apply (rule wp_seq [OF wp_mount_mapper])
    apply (rule wp_seq [OF resize], assumption)
    unfolding wp_bnd [of "subvol_exists E p" for p]
    apply (rule wp_mono [OF found], assumption)
     apply (rule wp_seq [OF made], assumption)
     apply (rule wp_umount_ready, assumption)
    by simp
qed

lemma wp_unlock_ready: "wp (unlock E cfg i) (\<lambda>_ s'. var_ready cfg (dtrace s')) (\<lambda>_. True) s"
proof -
  have lr: "lasting (var_ready cfg)" unfolding var_ready_def by (intro lasting_intros)
  have st: "wp (dstate ph m) (\<lambda>_ s'. var_ready cfg (dtrace s')) (\<lambda>_. True) s1"
    if "var_ready cfg (dtrace s1)" for ph m s1
    by (rule wp_lasts [OF _ lr that, where P = mild]) (intro adds_intros; simp)
  have em: "wp (unlock_empty E cfg i) (\<lambda>_ s'. var_ready cfg (dtrace s')) (\<lambda>_. True) s1" for s1
    unfolding unlock_empty_def
    by (rule wp_seq_any) (auto intro!: wp_seq_any wp_create_var_subvol wp_block_never)
  show ?thesis
    unfolding unlock_def
    apply (rule wp_seq_any, rule wp_seq_any, rule wp_seq_any, rule wp_seq_any, rule wp_seq_any)
    apply (rule wp_seq [where A = "\<lambda>s. var_ready cfg (dtrace s)"])
     apply (auto simp: wp_unlock_btrfs em wp_block_never split: mapper_fs.splits) [1]
    by (rule st)
qed

lemma wp_provision_ready: "wp (provision E cfg i) (\<lambda>_ s'. var_ready cfg (dtrace s')) (\<lambda>_. True) s"
proof -
  have lr: "lasting (var_ready cfg)" unfolding var_ready_def by (intro lasting_intros)
  have st: "wp (dstate ph m) (\<lambda>_ s'. var_ready cfg (dtrace s')) (\<lambda>_. True) s1"
    if "var_ready cfg (dtrace s1)" for ph m s1
    by (rule wp_lasts [OF _ lr that, where P = mild]) (intro adds_intros; simp)
  show ?thesis
    unfolding provision_def
    apply (rule wp_seq_any, rule wp_seq_any, rule wp_seq_any)
    apply (rule wp_seq [OF wp_create_var_subvol])
    by (rule st)
qed

text \<open>The legacy volume carries the label, because it did before or because it was set now.\<close>

definition labelled :: "disk_cfg \<Rightarrow> rstr \<Rightarrow> dm_event list \<Rightarrow> bool" where
  "labelled cfg i es \<longleftrightarrow>
     (\<exists>out err w. Ran \<lparr>prog_name = ''blkid'', cmd_args = blkid_args ''LABEL'' (part1 cfg i),
        cmd_stdin = None\<rparr> (Exited (Some 0) out err w) \<in> set es \<and> trim out = fs_label (ident cfg)) \<or>
     ran_ok ''btrfs'' [str ''filesystem'', str ''label'', part1 cfg i, fs_label (ident cfg)] es"

lemma wp_ensure_label: "wp (ensure_label E cfg i) (\<lambda>_ s'. labelled cfg i (dtrace s')) (\<lambda>_. True) s"
proof -
  have ll: "lasting (labelled cfg i)"
    by (auto simp: kept_by_def labelled_def ran_ok_def)
  let ?L = "\<lambda>s. labelled cfg i (dtrace s)"
  have ends: "wp m (\<lambda>_. ?L) (\<lambda>_. True) s1" if "?L s1" "adds P m" for P and m :: "unit diskd" and s1
    by (rule wp_lasts [OF that(2) ll that(1)])
  have probe: "wp (probe_value E ''blkid'' (blkid_args ''LABEL'' (part1 cfg i)))
      (\<lambda>l s'. l = Some (fs_label (ident cfg)) \<longrightarrow> ?L s') (\<lambda>_. True) s1" for s1
    by (auto simp: probe_value_def wp_bnd wp_exec wp_simps labelled_def split: cmd_result.splits)
  have setl: "wp (run_ok E ''btrfs'' [str ''filesystem'', str ''label'', part1 cfg i, fs_label (ident cfg)])
      (\<lambda>_. ?L) (\<lambda>_. True) s1" for s1
    by (rule wp_mono [OF wp_ran [OF lasting_intros(4)]]) (auto simp: labelled_def)
  have quietly: "adds (\<lambda>_. True) (run_quietly E ''udevadm'' a)" for a by (intro adds_intros) simp
  have shw: "adds (\<lambda>_. True) (dstate ph m)" for ph m by (intro adds_intros) simp
  show ?thesis
    unfolding ensure_label_def wp_bnd [of "probe_value E p a" for p a]
  proof (rule wp_mono [OF probe], goal_cases probed stopped)
    case (probed l s1)
    have "wp (if l = Some (fs_label (ident cfg)) then ret ()
       else bnd (dstate ''legacy'' (lit ''labeling legacy filesystem'')) (\<lambda>_.
            bnd (run_ok E ''btrfs'' [str ''filesystem'', str ''label'', part1 cfg i, fs_label (ident cfg)]) (\<lambda>_.
            run_quietly E ''udevadm'' [str ''trigger'', str ''--settle'', part1 cfg i])))
       (\<lambda>_. ?L) (\<lambda>_. True) s1"
    proof (cases "l = Some (fs_label (ident cfg))")
      case True
      with probed show ?thesis by (simp add: wp_ret)
    next
      case False
      show ?thesis
        unfolding if_not_P [OF False]
        by (rule wp_seq_any, rule wp_seq [OF setl], rule ends [OF _ quietly], assumption)
    qed
    then show ?case by (rule wp_seq) (rule ends [OF _ shw])
  qed simp
qed

lemma wp_migrate_never: "wp (migrate E cfg l b) (\<lambda>_ _. False) (\<lambda>_. True) s"
proof -
  have "wp (copy_system E cfg l used) (\<lambda>_ _. False) (\<lambda>_. True) s" for used s
    unfolding copy_system_def
    by (rule wp_seq_any, rule wp_seq_any, rule wp_seq_any, rule wp_seq_any, rule wp_seq_any,
        rule wp_seq_any, rule wp_seq_any, rule wp_seq_any, rule wp_seq_any, rule wp_seq_any,
        rule wp_seq_any, rule wp_seq_any, rule wp_seq_any, rule wp_seq_any, rule wp_block_never)
  then show ?thesis
    unfolding migrate_def
    by (intro wp_seq_any)
qed

section \<open>The asking loops end with the messages\<close>

lemma dask_shorter: "wp (dask kind t) (\<lambda>_ s'. length (dinbox s') < length (dinbox s)) (\<lambda>_. True) s"
proof (cases "take_answer (answer_of (Suc (dnext_id s))) (dinbox s)")
  case None
  then show ?thesis
    by (simp add: dask_def wait_for_answer_def dmutate_def update_state_def bnd_def wp_def push_def)
next
  case (Some p)
  then have "length (snd p) < length (dinbox s)"
    using take_answer_shorter by (metis prod.collapse)
  with Some show ?thesis
    by (cases p) (simp add: dask_def wait_for_answer_def dmutate_def update_state_def bnd_def
        wp_def push_def ret_def)
qed

definition keeps_queue :: "'a diskd \<Rightarrow> bool" where
  "keeps_queue m \<longleftrightarrow> (\<forall>s. length (dinbox (snd (m s))) \<le> length (dinbox s))"

lemma wp_keeps_queue: "keeps_queue m \<Longrightarrow> length (dinbox s) < n \<Longrightarrow> wp m (\<lambda>_ s'. length (dinbox s') < n) (\<lambda>_. True) s"
  unfolding keeps_queue_def wp_def
  by (cases "m s"; cases "fst (m s)") (auto dest: spec [of _ s])

lemma keeps_queue_simps [simp]:
  "keeps_queue (dstate ph m)" "keeps_queue (ret a)" "keeps_queue (exec E c)"
  by (simp_all add: keeps_queue_def dstate_def dmutate_def update_state_def ret_def exec_def Let_def)

lemma attempt_stdin_shorter:
  "length (dinbox s) < n \<Longrightarrow>
   wp (attempt (run_with_stdin E p args pw)) (\<lambda>_ s'. length (dinbox s') < n) (\<lambda>_. True) s"
  by (rule wp_attempt)
     (auto simp: run_with_stdin_def wp_bnd wp_exec wp_simps Let_def cmd_failed_def
       split: cmd_result.splits option.splits)

lemma turns_take_messages:
  fixes s :: disk_state
  shows "wp (confirm_turn t) (\<lambda>_ s'. length (dinbox s') < length (dinbox s)) (\<lambda>_. True) s"
    and "wp (new_passphrase_turn cfg) (\<lambda>_ s'. length (dinbox s') < length (dinbox s)) (\<lambda>_. True) s"
    and "wp (unlock_turn E cfg i) (\<lambda>_ s'. length (dinbox s') < length (dinbox s)) (\<lambda>_. True) s"
proof -
  let ?Q = "\<lambda>_ s'. length (dinbox s') < length (dinbox s)"
  have st: "wp (dstate ph m) ?Q (\<lambda>_. True) s1" if "length (dinbox s1) < length (dinbox s)" for ph m s1
    using that by (rule wp_keeps_queue [OF keeps_queue_simps(1)])
  show "wp (confirm_turn t) ?Q (\<lambda>_. True) s"
    unfolding confirm_turn_def wp_bnd
    by (rule wp_mono [OF dask_shorter]) (auto simp: wp_simps split: option.splits)
  show "wp (new_passphrase_turn cfg) ?Q (\<lambda>_. True) s"
    unfolding new_passphrase_turn_def wp_bnd
    by (rule wp_mono [OF dask_shorter])
       (auto simp: wp_simps intro!: wp_mono [OF dask_shorter])
  show "wp (unlock_turn E cfg i) ?Q (\<lambda>_. True) s"
    unfolding unlock_turn_def wp_bnd
    by (rule wp_mono [OF dask_shorter])
       (auto simp: wp_dstate wp_bnd wp_ret split: sum.splits intro!: wp_mono [OF attempt_stdin_shorter])
qed

section \<open>Properties\<close>

definition fresh_env :: disk_env where
  "fresh_env = \<lparr>
     d_run = (\<lambda>_ c. Exited (Some (if prog_name c = ''blkid'' then 2 else 0)) [] [] None),
     d_exists = (\<lambda>_ _. True),
     d_list = (\<lambda>_ _. Some [str ''vol-1-part1'', str ''vol-1'', str ''other'']),
     d_mkdir = (\<lambda>_ _. None),
     d_copy = (\<lambda>_. \<lparr>copy_setup = None, copy_chunks = [], copy_broken = None,
        send_exit = Inr (Some 0), recv_exit = Inr (Some 0), send_stderr = [], recv_stderr = []\<rparr>)\<rparr>"

definition fresh_cfg :: disk_cfg where
  "fresh_cfg = \<lparr>by_id_dir = str ''/dev'', vol_prefix = str ''vol-'',
     ident = \<lparr>luks_partuuid = str ''cab1'', fs_label = str ''var'', mapper = str ''var''\<rparr>,
     min_passphrase_len = 3\<rparr>"

definition boot_state :: "(nat \<times> rstr) list \<Rightarrow> disk_state" where
  "boot_state msgs = \<lparr>dsnap = empty_snapshot, dnext_id = 0, dinbox = msgs, dtrace = []\<rparr>"

definition fresh_state :: disk_state where
  "fresh_state = boot_state [(1, str ''ab''), (2, str ''abcd''), (3, str ''abcd'')]"

text \<open>The example run, followed by its preconditions: nothing in it can fail.\<close>

lemma wp_fresh_run:
  "p \<noteq> ''blkid'' \<Longrightarrow> wp (run_ok fresh_env p args) Q X s =
     Q [] (push (Ran \<lparr>prog_name = p, cmd_args = args, cmd_stdin = None\<rparr> (Exited (Some 0) [] [] None)) s)"
  "p \<noteq> ''blkid'' \<Longrightarrow> wp (run_with_stdin fresh_env p args pw) R X s =
     R () (push (Ran \<lparr>prog_name = p, cmd_args = args, cmd_stdin = Some pw\<rparr> (Exited (Some 0) [] [] None)) s)"
  "wp (path_exists fresh_env d) B X s = B True (push Looked s)"
  "wp (make_dir fresh_env e) R X s = R () (push (MadeDir e) s)"
  by (simp_all add: run_ok_def run_with_stdin_def wp_bnd wp_exec wp_ret path_exists_def make_dir_def
      fresh_env_def Let_def) (simp_all add: wp_def)

lemma wp_fresh_rest:
  "wp (settle fresh_env) Q X s = Q () (push (Ran \<lparr>prog_name = ''udevadm'',
     cmd_args = [str ''settle'', str ''--timeout=30''], cmd_stdin = None\<rparr> (Exited (Some 0) [] [] None)) s)"
  "wp (wait_for_node 60 fresh_env d) Q X s = Q () (push Looked s)"
  by (simp_all add: settle_def run_quietly_def wp_bnd wp_exec wp_ret fresh_env_def)
     (simp_all add: eval_nat_numeral wp_bnd wp_ret wp_fresh_run flip: fresh_env_def)

lemma fresh_passphrase:
  assumes "dnext_id s = 0" and "dinbox s = [(1, str ''ab''), (2, str ''abcd''), (3, str ''abcd'')]"
  shows "\<exists>s'. ask_new_passphrase fresh_cfg s = (Done (str ''abcd''), s')"
  using assms
  by (simp add: ask_new_passphrase_def asking_def new_passphrase_turn_def dask_def wait_for_answer_def
      answer_of_def dmutate_def dstate_def update_state_def bnd_def ret_def push_def fresh_cfg_def
      eval_nat_numeral)

lemma wp_fresh_provision:
  "wp (provision fresh_env fresh_cfg i) (\<lambda>_ _. True) (\<lambda>_. False) fresh_state"
proof -
  have pw: "wp (ask_new_passphrase fresh_cfg) (\<lambda>_ _. True) (\<lambda>_. False) (push e (fresh_state\<lparr>dsnap := sn\<rparr>))" for e sn
    using fresh_passphrase [of "push e (fresh_state\<lparr>dsnap := sn\<rparr>)"]
    by (auto simp: wp_def fresh_state_def boot_state_def push_def)
  have rest: "wp (bnd (format_encrypted fresh_env fresh_cfg i pw) (\<lambda>_.
      bnd (create_var_subvol fresh_env fresh_cfg) (\<lambda>_. dstate ph m))) (\<lambda>_ _. True) (\<lambda>_. False) s" for pw ph m s
    by (simp add: format_encrypted_def partition_disk_def mkfs_mapper_def create_var_subvol_def mount_top_def
        wp_bnd wp_dstate wp_fresh_run wp_fresh_rest wp_exec wp_ret)
  show ?thesis
    unfolding provision_def wp_bnd [of "dstate ph m" for ph m] wp_dstate
    by (rule wp_seq [OF pw]) (rule rest)
qed

text \<open>C10: Whatever the tools answer and the operator types, every destructive command of a boot is
  justified by what came before it: the partition table is wiped and the LUKS container
  created only on a disk just shown as blank, the container with a passphrase of the minimum
  length typed twice in a row; partitions are rewritten only on a blank disk or on our own;
  and mkfs runs only after such a container, or on a mapper that blkid last found empty when
  the operator's last answer was yes.\<close>

theorem disks_destroyed_only_when_justified:
  "justified cfg (dtrace (snd (run_daemon E cfg (boot_state msgs))))"
  by (rule wp_snd [where I = "\<lambda>s. justified cfg (dtrace s)", OF wp_run_daemon])
     (simp add: boot_state_def)

text \<open>C11: When the daemon lets the boot go on, the volume can be mounted as /var: after an unlock or
  a provisioning, the mapper's file system has been mounted, its var subvolume was there or
  has been created, and it was unmounted again; before a migration, the legacy volume
  carries the label.  A migration, a block and an empty set of disks never let it go on.\<close>

theorem boot_goes_on_only_with_var:
  assumes "carry_out E cfg p s = (Done (), s')"
  shows "case p of
      PlanUnlock i \<Rightarrow> var_ready cfg (dtrace s')
    | PlanProvision i \<Rightarrow> var_ready cfg (dtrace s')
    | PlanBootLegacy i \<Rightarrow> labelled cfg i (dtrace s')
    | _ \<Rightarrow> False"
  using assms wp_DoneD [OF wp_unlock_ready] wp_DoneD [OF wp_provision_ready]
    wp_DoneD [OF wp_ensure_label] wp_DoneD [OF wp_migrate_never]
    wp_DoneD [OF wp_block_never [where Q = "\<lambda>_ _. False"]]
  by (cases p) (auto simp: carry_out_def fail_def)

theorem boot_goes_on_only_with_var_witness:
  "var_ready fresh_cfg (dtrace (snd (provision fresh_env fresh_cfg (str ''vol-1'') fresh_state)))"
proof -
  let ?r = "provision fresh_env fresh_cfg (str ''vol-1'') fresh_state"
  have "fst ?r = Done ()"
    using wp_fresh_provision [of "str ''vol-1''"] by (cases ?r; cases "fst ?r") (auto simp: wp_def)
  then have "carry_out fresh_env fresh_cfg (PlanProvision (str ''vol-1'')) fresh_state = (Done (), snd ?r)"
    by (simp add: carry_out_def prod_eq_iff)
  from boot_goes_on_only_with_var [OF this] show ?thesis by simp
qed

text \<open>C12: The plan for any set of disks: a disk is unlocked, booted from, migrated or provisioned
  exactly when it is the only one of its class and no encrypted volume stands beside an
  unencrypted one; anything else blocks the boot.\<close>

theorem plan_for_every_set:
  "(plan disks = PlanUnlock l \<longleftrightarrow> of_class Luks disks = [l] \<and> of_class Legacy disks = [] \<and>
      length (of_class Blank disks) \<le> 1) \<and>
   (plan disks = PlanBootLegacy old \<longleftrightarrow> of_class Luks disks = [] \<and> of_class Legacy disks = [old] \<and>
      of_class Blank disks = []) \<and>
   (plan disks = PlanMigrate old new \<longleftrightarrow> of_class Luks disks = [] \<and> of_class Legacy disks = [old] \<and>
      of_class Blank disks = [new]) \<and>
   (plan disks = PlanProvision new \<longleftrightarrow> of_class Luks disks = [] \<and> of_class Legacy disks = [] \<and>
      of_class Blank disks = [new]) \<and>
   (plan disks = PlanNoDisks \<longleftrightarrow> of_class Luks disks = [] \<and> of_class Legacy disks = [] \<and>
      of_class Blank disks = []) \<and>
   ((\<exists>r. plan disks = PlanBlock r) \<longleftrightarrow>
      1 < length (of_class Luks disks) \<or> 1 < length (of_class Legacy disks) \<or>
      1 < length (of_class Blank disks) \<or>
      (of_class Luks disks \<noteq> [] \<and> of_class Legacy disks \<noteq> []))"
  by (rule plan_table)

text \<open>A probe that fails is taken for a probe that found nothing: with blkid exiting 8, its code
  for an ambivalent result, a disk without a first partition is classified blank, the class
  that may be formatted.\<close>

theorem failed_probe_counts_as_blank:
  "\<exists>infos. fst (classify_all
       (fresh_env\<lparr>d_run := \<lambda>_ _. Exited (Some 8) [] (str ''ambivalent result'') None,
                  d_exists := \<lambda>_ _. False\<rparr>) fresh_cfg [str ''vol-1''] fresh_state) = Done infos \<and>
     map di_class infos = [Blank]"
  by (simp add: probe_def path_exists_def probe_value_def exec_def bnd_def ret_def Let_def
      classify_def fresh_env_def)

text \<open>The content of an opened mapper counts as empty exactly when blkid exited 2, and as btrfs
  exactly when blkid succeeded and printed that type; a failed probe is never either.\<close>

theorem mapper_empty_only_on_exit_2:
  "(mapper_fs_from_blkid code out = Empty \<longleftrightarrow> code = Some 2) \<and>
   (mapper_fs_from_blkid code out = Btrfs \<longleftrightarrow> code = Some 0 \<and> trim out = str ''btrfs'')"
  by (auto simp: mapper_fs_from_blkid_def)

text \<open>split_prefix_glob accepts exactly a directory, a slash, a prefix and a final star, with
  no other wildcard and neither part empty, and returns the two parts.\<close>

theorem split_prefix_glob_exact:
  "split_prefix_glob g = Some (dir, pre) \<longleftrightarrow>
     g = dir @ 47 # pre @ [42] \<and> dir \<noteq> [] \<and> pre \<noteq> [] \<and> 47 \<notin> set pre \<and>
     42 \<notin> set (dir @ pre) \<and> 63 \<notin> set (dir @ pre) \<and> 91 \<notin> set (dir @ pre)"
  unfolding split_prefix_glob_Some_iff by blast



end
