(* ===== verification/Rust_Bytes.thy ===== *)
theory Rust_Bytes
  imports Rust_Str "HOL-Library.Word"
begin

text \<open>
  Bytes: the UTF-8 encoding behind \<open>str::bytes\<close> and \<open>str::as_bytes\<close>, and the two byte
  encodings of oidc-credential-validator (\<open>packages/oidc-credential-validator/src/main.rs\<close>),
  \<open>form_urlencode\<close> and \<open>base64\<close>, each with the decoder of its standard as the reference.
\<close>

unbundle bit_operations_syntax

type_synonym byte = "8 word"

section \<open>UTF-8\<close>

definition utf8_char :: "rchar \<Rightarrow> byte list" where
  "utf8_char c = map word_of_nat
     (if c < 0x80 then [c]
      else if c < 0x800 then [0xC0 + c div 64, 0x80 + c mod 64]
      else if c < 0x10000 then [0xE0 + c div 4096, 0x80 + c div 64 mod 64, 0x80 + c mod 64]
      else [0xF0 + c div 262144, 0x80 + c div 4096 mod 64, 0x80 + c div 64 mod 64, 0x80 + c mod 64])"

definition utf8 :: "rstr \<Rightarrow> byte list" where
  "utf8 s = concat (map utf8_char s)"

text \<open>\<open>char\<close> holds scalar values only; the bound is all the proofs need of that.\<close>

definition scalar_values :: "rstr \<Rightarrow> bool" where
  "scalar_values s \<longleftrightarrow> (\<forall>c\<in>set s. c < 0x110000)"

lemma unat_byte_le: "unat (w :: byte) \<le> 255"
proof -
  have "unat w < 2 ^ 8" by (rule order.strict_trans2 [OF unsigned_less]) simp
  then show ?thesis by simp
qed

lemma unat_byte [simp]: "k < 256 \<Longrightarrow> unat (word_of_nat k :: byte) = k"
  by (simp add: unat_of_nat)

fun utf8_decode1 :: "byte list \<Rightarrow> (rchar \<times> byte list) option" where
  "utf8_decode1 [] = None"
| "utf8_decode1 (a # bs) =
     (if unat a < 0x80 then Some (unat a, bs)
      else if unat a < 0xE0 then
        (case bs of b # r \<Rightarrow> Some ((unat a - 0xC0) * 64 + (unat b - 0x80), r) | _ \<Rightarrow> None)
      else if unat a < 0xF0 then
        (case bs of b # c # r \<Rightarrow> Some ((unat a - 0xE0) * 4096 + (unat b - 0x80) * 64 + (unat c - 0x80), r)
         | _ \<Rightarrow> None)
      else
        (case bs of b # c # d # r \<Rightarrow>
           Some ((unat a - 0xF0) * 262144 + (unat b - 0x80) * 4096 + (unat c - 0x80) * 64 + (unat d - 0x80), r)
         | _ \<Rightarrow> None))"

lemma utf8_split2: "(c :: nat) div 64 * 64 + c mod 64 = c"
  by (rule div_mult_mod_eq)

lemma utf8_split3: "(c :: nat) div 4096 * 4096 + c div 64 mod 64 * 64 + c mod 64 = c"
proof -
  have "c div 4096 = c div 64 div 64" by (simp add: div_mult2_eq [symmetric])
  then show ?thesis using div_mult_mod_eq [of "c div 64" 64] div_mult_mod_eq [of c 64] by linarith
qed

lemma utf8_split4:
  "(c :: nat) div 262144 * 262144 + c div 4096 mod 64 * 4096 + c div 64 mod 64 * 64 + c mod 64 = c"
proof -
  have "c div 262144 = c div 4096 div 64" by (simp add: div_mult2_eq [symmetric])
  then show ?thesis using div_mult_mod_eq [of "c div 4096" 64] utf8_split3 [of c] by linarith
qed

lemma utf8_decode1_char:
  assumes "c < 0x110000" shows "utf8_decode1 (utf8_char c @ bs) = Some (c, bs)"
proof -
  consider "c < 0x80" | "0x80 \<le> c" "c < 0x800" | "0x800 \<le> c" "c < 0x10000" | "0x10000 \<le> c"
    by linarith
  then show ?thesis
  proof cases
    case 1
    then show ?thesis by (simp add: utf8_char_def)
  next
    case 2
    then have q: "c div 64 < 32" by auto
    from 2 show ?thesis using utf8_split2 [of c] by (simp add: utf8_char_def q del: of_nat_add)
  next
    case 3
    then have q: "c div 4096 < 16" by auto
    from 3 show ?thesis using utf8_split3 [of c] by (simp add: utf8_char_def q del: of_nat_add)
  next
    case 4
    with assms have q: "c div 262144 < 16" by auto
    from 4 show ?thesis using utf8_split4 [of c] by (simp add: utf8_char_def q del: of_nat_add)
  qed
qed

lemma utf8_char_nonempty: "utf8_char c \<noteq> []"
  by (simp add: utf8_char_def)

lemma utf8_inj: "scalar_values s \<Longrightarrow> scalar_values t \<Longrightarrow> utf8 s = utf8 t \<Longrightarrow> s = t"
proof (induction s arbitrary: t)
  case Nil
  then show ?case by (cases t) (auto simp: utf8_def utf8_char_nonempty)
next
  case (Cons c s)
  then obtain d t' where t: "t = d # t'" by (cases t) (auto simp: utf8_def utf8_char_nonempty)
  have "utf8_decode1 (utf8 (c # s)) = Some (c, utf8 s)" and "utf8_decode1 (utf8 t) = Some (d, utf8 t')"
    using Cons.prems utf8_decode1_char [of c "utf8 s"] utf8_decode1_char [of d "utf8 t'"]
    by (simp_all add: t utf8_def scalar_values_def)
  with Cons.prems(3) have "c = d" "utf8 s = utf8 t'" by simp_all
  with Cons t show ?case by (auto simp: scalar_values_def)
qed

lemma utf8_ascii: "(\<forall>c\<in>set s. c < 128) \<Longrightarrow> utf8 s = map word_of_nat s"
  by (induction s) (auto simp: utf8_def utf8_char_def)

section \<open>Form encoding\<close>

definition hex_digit :: "nat \<Rightarrow> rchar" where
  "hex_digit d = (if d < 10 then 48 + d else 55 + d)"

definition url_unreserved :: "nat \<Rightarrow> bool" where
  "url_unreserved n \<longleftrightarrow> is_ascii_alphanumeric n \<or> n = 45 \<or> n = 46 \<or> n = 95 \<or> n = 126"

definition urlencode_byte :: "byte \<Rightarrow> rstr" where
  "urlencode_byte b =
     (let n = unat b in
      if url_unreserved n then [n]
      else if n = 32 then [43]
      else [37, hex_digit (n div 16), hex_digit (n mod 16)])"

definition form_urlencode :: "rstr \<Rightarrow> rstr" where
  "form_urlencode s = concat (map urlencode_byte (utf8 s))"

text \<open>The decoder: a plus sign is a space, a percent sign takes two hexadecimal digits.\<close>

definition hex_value :: "rchar \<Rightarrow> nat option" where
  "hex_value c =
     (if is_ascii_digit c then Some (c - 48)
      else if 65 \<le> c \<and> c \<le> 70 then Some (c - 55)
      else if 97 \<le> c \<and> c \<le> 102 then Some (c - 87) else None)"

fun form_urldecode :: "rstr \<Rightarrow> byte list option" where
  "form_urldecode [] = Some []"
| "form_urldecode (c # s) =
     (if c = 43 then map_option ((#) 32) (form_urldecode s)
      else if c = 37 then
        (case s of
           h # l # r \<Rightarrow>
             (case (hex_value h, hex_value l, form_urldecode r) of
                (Some a, Some b, Some bs) \<Rightarrow> Some (word_of_nat (a * 16 + b) # bs)
              | _ \<Rightarrow> None)
         | _ \<Rightarrow> None)
      else map_option ((#) (word_of_nat c)) (form_urldecode s))"

lemma hex_value_digit: "d < 16 \<Longrightarrow> hex_value (hex_digit d) = Some d"
  by (auto simp: hex_value_def hex_digit_def is_ascii_digit_def)

lemma word_of_unat: "word_of_nat (unat b) = (b :: byte)"
  by simp

lemma form_urldecode_byte:
  "form_urldecode (urlencode_byte b @ s) = map_option ((#) b) (form_urldecode s)"
proof -
  consider (plain) "url_unreserved (unat b)" | (space) "unat b = 32"
    | (escaped) "\<not> url_unreserved (unat b)" "unat b \<noteq> 32"
    by blast
  then show ?thesis
  proof cases
    case plain
    then have "unat b \<noteq> 43" "unat b \<noteq> 37" by (auto simp: url_unreserved_def char_class_defs)
    with plain show ?thesis by (simp add: urlencode_byte_def Let_def word_of_unat)
  next
    case space
    then have "b = 32" by (metis word_of_unat of_nat_numeral)
    with space show ?thesis by (simp add: urlencode_byte_def url_unreserved_def char_class_defs)
  next
    case escaped
    have "unat b div 16 < 16" using unat_byte_le [of b] by auto
    then have "hex_value (hex_digit (unat b div 16)) = Some (unat b div 16)"
      and "hex_value (hex_digit (unat b mod 16)) = Some (unat b mod 16)"
      by (simp_all add: hex_value_digit)
    moreover have "word_of_nat (unat b div 16 * 16 + unat b mod 16) = b"
      by (simp only: div_mult_mod_eq word_of_unat)
    moreover have "urlencode_byte b = [37, hex_digit (unat b div 16), hex_digit (unat b mod 16)]"
      using escaped by (simp add: urlencode_byte_def Let_def)
    ultimately show ?thesis
      by (cases "form_urldecode s") (simp_all del: of_nat_add of_nat_mult)
  qed
qed

lemma form_urldecode_urlencode: "form_urldecode (form_urlencode s) = Some (utf8 s)"
proof -
  have "form_urldecode (concat (map urlencode_byte bs)) = Some bs" for bs
    by (induction bs) (simp_all add: form_urldecode_byte)
  then show ?thesis by (simp add: form_urlencode_def)
qed

lemma form_urlencode_chars: "c \<in> set (form_urlencode s) \<Longrightarrow> c < 128 \<and> c \<noteq> 58"
proof -
  have "hex_digit d < 128 \<and> hex_digit d \<noteq> 58" if "d < 16" for d
    using that by (auto simp: hex_digit_def)
  then have "c < 128 \<and> c \<noteq> 58" if "c \<in> set (urlencode_byte b)" for b
    using that unat_byte_le [of b]
    by (auto simp: urlencode_byte_def Let_def url_unreserved_def char_class_defs split: if_splits)
  then show "c \<in> set (form_urlencode s) \<Longrightarrow> c < 128 \<and> c \<noteq> 58"
    by (auto simp: form_urlencode_def)
qed

section \<open>Base64\<close>

definition base64_table :: rstr where
  "base64_table = str ''ABCDEFGHIJKLMNOPQRSTUVWXYZabcdefghijklmnopqrstuvwxyz0123456789+/''"

definition base64_group :: "byte \<Rightarrow> byte \<Rightarrow> byte \<Rightarrow> 32 word" where
  "base64_group a b c = push_bit 16 (ucast a) OR push_bit 8 (ucast b) OR ucast c"

definition base64_at :: "32 word \<Rightarrow> nat \<Rightarrow> rchar" where
  "base64_at n k = base64_table ! unat (drop_bit k n AND 63)"

fun base64 :: "byte list \<Rightarrow> rstr" where
  "base64 [] = []"
| "base64 [a] = (let n = base64_group a 0 0 in [base64_at n 18, base64_at n 12, 61, 61])"
| "base64 [a, b] = (let n = base64_group a b 0 in [base64_at n 18, base64_at n 12, base64_at n 6, 61])"
| "base64 (a # b # c # bs) =
     (let n = base64_group a b c in
      [base64_at n 18, base64_at n 12, base64_at n 6, base64_at n 0] @ base64 bs)"

text \<open>The decoder of RFC 4648.\<close>

definition base64_value :: "rchar \<Rightarrow> nat option" where
  "base64_value c = position (\<lambda>x. x = c) base64_table"

definition bytes3 :: "nat \<Rightarrow> byte list" where
  "bytes3 n = [word_of_nat (n div 65536), word_of_nat (n div 256 mod 256), word_of_nat (n mod 256)]"

fun base64_decode :: "rstr \<Rightarrow> byte list option" where
  "base64_decode [] = Some []"
| "base64_decode (p # q # r # s # cs) =
     (case (base64_value p, base64_value q) of
        (Some i, Some j) \<Rightarrow>
          if r = 61 then if s = 61 \<and> cs = [] then Some (take 1 (bytes3 (i * 262144 + j * 4096))) else None
          else (case base64_value r of
            Some k \<Rightarrow>
              if s = 61 then if cs = [] then Some (take 2 (bytes3 (i * 262144 + j * 4096 + k * 64))) else None
              else (case (base64_value s, base64_decode cs) of
                 (Some l, Some bs) \<Rightarrow> Some (bytes3 (i * 262144 + j * 4096 + k * 64 + l) @ bs)
               | _ \<Rightarrow> None)
          | None \<Rightarrow> None)
      | _ \<Rightarrow> None)"
| "base64_decode _ = None"


lemma unat_base64_group: "unat (base64_group a b c) = unat a * 65536 + unat b * 256 + unat c"
proof -
  let ?a = "ucast a :: 32 word" and ?b = "ucast b :: 32 word" and ?c = "ucast c :: 32 word"
  have le: "unat ?a \<le> 255" "unat ?b \<le> 255" "unat ?c \<le> 255"
    and same: "unat ?a = unat a" "unat ?b = unat b" "unat ?c = unat c"
    using unat_byte_le [of a] unat_byte_le [of b] unat_byte_le [of c]
    by (simp_all add: unsigned_ucast_eq take_bit_nat_eq_self)
  have "push_bit 8 ?b OR ?c = push_bit 8 ?b + ?c"
    by (rule disjunctive_add [symmetric]) (auto simp: bit_simps dest: bit_imp_le_length)
  moreover have "push_bit 16 ?a OR (push_bit 8 ?b OR ?c) = push_bit 16 ?a + (push_bit 8 ?b OR ?c)"
    by (rule disjunctive_add [symmetric]) (auto simp: bit_simps dest: bit_imp_le_length)
  ultimately have "base64_group a b c = ?a * 65536 + (?b * 256 + ?c)"
    by (simp add: base64_group_def or.assoc push_bit_eq_mult)
  then show ?thesis
    using le by (simp add: unat_word_ariths same)
qed


lemma distinct_table: "distinct base64_table" and length_table: "length base64_table = 64"
  by (simp_all add: base64_table_def str_def)

lemma table_not_pad: "61 \<notin> set base64_table"
  by (simp add: base64_table_def str_def)

lemma base64_value_nth: "i < 64 \<Longrightarrow> base64_value (base64_table ! i) = Some i"
  by (simp add: base64_value_def position_nth distinct_table length_table)

lemma base64_at_index: "base64_at n k = base64_table ! (unat n div 2 ^ k mod 64)"
proof -
  have m: "(63 :: 32 word) = mask 6" by (simp add: mask_eq_exp_minus_1)
  have "unat (drop_bit k n AND 63) = unat n div 2 ^ k mod 64"
    unfolding m take_bit_eq_mask [symmetric] unsigned_take_bit_eq unsigned_drop_bit_eq
    using unsigned_less [of n, where ?'a = nat] by (simp add: drop_bit_eq_div take_bit_eq_mod)
  then show ?thesis by (simp add: base64_at_def)
qed

lemma base64_at_value: "base64_value (base64_at n k) = Some (unat n div 2 ^ k mod 64)"
  by (simp add: base64_at_index base64_value_nth)

lemma base64_at_not_pad: "base64_at n k \<noteq> 61"
proof -
  have "base64_at n k \<in> set base64_table"
    by (simp add: base64_at_index length_table)
  then show ?thesis using table_not_pad by metis
qed

lemma sextets:
  assumes "(n :: nat) < 16777216"
  shows "n div 262144 mod 64 * 262144 + n div 4096 mod 64 * 4096 + n div 64 mod 64 * 64 + n mod 64 = n"
proof -
  have "n div 262144 mod 64 = n div 262144" using assms by (intro mod_less) auto
  then show ?thesis using utf8_split4 [of n] by simp
qed

lemma bytes3_group:
  "bytes3 (unat (base64_group a b c)) = [a, b, c]"
proof -
  let ?a = "unat a" and ?b = "unat b" and ?c = "unat c"
  have le: "?a < 256" "?b < 256" "?c < 256"
    using unat_byte_le [of a] unat_byte_le [of b] unat_byte_le [of c] by simp_all
  have "(?a * 65536 + ?b * 256 + ?c) div 65536 = ?a" using le by simp
  moreover have "(?a * 65536 + ?b * 256 + ?c) div 256 mod 256 = ?b"
  proof -
    have "?a * 65536 + ?b * 256 + ?c = (?a * 256 + ?b) * 256 + ?c" by simp
    moreover have "(x * 256 + ?c) div 256 = x" for x using le(3) by simp
    moreover have "(?a * 256 + ?b) mod 256 = ?b" using le(2) by simp
    ultimately show ?thesis by (simp only:)
  qed
  moreover have "(?a * 65536 + ?b * 256 + ?c) mod 256 = ?c"
  proof -
    have "?a * 65536 + ?b * 256 + ?c = (?a * 256 + ?b) * 256 + ?c" by simp
    moreover have "(x * 256 + ?c) mod 256 = ?c" for x using le(3) by simp
    ultimately show ?thesis by (simp only:)
  qed
  ultimately show ?thesis by (simp add: bytes3_def unat_base64_group)
qed

lemma base64_group_less: "unat (base64_group a b c) < 16777216"
  using unat_byte_le [of a] unat_byte_le [of b] unat_byte_le [of c] by (simp add: unat_base64_group)

lemma base64_decode_encode: "base64_decode (base64 bs) = Some bs"
proof (induction bs rule: base64.induct)
  case (2 a)
  let ?n = "unat (base64_group a 0 0)"
  have n: "?n = unat a * 65536" by (simp add: unat_base64_group)
  have "?n div 64 mod 64 = 0" "?n mod 64 = 0" by (simp_all add: n)
  with sextets [OF base64_group_less, of a 0 0]
  have "?n div 262144 mod 64 * 262144 + ?n div 4096 mod 64 * 4096 = ?n" by linarith
  with bytes3_group [of a 0 0]
  have "bytes3 (?n div 262144 mod 64 * 262144 + ?n div 4096 mod 64 * 4096) = [a, 0, 0]" by (simp only:)
  then show ?case
    by (simp add: Let_def base64_at_value base64_at_not_pad)
next
  case (3 a b)
  let ?n = "unat (base64_group a b 0)"
  have "?n mod 64 = 0" by (simp add: unat_base64_group mod_eq_0_iff_dvd)
  with sextets [OF base64_group_less, of a b 0]
  have "?n div 262144 mod 64 * 262144 + ?n div 4096 mod 64 * 4096 + ?n div 64 mod 64 * 64 = ?n" by linarith
  with bytes3_group [of a b 0]
  have "bytes3 (?n div 262144 mod 64 * 262144 + ?n div 4096 mod 64 * 4096 + ?n div 64 mod 64 * 64) = [a, b, 0]"
    by (simp only:)
  then show ?case
    by (simp add: Let_def base64_at_value base64_at_not_pad)
next
  case (4 a b c bs)
  let ?n = "unat (base64_group a b c)"
  have "?n div 262144 mod 64 * 262144 + ?n div 4096 mod 64 * 4096 + ?n div 64 mod 64 * 64 + ?n mod 64 = ?n"
    by (rule sextets [OF base64_group_less])
  with bytes3_group [of a b c]
  have "bytes3 (?n div 262144 mod 64 * 262144 + ?n div 4096 mod 64 * 4096 + ?n div 64 mod 64 * 64 + ?n mod 64) =
      [a, b, c]"
    by (simp only:)
  with 4 show ?case
    by (simp add: Let_def base64_at_value base64_at_not_pad)
qed simp

end
