(* ===== verification/Hypr_Ids.thy ===== *)
theory Hypr_Ids
  imports Rust_Bytes "HOL-Library.AList"
begin

text \<open>
  Workspace numbers and monitor slots of hypr-workspaced,
  \<open>packages/hypr-workspaced/src/workspace.rs\<close>: \<open>VirtualWorkspace\<close>, \<open>MonitorSlot\<close>,
  \<open>MonitorRegistry\<close> and \<open>MonitorLayout\<close>, with the errors of \<open>error.rs\<close>.

  The two \<open>u8\<close> newtypes hold an \<open>8 word\<close>; a Hyprland workspace id (\<open>i32\<close>) is an \<open>int\<close>,
  and the casts to \<open>u8\<close> wrap.  The registry is the list of descriptions, one per line of its
  file, as in the source.  A \<open>HashMap\<close> is an association list: nothing reads its order.
\<close>

section \<open>Errors\<close>

text \<open>\<open>error.rs\<close>; errors of other crates are kept as their rendered text.\<close>

datatype hypr_error =
    HyprlandRequest rstr rstr
  | HyprlandSocket rstr
  | HyprlandQueueFull
  | HyprlandAnswer rstr rstr
  | NoFocusedMonitor
  | IoError rstr
  | InvalidCommand rstr
  | InvalidVirtualWorkspace "8 word"
  | InvalidWindowPattern rstr
  | DaemonNotRunning
  | NoMonitors
  | OtherError rstr

section \<open>Virtual workspaces\<close>

datatype virtual_workspace = VW "8 word"

fun vw_number :: "virtual_workspace \<Rightarrow> 8 word" where
  "vw_number (VW n) = n"

definition vw_new :: "8 word \<Rightarrow> hypr_error + virtual_workspace" where
  "vw_new n = (if 1 \<le> n \<and> n \<le> 9 then Inr (VW n) else Inl (InvalidVirtualWorkspace n))"

fun vw_next :: "virtual_workspace \<Rightarrow> virtual_workspace" where
  "vw_next (VW n) = VW (n mod 9 + 1)"

fun vw_prev :: "virtual_workspace \<Rightarrow> virtual_workspace" where
  "vw_prev (VW n) = VW ((n + 7) mod 9 + 1)"

datatype monitor_slot = Slot "8 word"

fun slot_index :: "monitor_slot \<Rightarrow> 8 word" where
  "slot_index (Slot i) = i"

fun hyprland_id :: "virtual_workspace \<Rightarrow> monitor_slot \<Rightarrow> int" where
  "hyprland_id (VW n) (Slot i) = uint i * 10 + uint n"

definition vw_from_id :: "int \<Rightarrow> virtual_workspace option" where
  "vw_from_id i = (if i \<le> 0 \<or> i mod 10 = 0 then None
                   else Some (VW (word_of_int ((i - 1) mod 10 + 1))))"

fun orphan_workspace_id :: "monitor_slot \<Rightarrow> int" where
  "orphan_workspace_id (Slot i) = uint i * 10"

definition slot_from_id :: "int \<Rightarrow> monitor_slot" where
  "slot_from_id i = (if i < 10 then Slot 0 else Slot (word_of_int (i div 10)))"

text \<open>The numbers a \<open>VirtualWorkspace\<close> can hold: the tuple field is private.\<close>

definition vw_ok :: "virtual_workspace \<Rightarrow> bool" where
  "vw_ok v \<longleftrightarrow> 1 \<le> uint (vw_number v) \<and> uint (vw_number v) \<le> 9"

lemma uint_byte: "0 \<le> k \<Longrightarrow> k < 256 \<Longrightarrow> uint (word_of_int k :: 8 word) = k"
  by (simp add: uint_word_of_int)

lemma uint_byte_mod: "uint (word_of_int k :: 8 word) = k mod 256"
  by (simp add: uint_word_of_int)

lemma vw_new_ok: "vw_new n = Inr v \<Longrightarrow> vw_ok v"
  by (auto simp: vw_new_def vw_ok_def word_le_def split: if_splits)

lemma vw_from_id_eq:
  "vw_from_id i = (if i \<le> 0 \<or> i mod 10 = 0 then None else Some (VW (word_of_int (i mod 10))))"
proof -
  have "(i - 1) mod 10 + 1 = i mod 10" if "i mod 10 \<noteq> 0" using that by presburger
  then show ?thesis unfolding vw_from_id_def by metis
qed

lemma vw_from_id_uint: "vw_from_id i = Some v \<Longrightarrow> uint (vw_number v) = i mod 10"
  by (auto simp: vw_from_id_eq uint_byte split: if_splits)

lemma vw_from_id_ok: "vw_from_id i = Some v \<Longrightarrow> vw_ok v"
proof -
  assume v: "vw_from_id i = Some v"
  then have "i mod 10 \<noteq> 0" by (simp add: vw_from_id_def split: if_splits)
  then have "1 \<le> i mod 10" and "i mod 10 \<le> 9" by presburger+
  with vw_from_id_uint [OF v] show ?thesis by (simp add: vw_ok_def)
qed

section \<open>Workspace ids as an interface\<close>

text \<open>
  The manager needs of the ids only that the virtual workspace and the slot can be read back;
  everything it does with several monitors rests on this.
\<close>

locale workspace_ids =
  fixes id_of :: "'v \<Rightarrow> 's \<Rightarrow> 'i"
    and vw_of :: "'i \<Rightarrow> 'v option"
    and slot_of :: "'i \<Rightarrow> 's"
    and ok :: "'v \<Rightarrow> bool"
  assumes vw_of_id: "ok v \<Longrightarrow> vw_of (id_of v s) = Some v"
    and slot_of_id: "ok v \<Longrightarrow> slot_of (id_of v s) = s"
begin

lemma id_of_eq_iff: "ok v \<Longrightarrow> ok w \<Longrightarrow> id_of v s = id_of w t \<longleftrightarrow> v = w \<and> s = t"
  by (metis option.inject slot_of_id vw_of_id)

lemma other_slot: "ok v \<Longrightarrow> s \<noteq> t \<Longrightarrow> id_of v s \<noteq> id_of v t"
  by (simp add: id_of_eq_iff)

lemma distinct_ids:
  "(\<forall>v\<in>set vs. ok v) \<Longrightarrow> distinct vs \<Longrightarrow> distinct ss \<Longrightarrow>
   distinct (concat (map (\<lambda>s. map (\<lambda>v. id_of v s) vs) ss))"
  by (induction ss) (auto simp: distinct_map inj_on_def id_of_eq_iff)

end

lemma hyprland_id_mod: "vw_ok v \<Longrightarrow> hyprland_id v s mod 10 = uint (vw_number v)"
  by (cases v; cases s) (simp add: vw_ok_def)

lemma hyprland_id_pos: "vw_ok v \<Longrightarrow> 0 < hyprland_id v s"
  by (cases v; cases s) (simp add: vw_ok_def add_nonneg_pos)

interpretation ids: workspace_ids hyprland_id vw_from_id slot_from_id vw_ok
proof unfold_locales
  fix v s assume v: "vw_ok v"
  have nz: "hyprland_id v s mod 10 \<noteq> 0" using hyprland_id_mod [OF v, of s] v by (simp add: vw_ok_def)
  then obtain w where w: "vw_from_id (hyprland_id v s) = Some w"
    using hyprland_id_pos [OF v, of s] by (simp add: vw_from_id_def)
  have "uint (vw_number w) = uint (vw_number v)"
    using vw_from_id_uint [OF w] hyprland_id_mod [OF v, of s] by simp
  then show "vw_from_id (hyprland_id v s) = Some v"
    using w by (cases v; cases w) (simp add: word_uint_eq_iff)
next
  fix v s assume v: "vw_ok v"
  obtain n i where vs: "v = VW n" "s = Slot i" by (cases v; cases s) auto
  have n: "1 \<le> uint n" "uint n \<le> 9" using v by (simp_all add: vw_ok_def vs)
  have i: "0 \<le> uint i" by simp
  show "slot_from_id (hyprland_id v s) = s"
  proof (cases "uint i = 0")
    case True
    then have "i = 0" by (simp add: uint_0_iff [THEN iffD1])
    with n show ?thesis by (simp add: vs slot_from_id_def)
  next
    case False
    with i have "10 \<le> uint i * 10 + uint n" using n by linarith
    moreover have "(uint i * 10 + uint n) div 10 = uint i" using n by simp
    ultimately show ?thesis by (simp add: vs slot_from_id_def)
  qed
qed

lemma hyprland_id_of_id:
  assumes "vw_from_id i = Some v" and "i < 2560"
  shows "hyprland_id v (slot_from_id i) = i"
proof -
  obtain n where v: "v = VW n" by (cases v)
  have n: "uint n = i mod 10" using vw_from_id_uint [OF assms(1)] by (simp add: v)
  have i: "0 < i" using assms(1) by (simp add: vw_from_id_def split: if_splits)
  show ?thesis
  proof (cases "i < 10")
    case True
    with i n show ?thesis by (simp add: v slot_from_id_def)
  next
    case False
    then have "uint (word_of_int (i div 10) :: 8 word) = i div 10"
      using i assms(2) by (intro uint_byte) auto
    with False show ?thesis by (simp add: v slot_from_id_def n)
  qed
qed

section \<open>The monitor registry\<close>

record hypr_monitor =
  mon_id :: int
  mon_name :: rstr
  mon_description :: rstr
  mon_x :: int
  mon_active :: int
  mon_focused :: bool

definition slot_for_desc :: "rstr list \<Rightarrow> rstr \<Rightarrow> nat option" where
  "slot_for_desc entries d = position (\<lambda>e. e = d) entries"

definition register_one :: "rstr list \<times> bool \<Rightarrow> hypr_monitor \<Rightarrow> rstr list \<times> bool" where
  "register_one = (\<lambda>(entries, modified) m.
     if slot_for_desc entries (mon_description m) = None
     then (entries @ [mon_description m], True) else (entries, modified))"

definition register :: "rstr list \<Rightarrow> hypr_monitor list \<Rightarrow> rstr list \<times> bool" where
  "register entries monitors =
     (if entries = [] then (map mon_description monitors, monitors \<noteq> [])
      else foldl register_one (entries, False) monitors)"

text \<open>\<open>MonitorRegistry::load\<close> of the file's content (\<open>None\<close>: not readable) and \<open>save\<close>.\<close>

definition registry_load :: "rstr option \<Rightarrow> rstr list" where
  "registry_load content = (case content of
      Some t \<Rightarrow> filter (\<lambda>l. l \<noteq> []) (lines t)
    | None \<Rightarrow> [])"

definition registry_text :: "rstr list \<Rightarrow> rstr" where
  "registry_text entries = join [10] entries @ [10]"

text \<open>\<open>MonitorRegistry::path\<close>; no result is the panic of \<open>expect("HOME not set")\<close>.\<close>

definition registry_path :: "rstr option \<Rightarrow> rstr option \<Rightarrow> rstr option" where
  "registry_path xdg_state_home home =
     map_option (\<lambda>dir. path_join (path_join dir (str ''hypr-workspaced'')) (str ''monitors''))
       (case xdg_state_home of
          Some d \<Rightarrow> Some d
        | None \<Rightarrow> map_option (\<lambda>h. path_join h (str ''.local/state'')) home)"

lemma slot_for_desc_less: "slot_for_desc es d = Some i \<Longrightarrow> i < length es \<and> es ! i = d"
  unfolding slot_for_desc_def by (drule position_SomeD) simp

lemma slot_for_desc_None_iff: "slot_for_desc es d = None \<longleftrightarrow> d \<notin> set es"
  by (auto simp: slot_for_desc_def position_None_iff)

lemma slot_for_desc_append:
  "slot_for_desc (es @ fs) d =
     (case slot_for_desc es d of Some i \<Rightarrow> Some i
      | None \<Rightarrow> map_option ((+) (length es)) (slot_for_desc fs d))"
  by (simp add: slot_for_desc_def position_append cong: option.case_cong)

lemma slot_for_desc_inj:
  "slot_for_desc es d = Some i \<Longrightarrow> slot_for_desc es e = Some i \<Longrightarrow> d = e"
  by (metis slot_for_desc_less)

lemma register_fold_append:
  "\<exists>new. fst (foldl register_one (es, b) ms) = es @ new \<and>
     set new \<subseteq> mon_description ` set ms \<and> mon_description ` set ms \<subseteq> set (es @ new)"
proof (induction ms arbitrary: es b)
  case Nil
  then show ?case by simp
next
  case (Cons m ms)
  obtain es1 b1 where one: "register_one (es, b) m = (es1, b1)" by force
  then obtain k where k: "es1 = es @ k" "set k \<subseteq> {mon_description m}" "mon_description m \<in> set es1"
    by (cases "mon_description m \<in> set es")
       (auto simp: register_one_def slot_for_desc_None_iff split: if_splits)
  obtain new where "fst (foldl register_one (es1, b1) ms) = es1 @ new"
    "set new \<subseteq> mon_description ` set ms" "mon_description ` set ms \<subseteq> set (es1 @ new)"
    using Cons.IH [of es1 b1] by blast
  with k show ?case by (intro exI [of _ "k @ new"]) (auto simp: one)
qed

lemma register_append:
  obtains new where "fst (register es ms) = es @ new" and "set new \<subseteq> mon_description ` set ms"
    and "mon_description ` set ms \<subseteq> set (es @ new)"
proof (cases "es = []")
  case True
  then show ?thesis using that [of "map mon_description ms"] by (simp add: register_def)
next
  case False
  then show ?thesis
    using that register_fold_append [of es False ms] by (auto simp: register_def)
qed

text \<open>
  What the layout promises to the rest of the daemon: a description keeps its slot, every
  connected monitor has one, and two descriptions never share one.
\<close>

locale slot_registry =
  fixes lookup :: "'r \<Rightarrow> 'd \<Rightarrow> nat option"
    and reg :: "'r \<Rightarrow> 'd list \<Rightarrow> 'r"
  assumes kept: "lookup r d = Some i \<Longrightarrow> lookup (reg r ds) d = Some i"
    and found: "d \<in> set ds \<Longrightarrow> lookup (reg r ds) d \<noteq> None"
    and inj: "lookup r d = Some i \<Longrightarrow> lookup r e = Some i \<Longrightarrow> d = e"
begin

lemma kept_always: "lookup r d = Some i \<Longrightarrow> lookup (foldl reg r dss) d = Some i"
  by (induction dss arbitrary: r) (auto intro: kept)

lemma distinct_slots:
  assumes "distinct ds" and "set ds \<subseteq> set es"
  shows "distinct (map (lookup (reg r es)) ds)"
proof -
  have "d = e" if de: "d \<in> set ds" "e \<in> set ds" and eq: "lookup (reg r es) d = lookup (reg r es) e" for d e
  proof -
    from de(1) assms(2) have "d \<in> set es" by blast
    then obtain i where i: "lookup (reg r es) d = Some i" using found [of d es r] by fast
    then have "lookup (reg r es) e = Some i" using eq by simp
    with i show ?thesis by (rule inj)
  qed
  with assms(1) show ?thesis by (simp add: distinct_map inj_on_def)
qed

end

definition described :: "rstr \<Rightarrow> hypr_monitor" where
  "described d = \<lparr>mon_id = 0, mon_name = [], mon_description = d, mon_x = 0, mon_active = 0,
     mon_focused = False\<rparr>"

lemma register_one_desc:
  "mon_description m = mon_description m' \<Longrightarrow> register_one p m = register_one p m'"
  by (cases p) (simp add: register_one_def)

lemma register_described: "register es (map described (map mon_description ms)) = register es ms"
proof -
  have "foldl register_one p (map described (map mon_description ms)) = foldl register_one p ms" for p
    by (induction ms arbitrary: p) (auto simp: described_def intro!: arg_cong2 [where f = "foldl register_one"] register_one_desc)
  then show ?thesis by (simp add: register_def described_def comp_def)
qed

interpretation slots: slot_registry slot_for_desc "\<lambda>es ds. fst (register es (map described ds))"
proof unfold_locales
  fix es d i ds assume "slot_for_desc es d = Some i"
  then show "slot_for_desc (fst (register es (map described ds))) d = Some i"
    by (rule_tac es = es and ms = "map described ds" in register_append)
       (simp add: slot_for_desc_append)
next
  fix d ds es assume "d \<in> set (ds :: rstr list)"
  then have "d \<in> mon_description ` set (map described ds)" by (force simp: described_def)
  then show "slot_for_desc (fst (register es (map described ds))) d \<noteq> None"
    by (rule_tac es = es and ms = "map described ds" in register_append)
       (auto simp: slot_for_desc_None_iff)
next
  fix es d i e
  assume "slot_for_desc es d = Some i" and "slot_for_desc es e = Some i"
  then show "d = e" by (rule slot_for_desc_inj)
qed

section \<open>The layout\<close>

type_synonym monitor_layout = "(int \<times> monitor_slot) list"

definition layout_of :: "rstr list \<Rightarrow> hypr_monitor list \<Rightarrow> monitor_layout" where
  "layout_of entries monitors = foldl (\<lambda>slots m.
     case slot_for_desc entries (mon_description m) of
       Some i \<Rightarrow> AList.update (mon_id m) (Slot (word_of_nat i)) slots
     | None \<Rightarrow> slots) [] monitors"

definition slot_for :: "monitor_layout \<Rightarrow> int \<Rightarrow> monitor_slot" where
  "slot_for layout i = (case map_of layout i of Some s \<Rightarrow> s | None \<Rightarrow> Slot (word_of_int i))"

definition slot_to_monitor_name :: "monitor_layout \<Rightarrow> hypr_monitor list \<Rightarrow> (monitor_slot \<times> rstr) list" where
  "slot_to_monitor_name layout monitors =
     foldl (\<lambda>t m. AList.update (slot_for layout (mon_id m)) (mon_name m) t) [] monitors"

definition all_slots :: "monitor_layout \<Rightarrow> monitor_slot list" where
  "all_slots layout =
     (let top = foldr (\<lambda>(_, s). max (unat (slot_index s))) layout 0 in
      map (\<lambda>i. Slot (word_of_nat i)) [0..<Suc top])"

definition is_valid_workspace :: "int \<Rightarrow> nat \<Rightarrow> bool" where
  "is_valid_workspace i num_monitors \<longleftrightarrow>
     (case vw_from_id i of
        Some _ \<Rightarrow> unat (slot_index (slot_from_id i)) < num_monitors
      | None \<Rightarrow> False)"

lemma layout_of_lookup:
  assumes "distinct (map mon_id monitors)" and "m \<in> set monitors"
    and "slot_for_desc entries (mon_description m) = Some i"
  shows "slot_for (layout_of entries monitors) (mon_id m) = Slot (word_of_nat i)"
proof -
  let ?f = "\<lambda>slots m. case slot_for_desc entries (mon_description m) of
       Some i \<Rightarrow> AList.update (mon_id m) (Slot (word_of_nat i)) slots | None \<Rightarrow> slots"
  have other: "map_of (foldl ?f t ms) k = map_of t k" if "k \<notin> mon_id ` set ms" for t ms k
    using that by (induction ms arbitrary: t) (auto simp: update_conv' split: option.splits)
  have "map_of (foldl ?f t ms) (mon_id m) = Some (Slot (word_of_nat i))"
    if "distinct (map mon_id ms)" and "m \<in> set ms" for t ms
    using that assms(3)
  proof (induction ms arbitrary: t)
    case Nil
    then show ?case by simp
  next
    case (Cons a ms)
    show ?case
    proof (cases "a = m")
      case True
      with Cons.prems show ?thesis by (simp add: other update_conv')
    next
      case False
      with Cons show ?thesis by simp
    qed
  qed
  with assms show ?thesis by (simp add: slot_for_def layout_of_def)
qed

end
