(* ===== verification/Hypr_Wire.thy ===== *)
theory Hypr_Wire
  imports Hypr_Ids
begin

text \<open>
  The texts hypr-workspaced reads and writes: its own command protocol
  (\<open>packages/hypr-workspaced/src/ipc.rs\<close>), window patterns (\<open>window.rs\<close>) and the requests
  to Hyprland with their Lua string literals (\<open>request.rs\<close>), each as the printer and parser
  of the source.

  \<open>text_codec\<close> is the contract between a printer and its parser; it is interpreted on
  commands, on responses and on window patterns.
\<close>

locale text_codec =
  fixes print :: "'a \<Rightarrow> rstr"
    and parse :: "rstr \<Rightarrow> 'e + 'a"
    and ok :: "'a \<Rightarrow> bool"
  assumes parse_print: "ok a \<Longrightarrow> parse (print a) = Inr a"
begin

lemma print_inj: "ok a \<Longrightarrow> ok b \<Longrightarrow> print a = print b \<Longrightarrow> a = b"
  by (metis parse_print sum.inject(2))

end

section \<open>Commands\<close>

text \<open>
  \<open>parse_bool_arg\<close> compares the Unicode lower case of its argument with ASCII words; no
  character outside ASCII has one of their letters as its lower case, so the ASCII lower case
  decides the same.  Its error text is dropped by the only caller modelled here.
\<close>

definition parse_bool_arg :: "rstr \<Rightarrow> bool option" where
  "parse_bool_arg s =
     (let l = to_ascii_lowercase s in
      if l = str ''on'' \<or> l = str ''true'' \<or> l = str ''1'' then Some True
      else if l = str ''off'' \<or> l = str ''false'' \<or> l = str ''0'' then Some False
      else None)"

datatype direction = Next | Prev

datatype collapse_mode = All | Invisible

datatype hypr_command =
    Switch "8 word"
  | MoveTo "8 word"
  | Navigate direction
  | Collapse collapse_mode
  | Swap direction
  | Assign
  | Pin rstr
  | Unpin rstr
  | Pins
  | Debug bool

definition validate_workspace :: "8 word \<Rightarrow> hypr_error + 8 word" where
  "validate_workspace ws = (case vw_new ws of Inl e \<Rightarrow> Inl e | Inr _ \<Rightarrow> Inr ws)"

definition parse_workspace_arg :: "(8 word \<Rightarrow> hypr_command) \<Rightarrow> rstr \<Rightarrow> rstr \<Rightarrow> hypr_error + hypr_command" where
  "parse_workspace_arg f s n =
     (case parse_uint 255 n of
        None \<Rightarrow> Inl (InvalidCommand s)
      | Some k \<Rightarrow> (case validate_workspace (word_of_nat k) of Inl e \<Rightarrow> Inl e | Inr ws \<Rightarrow> Inr (f ws)))"

definition parse_command :: "rstr \<Rightarrow> hypr_error + hypr_command" where
  "parse_command s = (case split_whitespace (trim s) of
      [] \<Rightarrow> Inl (InvalidCommand s)
    | w # args \<Rightarrow>
        if w = str ''switch'' \<and> length args = 1 then parse_workspace_arg Switch s (hd args)
        else if w = str ''move'' \<and> length args = 1 then parse_workspace_arg MoveTo s (hd args)
        else if w = str ''next'' \<and> args = [] then Inr (Navigate Next)
        else if w = str ''prev'' \<and> args = [] then Inr (Navigate Prev)
        else if w = str ''collapse'' \<and> args = [str ''all''] then Inr (Collapse All)
        else if w = str ''collapse'' \<and> args = [str ''invisible''] then Inr (Collapse Invisible)
        else if w = str ''swap'' \<and> args = [str ''next''] then Inr (Swap Next)
        else if w = str ''swap'' \<and> args = [str ''prev''] then Inr (Swap Prev)
        else if w = str ''assign'' \<and> args = [] then Inr Assign
        else if w = str ''pin'' \<and> args \<noteq> [] then Inr (Pin (join [32] args))
        else if w = str ''unpin'' \<and> args \<noteq> [] then Inr (Unpin (join [32] args))
        else if w = str ''pins'' \<and> args = [] then Inr Pins
        else if w = str ''debug'' \<and> length args = 1 then
          (case parse_bool_arg (hd args) of Some b \<Rightarrow> Inr (Debug b) | None \<Rightarrow> Inl (InvalidCommand s))
        else Inl (InvalidCommand s))"

fun show_command :: "hypr_command \<Rightarrow> rstr" where
  "show_command (Switch ws) = str ''switch '' @ show_nat (unat ws)"
| "show_command (MoveTo ws) = str ''move '' @ show_nat (unat ws)"
| "show_command (Navigate Next) = str ''next''"
| "show_command (Navigate Prev) = str ''prev''"
| "show_command (Collapse All) = str ''collapse all''"
| "show_command (Collapse Invisible) = str ''collapse invisible''"
| "show_command (Swap Next) = str ''swap next''"
| "show_command (Swap Prev) = str ''swap prev''"
| "show_command Assign = str ''assign''"
| "show_command (Pin p) = str ''pin '' @ p"
| "show_command (Unpin p) = str ''unpin '' @ p"
| "show_command Pins = str ''pins''"
| "show_command (Debug b) = str ''debug '' @ (if b then str ''on'' else str ''off'')"

section \<open>Responses\<close>

datatype hypr_response = RespOk | RespData rstr | RespError rstr

definition parse_response :: "rstr \<Rightarrow> hypr_error + hypr_response" where
  "parse_response s =
     (let trimmed = trim s in
      if trimmed = str ''ok'' then Inr RespOk
      else case strip_prefix trimmed (str ''error: '') of
        Some msg \<Rightarrow> Inr (RespError msg)
      | None \<Rightarrow> (case strip_prefix trimmed (str ''data: '') of
          Some data \<Rightarrow> Inr (RespData data)
        | None \<Rightarrow> Inl (InvalidCommand (str ''Invalid response: '' @ s))))"

fun show_response :: "hypr_response \<Rightarrow> rstr" where
  "show_response RespOk = str ''ok''"
| "show_response (RespData d) = str ''data: '' @ d"
| "show_response (RespError m) = str ''error: '' @ m"

definition ipc_socket_path :: "rstr option \<Rightarrow> rstr" where
  "ipc_socket_path xdg_runtime_dir =
     path_join (case xdg_runtime_dir of Some d \<Rightarrow> d | None \<Rightarrow> str ''/tmp'') (str ''hypr-workspaced.sock'')"

section \<open>Window patterns\<close>

text \<open>
  Of a Hyprland window, what the daemon reads.  \<open>cl_address\<close> is the address as its
  \<open>Display\<close> renders it; \<open>cl_fullscreen\<close> is whether the mode differs from
  \<open>FullscreenMode::None\<close>; positions and sizes are \<open>i16\<close>.
\<close>

record hypr_client =
  cl_address :: rstr
  cl_at :: "16 word \<times> 16 word"
  cl_size :: "16 word \<times> 16 word"
  cl_workspace :: int
  cl_monitor :: "int option"
  cl_class :: rstr
  cl_initial_class :: rstr
  cl_title :: rstr
  cl_initial_title :: rstr
  cl_pid :: int
  cl_floating :: bool
  cl_fullscreen :: bool

datatype window_pattern =
    PClass rstr | PTitle rstr | PPid int | PAddress rstr | PFloating bool | PFullscreen bool

definition parse_pattern_bool :: "rstr \<Rightarrow> bool option" where
  "parse_pattern_bool s =
     (if s = str ''true'' \<or> s = str ''1'' \<or> s = str ''yes'' then Some True
      else if s = str ''false'' \<or> s = str ''0'' \<or> s = str ''no'' then Some False
      else None)"

definition parse_pattern :: "rstr \<Rightarrow> window_pattern option" where
  "parse_pattern spec = (case split_once (ch CHR '':'') spec of
      None \<Rightarrow> None
    | Some (p, v) \<Rightarrow>
        if p = str ''class'' then Some (PClass v)
        else if p = str ''title'' then Some (PTitle v)
        else if p = str ''pid'' then map_option PPid (parse_int (2 ^ 31 - 1) v)
        else if p = str ''address'' then Some (PAddress v)
        else if p = str ''floating'' then map_option PFloating (parse_pattern_bool v)
        else if p = str ''fullscreen'' then map_option PFullscreen (parse_pattern_bool v)
        else None)"

fun pattern_matches :: "window_pattern \<Rightarrow> hypr_client \<Rightarrow> bool" where
  "pattern_matches (PClass p) c \<longleftrightarrow> contains (cl_class c) p \<or> contains (cl_initial_class c) p"
| "pattern_matches (PTitle p) c \<longleftrightarrow> contains (cl_title c) p \<or> contains (cl_initial_title c) p"
| "pattern_matches (PPid pid) c \<longleftrightarrow> cl_pid c = pid"
| "pattern_matches (PAddress a) c \<longleftrightarrow> contains (cl_address c) a"
| "pattern_matches (PFloating b) c \<longleftrightarrow> cl_floating c = b"
| "pattern_matches (PFullscreen b) c \<longleftrightarrow> cl_fullscreen c = b"

definition show_bool :: "bool \<Rightarrow> rstr" where
  "show_bool b = (if b then str ''true'' else str ''false'')"

fun show_pattern :: "window_pattern \<Rightarrow> rstr" where
  "show_pattern (PClass v) = str ''class:'' @ v"
| "show_pattern (PTitle v) = str ''title:'' @ v"
| "show_pattern (PPid v) = str ''pid:'' @ show_int v"
| "show_pattern (PAddress v) = str ''address:'' @ v"
| "show_pattern (PFloating v) = str ''floating:'' @ show_bool v"
| "show_pattern (PFullscreen v) = str ''fullscreen:'' @ show_bool v"

section \<open>Requests to Hyprland\<close>

datatype request =
    FocusWorkspace int
  | MoveWindowSilent rstr int
  | MoveWindow rstr int
  | MoveActiveWindow int
  | MoveWorkspaceToMonitor int rstr
  | FocusWindow rstr
  | WorkspaceRule int rstr bool

text \<open>\<open>{:03}\<close> of a number below 1000.\<close>

definition show_pad3 :: "nat \<Rightarrow> rstr" where
  "show_pad3 n = [48 + n div 100, 48 + n div 10 mod 10, 48 + n mod 10]"

definition lua_escape :: "rchar \<Rightarrow> rstr" where
  "lua_escape c =
     (if c = 34 then [92, 34]
      else if c = 92 then [92, 92]
      else if c = 10 then [92, ch CHR ''n'']
      else if c = 13 then [92, ch CHR ''r'']
      else if c = 9 then [92, ch CHR ''t'']
      else if is_ascii_control c then 92 # show_pad3 c
      else [c])"

definition lua_string :: "rstr \<Rightarrow> rstr" where
  "lua_string v = 34 # concat (map lua_escape v) @ [34]"

definition request_kind :: "request \<Rightarrow> rstr" where
  "request_kind r = (case r of WorkspaceRule _ _ _ \<Rightarrow> str ''eval'' | _ \<Rightarrow> str ''dispatch'')"

definition lua_workspace :: "int \<Rightarrow> rstr" where
  "lua_workspace i = lua_string (show_int i)"

definition lua_window :: "rstr \<Rightarrow> rstr" where
  "lua_window a = lua_string (str ''address:'' @ a)"

fun lua :: "request \<Rightarrow> rstr" where
  "lua (FocusWorkspace i) = str ''hl.dsp.focus({ workspace = '' @ lua_workspace i @ str '' })''"
| "lua (MoveWindowSilent a i) =
     str ''hl.dsp.window.move({ window = '' @ lua_window a @ str '', workspace = '' @
     lua_workspace i @ str '', follow = false })''"
| "lua (MoveWindow a i) =
     str ''hl.dsp.window.move({ window = '' @ lua_window a @ str '', workspace = '' @
     lua_workspace i @ str '' })''"
| "lua (MoveActiveWindow i) = str ''hl.dsp.window.move({ workspace = '' @ lua_workspace i @ str '' })''"
| "lua (MoveWorkspaceToMonitor i m) =
     str ''hl.dsp.workspace.move({ workspace = '' @ lua_workspace i @ str '', monitor = '' @
     lua_string m @ str '' })''"
| "lua (FocusWindow a) = str ''hl.dsp.focus({ window = '' @ lua_window a @ str '' })''"
| "lua (WorkspaceRule i m d) =
     str ''hl.workspace_rule({ workspace = '' @ lua_workspace i @ str '', monitor = '' @
     lua_string m @ str '', persistent = true, default = '' @ show_bool d @ str '' })''"

definition request_text :: "request \<Rightarrow> rstr" where
  "request_text r = request_kind r @ [32] @ lua r"

definition hypr_socket_path :: "rstr option \<Rightarrow> rstr option \<Rightarrow> rstr option \<Rightarrow> hypr_error + rstr" where
  "hypr_socket_path runtime_dir uid signature =
     (case (runtime_dir, uid) of
        (None, None) \<Rightarrow> Inl (HyprlandSocket (str ''neither XDG_RUNTIME_DIR nor UID is set''))
      | (d, u) \<Rightarrow>
          (let dir = (case d of Some x \<Rightarrow> x | None \<Rightarrow> str ''/run/user/'' @ the u) in
           case signature of
             None \<Rightarrow> Inl (HyprlandSocket (str ''HYPRLAND_INSTANCE_SIGNATURE is not set''))
           | Some sig \<Rightarrow> Inr (path_join (path_join (path_join dir (str ''hypr'')) sig) (str ''.socket.sock''))))"

section \<open>Commands are read back\<close>

text \<open>
  The commands whose text is read back: workspaces 1 to 9, and patterns without the
  whitespace the parser normalises.
\<close>

definition pattern_words :: "rstr \<Rightarrow> bool" where
  "pattern_words p \<longleftrightarrow> (\<exists>ws. ws \<noteq> [] \<and> (\<forall>w\<in>set ws. is_word w) \<and> p = join [32] ws)"

fun command_ok :: "hypr_command \<Rightarrow> bool" where
  "command_ok (Switch ws) \<longleftrightarrow> 1 \<le> ws \<and> ws \<le> 9"
| "command_ok (MoveTo ws) \<longleftrightarrow> 1 \<le> ws \<and> ws \<le> 9"
| "command_ok (Pin p) \<longleftrightarrow> pattern_words p"
| "command_ok (Unpin p) \<longleftrightarrow> pattern_words p"
| "command_ok _ \<longleftrightarrow> True"


lemma is_word_str:
  "(\<forall>c\<in>set cs. \<not> is_whitespace (of_char c)) \<Longrightarrow> cs \<noteq> [] \<Longrightarrow> is_word (str cs)"
  by (auto simp: is_word_def str_def)

lemma is_word_ends: "is_word w \<Longrightarrow> w \<noteq> [] \<and> \<not> is_whitespace (hd w) \<and> \<not> is_whitespace (last w)"
  by (simp add: is_word_def)

lemma join_words_ends:
  "(\<forall>w\<in>set ws. is_word w) \<Longrightarrow> ws \<noteq> [] \<Longrightarrow>
   join [32] ws \<noteq> [] \<and> \<not> is_whitespace (hd (join [32] ws)) \<and> \<not> is_whitespace (last (join [32] ws))"
proof (induction "[32::nat]" ws rule: join.induct)
  case 1
  then show ?case by simp
next
  case (2 x)
  then show ?case by (simp add: is_word_ends)
next
  case (3 x y zs)
  then show ?case using is_word_ends [of x] by (auto simp: hd_append)
qed

lemma words_of_join:
  assumes "\<forall>w\<in>set ws. is_word w"
  shows "split_whitespace (trim (join [32] ws)) = ws"
proof (cases "ws = []")
  case True
  then show ?thesis by (simp add: split_whitespace_def)
next
  case False
  then show ?thesis
    using assms join_words_ends [OF assms False] by (simp add: trim_id split_whitespace_words)
qed

lemma join_cons: "ws \<noteq> [] \<Longrightarrow> join [32] (w # ws) = w @ 32 # join [32] ws"
  by (cases ws) auto

text \<open>A command's text as the words the parser finds in it.\<close>

fun command_words :: "hypr_command \<Rightarrow> rstr list" where
  "command_words (Switch ws) = [str ''switch'', show_nat (unat ws)]"
| "command_words (MoveTo ws) = [str ''move'', show_nat (unat ws)]"
| "command_words (Navigate Next) = [str ''next'']"
| "command_words (Navigate Prev) = [str ''prev'']"
| "command_words (Collapse All) = [str ''collapse'', str ''all'']"
| "command_words (Collapse Invisible) = [str ''collapse'', str ''invisible'']"
| "command_words (Swap Next) = [str ''swap'', str ''next'']"
| "command_words (Swap Prev) = [str ''swap'', str ''prev'']"
| "command_words Assign = [str ''assign'']"
| "command_words (Pin p) = str ''pin'' # split_whitespace p"
| "command_words (Unpin p) = str ''unpin'' # split_whitespace p"
| "command_words Pins = [str ''pins'']"
| "command_words (Debug b) = [str ''debug'', if b then str ''on'' else str ''off'']"

lemma pattern_words_split:
  "pattern_words p \<Longrightarrow> split_whitespace p \<noteq> [] \<and> (\<forall>w\<in>set (split_whitespace p). is_word w) \<and>
     join [32] (split_whitespace p) = p"
  by (auto simp: pattern_words_def split_whitespace_words)

lemma command_words_are_words: "w \<in> set (command_words c) \<Longrightarrow> is_word w"
  by (cases c rule: command_words.cases)
     (auto simp: show_nat_is_word is_word_str is_whitespace_def
        dest: split_whitespace_are_words [rule_format])

lemma show_command_words: "command_ok c \<Longrightarrow> show_command c = join [32] (command_words c)"
  by (cases c rule: command_words.cases)
     (auto simp: str_def join_cons pattern_words_split)

lemma parse_workspace_arg_show:
  "1 \<le> ws \<Longrightarrow> ws \<le> 9 \<Longrightarrow> parse_workspace_arg f s (show_nat (unat (ws :: 8 word))) = Inr (f ws)"
  using unat_byte_le [of ws]
  by (simp add: parse_workspace_arg_def parse_uint_show_nat validate_workspace_def vw_new_def)

lemma parse_show_command: "command_ok c \<Longrightarrow> parse_command (show_command c) = Inr c"
proof -
  assume ok: "command_ok c"
  have "split_whitespace (trim (show_command c)) = command_words c"
    using show_command_words [OF ok] words_of_join [of "command_words c"] command_words_are_words by simp
  then show ?thesis
    using ok
    by (cases c rule: command_words.cases)
       (auto simp: parse_command_def parse_workspace_arg_show pattern_words_split parse_bool_arg_def
          to_ascii_lowercase_def char_class_defs str_def)
qed

interpretation command: text_codec show_command parse_command command_ok
  by unfold_locales (rule parse_show_command)

lemma parse_workspace_arg_ok:
  "parse_workspace_arg f s n = Inr c \<Longrightarrow> \<exists>ws. c = f ws \<and> 1 \<le> ws \<and> ws \<le> 9"
  by (auto simp: parse_workspace_arg_def validate_workspace_def vw_new_def
      split: option.splits sum.splits if_splits)

lemma parse_command_ok: "parse_command s = Inr c \<Longrightarrow> command_ok c"
proof -
  assume c: "parse_command s = Inr c"
  obtain w args where words: "split_whitespace (trim s) = w # args"
    using c by (auto simp: parse_command_def split: list.splits)
  have args: "\<forall>x\<in>set args. is_word x"
    using split_whitespace_are_words [of "trim s"] by (simp add: words)
  show ?thesis
    using c args
    by (auto simp: parse_command_def words pattern_words_def dest!: parse_workspace_arg_ok
        split: if_splits option.splits)
qed

section \<open>Responses are read back\<close>

fun response_ok :: "hypr_response \<Rightarrow> bool" where
  "response_ok RespOk \<longleftrightarrow> True"
| "response_ok (RespData d) \<longleftrightarrow> d \<noteq> [] \<and> \<not> is_whitespace (last d)"
| "response_ok (RespError m) \<longleftrightarrow> m \<noteq> [] \<and> \<not> is_whitespace (last m)"

lemma trim_keeps:
  "\<not> is_whitespace c \<Longrightarrow> d \<noteq> [] \<Longrightarrow> \<not> is_whitespace (last d) \<Longrightarrow> trim (c # s @ d) = c # s @ d"
  by (rule trim_id) auto

lemma parse_show_response: "response_ok r \<Longrightarrow> parse_response (show_response r) = Inr r"
proof (cases r)
  case RespOk
  moreover have "trim (str ''ok'') = str ''ok''"
    by (rule trim_no_whitespace) (auto simp: str_def is_whitespace_def)
  ultimately show ?thesis by (simp add: parse_response_def)
next
  case (RespData d)
  moreover assume "response_ok r"
  ultimately have "trim (str ''data: '' @ d) = str ''data: '' @ d"
    using trim_keeps [of 100 d "[97, 116, 97, 58, 32]"] by (simp add: str_def is_whitespace_def)
  then show ?thesis using RespData
    by (simp add: parse_response_def Let_def) (simp add: strip_prefix_def starts_with_def str_def)
next
  case (RespError d)
  moreover assume "response_ok r"
  ultimately have "trim (str ''error: '' @ d) = str ''error: '' @ d"
    using trim_keeps [of 101 d "[114, 114, 111, 114, 58, 32]"] by (simp add: str_def is_whitespace_def)
  then show ?thesis using RespError
    by (simp add: parse_response_def Let_def) (simp add: str_def)
qed

interpretation response: text_codec show_response parse_response response_ok
  by unfold_locales (rule parse_show_response)

section \<open>Patterns are read back\<close>

fun window_pattern_ok :: "window_pattern \<Rightarrow> bool" where
  "window_pattern_ok (PPid v) \<longleftrightarrow> - (2 ^ 31) \<le> v \<and> v < 2 ^ 31"
| "window_pattern_ok _ \<longleftrightarrow> True"

lemma split_once_str:
  "of_char c \<notin> set (str cs) \<Longrightarrow> split_once (of_char c) (str cs @ of_char c # v) = Some (str cs, v)"
  by (rule split_once_append)

lemma str_snoc: "str (cs @ [c]) @ v = str cs @ of_char c # v"
  by (simp add: str_def)

lemma parse_show_pattern: "window_pattern_ok p \<Longrightarrow> parse_pattern (show_pattern p) = Some p"
  using parse_int_show_int [of "2 ^ 31 - 1"]
  by (cases p) (auto simp: parse_pattern_def str_def show_bool_def parse_pattern_bool_def)

interpretation pattern: text_codec show_pattern
  "\<lambda>s. case parse_pattern s of None \<Rightarrow> Inl (InvalidWindowPattern s) | Some p \<Rightarrow> Inr p" window_pattern_ok
  by unfold_locales (simp add: parse_show_pattern)

end
