(* ===== verification/Hypr_Lua.thy ===== *)
theory Hypr_Lua
  imports Hypr_Wire
begin

text \<open>
  How Lua reads the string literals of \<open>lua_string\<close> (\<open>request.rs\<close>), and what follows for the
  requests: no value that is put into a request can end its literal early, and the text of a
  request determines the request.

  \<open>lua_read\<close> reads a double-quoted literal from behind its opening quote, after section 3.1
  of the Lua 5.4 reference manual: a raw line break is an error, a backslash starts an escape,
  and the decimal escape takes up to three digits.  The hexadecimal, Unicode and line-joining
  escapes, which \<open>lua_string\<close> does not write, are not read.
\<close>

definition lua_decimal :: "rstr \<Rightarrow> (rchar \<times> rstr) option" where
  "lua_decimal s =
     (let ds = takeWhile is_ascii_digit (take 3 s) in
      if ds = [] then None
      else case digits_value 0 ds of
        Some n \<Rightarrow> if n \<le> 255 then Some (n, drop (length ds) s) else None
      | None \<Rightarrow> None)"

definition lua_escape_at :: "rstr \<Rightarrow> (rchar \<times> rstr) option" where
  "lua_escape_at s = (case s of
      [] \<Rightarrow> None
    | c # t \<Rightarrow>
        if c = ch CHR ''n'' then Some (10, t)
        else if c = ch CHR ''r'' then Some (13, t)
        else if c = ch CHR ''t'' then Some (9, t)
        else if c = ch CHR ''a'' then Some (7, t)
        else if c = ch CHR ''b'' then Some (8, t)
        else if c = ch CHR ''f'' then Some (12, t)
        else if c = ch CHR ''v'' then Some (11, t)
        else if c = 92 \<or> c = 34 \<or> c = 39 \<or> c = 10 then Some (c, t)
        else lua_decimal s)"

lemma lua_decimal_shorter: "lua_decimal s = Some (d, t) \<Longrightarrow> length t < length s"
  by (cases s) (auto simp: lua_decimal_def Let_def split: if_splits option.splits)

lemma lua_escape_at_shorter: "lua_escape_at s = Some (d, t) \<Longrightarrow> length t < length s"
  by (cases s) (auto simp: lua_escape_at_def dest: lua_decimal_shorter split: if_splits)

function lua_read :: "rstr \<Rightarrow> (rstr \<times> rstr) option" where
  "lua_read [] = None"
| "lua_read (c # s) =
     (if c = 34 then Some ([], s)
      else if c = 10 \<or> c = 13 then None
      else if c = 92 then
        (case lua_escape_at s of
           None \<Rightarrow> None
         | Some (d, t) \<Rightarrow> map_option (\<lambda>(v, rest). (d # v, rest)) (lua_read t))
      else map_option (\<lambda>(v, rest). (c # v, rest)) (lua_read s))"
  by pat_completeness auto
termination
  by (relation "measure length") (auto dest: lua_escape_at_shorter)

declare lua_read.simps [simp del]

lemma pad3_digits:
  assumes "n \<le> 255"
  obtains a b c where "show_pad3 n = [48 + a, 48 + b, 48 + c]" and "a \<le> 2" and "b \<le> 9" and "c \<le> 9"
    and "(a * 10 + b) * 10 + c = n"
proof -
  have "n div 100 = n div 10 div 10" by (simp add: div_mult2_eq [symmetric])
  then have "(n div 100 * 10 + n div 10 mod 10) * 10 + n mod 10 = n" by (simp only: div_mult_mod_eq)
  moreover have "n div 100 \<le> 2" "n div 10 mod 10 \<le> 9" "n mod 10 \<le> 9" using assms by auto
  ultimately show ?thesis using that [of "n div 100" "n div 10 mod 10" "n mod 10"]
    by (simp add: show_pad3_def)
qed

lemma lua_decimal_pad3:
  assumes "n \<le> 255" shows "lua_decimal (show_pad3 n @ t) = Some (n, t)"
  using assms by (rule pad3_digits) (use assms in \<open>simp add: lua_decimal_def is_ascii_digit_def\<close>)

lemma lua_escape_at_pad3:
  assumes "n \<le> 255" shows "lua_escape_at (show_pad3 n @ t) = Some (n, t)"
proof -
  obtain d r where dr: "show_pad3 n @ t = d # r" and "48 \<le> d" and "d \<le> 50"
    by (rule pad3_digits [OF assms]) simp
  then have "lua_escape_at (d # r) = lua_decimal (d # r)" by (simp add: lua_escape_at_def)
  with lua_decimal_pad3 [OF assms, of t] show ?thesis by (simp add: dr)
qed

lemma lua_read_escape:
  "lua_read (lua_escape c @ s) = map_option (\<lambda>(v, rest). (c # v, rest)) (lua_read s)"
proof -
  consider (quote) "c = 34" | (backslash) "c = 92" | (nl) "c = 10" | (cr) "c = 13" | (tab) "c = 9"
    | (control) "c \<notin> {9, 10, 13, 34, 92}" "is_ascii_control c"
    | (plain) "c \<notin> {9, 10, 13, 34, 92}" "\<not> is_ascii_control c"
    by blast
  then show ?thesis
  proof cases
    case control
    then have "c \<le> 255" by (auto simp: is_ascii_control_def)
    then have "lua_escape_at (show_pad3 c @ s) = Some (c, s)" by (rule lua_escape_at_pad3)
    with control show ?thesis by (simp add: lua_escape_def lua_read.simps)
  qed (simp_all add: lua_escape_def lua_escape_at_def lua_read.simps)
qed

lemma lua_read_body: "lua_read (concat (map lua_escape v) @ 34 # rest) = Some (v, rest)"
  by (induction v) (simp_all add: lua_read_escape lua_read.simps)

lemma lua_string_append_eq: "lua_string v @ s = lua_string w @ t \<longleftrightarrow> v = w \<and> s = t"
proof
  assume "lua_string v @ s = lua_string w @ t"
  then have "concat (map lua_escape v) @ 34 # s = concat (map lua_escape w) @ 34 # t"
    unfolding lua_string_def by simp
  then have "lua_read (concat (map lua_escape v) @ 34 # s) = lua_read (concat (map lua_escape w) @ 34 # t)"
    by (rule arg_cong)
  then show "v = w \<and> s = t" unfolding lua_read_body by simp
qed blast

lemma show_int_inj: "show_int i = show_int j \<Longrightarrow> i = j"
proof -
  assume eq: "show_int i = show_int j"
  define m where "m = nat \<bar>i\<bar> + nat \<bar>j\<bar>"
  have "parse_int m (show_int i) = Some i" and "parse_int m (show_int j) = Some j"
    by (rule parse_int_show_int; simp add: m_def)+
  then have "Some i = Some j" unfolding eq by (rule trans [OF sym])
  then show ?thesis by simp
qed

lemma lua_workspace_append_eq: "lua_workspace i @ s = lua_workspace j @ t \<longleftrightarrow> i = j \<and> s = t"
  by (auto simp: lua_workspace_def lua_string_append_eq dest: show_int_inj)

lemma lua_window_append_eq: "lua_window a @ s = lua_window b @ t \<longleftrightarrow> a = b \<and> s = t"
  by (simp add: lua_window_def lua_string_append_eq)

lemmas lua_append_eqs = lua_string_append_eq lua_workspace_append_eq lua_window_append_eq
  lua_string_append_eq [of _ "[]" _ "[]", simplified]
  lua_workspace_append_eq [of _ "[]" _ "[]", simplified]
  lua_window_append_eq [of _ "[]" _ "[]", simplified]

lemma lua_inj: "lua r = lua q \<Longrightarrow> r = q"
  by (cases r; cases q) (auto simp: str_def lua_append_eqs show_bool_def split: if_splits)

lemma request_text_inj: "request_text r = request_text q \<longleftrightarrow> r = q"
proof
  assume eq: "request_text r = request_text q"
  show "r = q"
  proof (rule lua_inj)
    show "lua r = lua q"
      using eq by (cases r; cases q) (auto simp: request_text_def request_kind_def str_def)
  qed
qed simp

end
