(* ===== verification/Hypr_Manager.thy ===== *)
theory Hypr_Manager
  imports Hypr_Lua
begin

text \<open>
  The workspace manager of hypr-workspaced (\<open>packages/hypr-workspaced/src/workspace.rs\<close>)
  over the requests and queries of \<open>request.rs\<close> and \<open>query.rs\<close>.

  Hyprland is the environment: it answers each exchange, given the moment (the length of the
  log), the socket and the text, with an error or an answer text, and \<open>serde\<close>'s readings of the
  answers are functions of the text; so are the registry directory and file, the \<open>Debug\<close> form
  of a string and the result of a change of the log level.  \<open>hlog\<close> records, newest first, the texts exchanged, and
  \<open>Sent r\<close> when request \<open>r\<close> was answered with \<open>ok\<close>.  The registry file is the state's
  \<open>reg_file\<close>.  The manager's mutex is not modelled: the daemon's loop calls one operation at a
  time.
\<close>

section \<open>State\<close>

record hypr_workspace =
  ws_id :: int
  ws_monitor :: rstr

datatype hypr_event = Exchanged rstr | Sent request | SavedRegistry

record hypr_env =
  h_runtime_dir :: "rstr option"
  h_uid :: "rstr option"
  h_signature :: "rstr option"
  h_state_home :: "rstr option"
  h_home :: "rstr option"
  h_answer :: "nat \<Rightarrow> rstr \<Rightarrow> rstr \<Rightarrow> hypr_error + rstr"
  h_monitors :: "rstr \<Rightarrow> rstr + hypr_monitor list"
  h_clients :: "rstr \<Rightarrow> rstr + hypr_client list"
  h_workspaces :: "rstr \<Rightarrow> rstr + hypr_workspace list"
  h_active :: "rstr \<Rightarrow> rstr + hypr_workspace"
  h_cursor :: "rstr \<Rightarrow> rstr + int \<times> int"
  h_mkdir_ok :: "nat \<Rightarrow> bool"
  h_write :: "nat \<Rightarrow> rstr \<Rightarrow> rstr option + unit"
  h_debug :: "rstr \<Rightarrow> rstr"
  h_reload :: "nat \<Rightarrow> bool \<Rightarrow> rstr option"

record hypr_state =
  pinned :: "window_pattern list"
  layout :: monitor_layout
  reg_file :: "rstr option"
  hlog :: "hypr_event list"

type_synonym 'a hyprd = "(hypr_state, hypr_error, 'a) prog"

definition log_event :: "hypr_event \<Rightarrow> hypr_state \<Rightarrow> hypr_state" where
  "log_event e s = s\<lparr>hlog := e # hlog s\<rparr>"

section \<open>Exchanges and queries\<close>

definition exchange :: "hypr_env \<Rightarrow> rstr \<Rightarrow> rstr \<Rightarrow> rstr hyprd" where
  "exchange E flags request =
     (case hypr_socket_path (h_runtime_dir E) (h_uid E) (h_signature E) of
        Inl e \<Rightarrow> fail e
      | Inr path \<Rightarrow>
          (\<lambda>s. let t = flags @ str ''/'' @ request; s1 = log_event (Exchanged t) s in
             case h_answer E (length (hlog s)) path t of
               Inl e \<Rightarrow> (Failed e, s1)
             | Inr answer \<Rightarrow> (Done answer, s1)))"

definition send :: "hypr_env \<Rightarrow> request \<Rightarrow> unit hyprd" where
  "send E r = bnd (exchange E [] (request_text r)) (\<lambda>answer.
     if answer = str ''ok'' then update_state (log_event (Sent r))
     else fail (HyprlandRequest (request_text r) answer))"

definition decode :: "rstr \<Rightarrow> rstr + 'a \<Rightarrow> 'a hyprd" where
  "decode request answer = (case answer of Inl source \<Rightarrow> fail (HyprlandAnswer request source) | Inr x \<Rightarrow> ret x)"

definition query :: "hypr_env \<Rightarrow> string \<Rightarrow> (rstr \<Rightarrow> rstr + 'a) \<Rightarrow> 'a hyprd" where
  "query E request read =
     bnd (exchange E (str ''j'') (str request)) (\<lambda>answer. decode (str request) (read answer))"

definition monitors :: "hypr_env \<Rightarrow> hypr_monitor list hyprd" where
  "monitors E = query E ''monitors all'' (h_monitors E)"

definition focused :: "hypr_monitor list \<Rightarrow> hypr_monitor hyprd" where
  "focused ms = (case find mon_focused ms of None \<Rightarrow> fail NoFocusedMonitor | Some m \<Rightarrow> ret m)"

definition active_monitor :: "hypr_env \<Rightarrow> hypr_monitor hyprd" where
  "active_monitor E = bnd (monitors E) focused"

definition clients :: "hypr_env \<Rightarrow> hypr_client list hyprd" where
  "clients E = query E ''clients'' (h_clients E)"

definition workspaces :: "hypr_env \<Rightarrow> hypr_workspace list hyprd" where
  "workspaces E = query E ''workspaces'' (h_workspaces E)"

definition active_workspace :: "hypr_env \<Rightarrow> hypr_workspace hyprd" where
  "active_workspace E = query E ''activeworkspace'' (h_active E)"

definition cursor_position :: "hypr_env \<Rightarrow> (int \<times> int) hyprd" where
  "cursor_position E = query E ''cursorpos'' (h_cursor E)"

section \<open>Pins\<close>

definition pin :: "rstr \<Rightarrow> unit hyprd" where
  "pin spec = (case parse_pattern spec of
      None \<Rightarrow> fail (InvalidWindowPattern spec)
    | Some p \<Rightarrow> update_state (\<lambda>s. if p \<in> set (pinned s) then s else s\<lparr>pinned := pinned s @ [p]\<rparr>))"

definition unpin :: "rstr \<Rightarrow> unit hyprd" where
  "unpin spec = (case parse_pattern spec of
      None \<Rightarrow> fail (InvalidWindowPattern spec)
    | Some p \<Rightarrow> update_state (\<lambda>s. case position (\<lambda>q. q = p) (pinned s) of
          Some i \<Rightarrow> s\<lparr>pinned := take i (pinned s) @ drop (Suc i) (pinned s)\<rparr>
        | None \<Rightarrow> s))"

definition pins :: "hypr_state \<Rightarrow> rstr list" where
  "pins s = map show_pattern (pinned s)"

definition is_pinned :: "window_pattern list \<Rightarrow> hypr_client \<Rightarrow> bool" where
  "is_pinned ps c \<longleftrightarrow> (\<exists>p\<in>set ps. pattern_matches p c)"

definition find_monitor_for_client :: "hypr_client \<Rightarrow> hypr_monitor list \<Rightarrow> int option" where
  "find_monitor_for_client c ms = (case cl_monitor c of
      Some i \<Rightarrow> Some i
    | None \<Rightarrow> map_option mon_id (find (\<lambda>m. mon_active m = cl_workspace c) ms))"

definition move_pinned :: "hypr_env \<Rightarrow> virtual_workspace \<Rightarrow> hypr_state \<Rightarrow> hypr_monitor list \<Rightarrow> hypr_client \<Rightarrow> unit hyprd" where
  "move_pinned E v s ms c =
     (if \<not> is_pinned (pinned s) c then ret ()
      else if cl_workspace c < 0 then ret ()
      else case find_monitor_for_client c ms of
        None \<Rightarrow> ret ()
      | Some i \<Rightarrow>
          (let target = hyprland_id v (slot_for (layout s) i) in
           if cl_workspace c \<noteq> target then send E (MoveWindowSilent (cl_address c) target) else ret ()))"

definition move_pinned_windows :: "hypr_env \<Rightarrow> virtual_workspace \<Rightarrow> unit hyprd" where
  "move_pinned_windows E v =
     bnd (gets id) (\<lambda>s.
     if pinned s = [] then ret ()
     else bnd (clients E) (\<lambda>cs. bnd (monitors E) (\<lambda>ms. each (move_pinned E v s ms) cs)))"

section \<open>Assignment\<close>

definition save_registry :: "hypr_env \<Rightarrow> rstr list \<Rightarrow> unit hyprd" where
  "save_registry E entries = (\<lambda>s.
     if h_mkdir_ok E (length (hlog s)) then
       (let content = (case h_write E (length (hlog s)) (registry_text entries) of
                         Inl left \<Rightarrow> left
                       | Inr _ \<Rightarrow> Some (registry_text entries)) in
        (Done (), log_event SavedRegistry (s\<lparr>reg_file := content\<rparr>)))
     else (Done (), s))"

definition assign_layout :: "hypr_env \<Rightarrow> hypr_monitor list \<Rightarrow> unit hyprd" where
  "assign_layout E ms =
     (case registry_path (h_state_home E) (h_home E) of
        None \<Rightarrow> park
      | Some _ \<Rightarrow>
          bnd (gets (\<lambda>s. register (registry_load (reg_file s)) ms)) (\<lambda>(entries, modified).
          bnd (if modified then save_registry E entries else ret ()) (\<lambda>_.
          update_state (\<lambda>s. s\<lparr>layout := layout_of entries ms\<rparr>))))"

definition rules_for :: "hypr_env \<Rightarrow> hypr_monitor \<Rightarrow> unit hyprd" where
  "rules_for E m =
     bnd (gets (\<lambda>s. slot_for (layout s) (mon_id m))) (\<lambda>slot.
     each (\<lambda>n. send E (WorkspaceRule (hyprland_id (VW (word_of_nat n)) slot) (mon_name m) (n = 1))) [1..<10])"

definition cleanup_slot :: "hypr_env \<Rightarrow> hypr_client list \<Rightarrow> monitor_slot \<Rightarrow> unit hyprd" where
  "cleanup_slot E cs slot =
     (let orphan = orphan_workspace_id slot in
      each (\<lambda>c. send E (MoveWindowSilent (cl_address c) (orphan + 1)))
        (filter (\<lambda>c. cl_workspace c = orphan) cs))"

definition cleanup_orphan_workspaces :: "hypr_env \<Rightarrow> unit hyprd" where
  "cleanup_orphan_workspaces E =
     bnd (clients E) (\<lambda>cs. bnd (gets (all_slots \<circ> layout)) (\<lambda>slots. each (cleanup_slot E cs) slots))"

definition move_workspace :: "hypr_env \<Rightarrow> (monitor_slot \<times> rstr) list \<Rightarrow> hypr_workspace \<Rightarrow> unit hyprd" where
  "move_workspace E names w =
     (if ws_id w \<le> 0 \<or> vw_from_id (ws_id w) = None then ret ()
      else case map_of names (slot_from_id (ws_id w)) of
        None \<Rightarrow> ret ()
      | Some expected \<Rightarrow>
          if ws_monitor w = expected then ret ()
          else send E (MoveWorkspaceToMonitor (ws_id w) expected))"

definition move_workspaces_to_correct_monitors :: "hypr_env \<Rightarrow> hypr_monitor list \<Rightarrow> unit hyprd" where
  "move_workspaces_to_correct_monitors E ms =
     bnd (workspaces E) (\<lambda>ws.
     bnd (gets (\<lambda>s. slot_to_monitor_name (layout s) ms)) (\<lambda>names.
     each (move_workspace E names) ws))"

definition show_target :: "hypr_env \<Rightarrow> virtual_workspace \<Rightarrow> hypr_monitor \<Rightarrow> unit hyprd" where
  "show_target E target m =
     bnd (gets (\<lambda>s. hyprland_id target (slot_for (layout s) (mon_id m)))) (\<lambda>i.
     if mon_active m = i then ret () else send E (FocusWorkspace i))"

definition assign_workspaces :: "hypr_env \<Rightarrow> unit hyprd" where
  "assign_workspaces E =
     bnd (monitors E) (\<lambda>ms.
     if ms = [] then fail NoMonitors
     else
       bnd (assign_layout E ms) (\<lambda>_.
       bnd (each (rules_for E) ms) (\<lambda>_.
       bnd (cleanup_orphan_workspaces E) (\<lambda>_.
       bnd (move_workspaces_to_correct_monitors E ms) (\<lambda>_.
       bnd (active_monitor E) (\<lambda>f.
       let target = (case vw_from_id (mon_active f) of Some v \<Rightarrow> v | None \<Rightarrow> VW 1) in
       each (show_target E target) ms))))))"

section \<open>Switching and synchronising\<close>

definition switch_virtual :: "hypr_env \<Rightarrow> virtual_workspace \<Rightarrow> unit hyprd" where
  "switch_virtual E v =
     bnd (active_monitor E) (\<lambda>f.
     bnd (gets (\<lambda>s. hyprland_id v (slot_for (layout s) (mon_id f)))) (\<lambda>i.
     send E (FocusWorkspace i)))"

definition move_to_virtual :: "hypr_env \<Rightarrow> virtual_workspace \<Rightarrow> unit hyprd" where
  "move_to_virtual E v =
     bnd (active_monitor E) (\<lambda>f.
     bnd (gets (\<lambda>s. hyprland_id v (slot_for (layout s) (mon_id f)))) (\<lambda>i.
     send E (MoveActiveWindow i)))"

text \<open>The window under the cursor: \<open>as i16\<close> truncates, and the sums wrap in a release build.\<close>

definition under_cursor :: "int \<times> int \<Rightarrow> int list \<Rightarrow> hypr_client \<Rightarrow> bool" where
  "under_cursor cursor valid c =
     (cl_workspace c \<in> set valid \<and>
      (let cx = word_of_int (fst cursor) :: 16 word; cy = word_of_int (snd cursor) :: 16 word;
           (wx, wy) = cl_at c; (ww, wh) = cl_size c in
       sint wx \<le> sint cx \<and> sint cx < sint (wx + ww) \<and> sint wy \<le> sint cy \<and> sint cy < sint (wy + wh)))"

definition focus_window_under_cursor :: "hypr_env \<Rightarrow> virtual_workspace \<Rightarrow> unit hyprd" where
  "focus_window_under_cursor E v =
     bnd (cursor_position E) (\<lambda>cursor.
     bnd (clients E) (\<lambda>cs.
     bnd (monitors E) (\<lambda>ms.
     bnd (gets (\<lambda>s. map (\<lambda>m. hyprland_id v (slot_for (layout s) (mon_id m))) ms)) (\<lambda>valid.
     case find (under_cursor cursor valid) cs of
       Some c \<Rightarrow> send E (FocusWindow (cl_address c))
     | None \<Rightarrow> ret ()))))"

definition prime_focus :: "hypr_env \<Rightarrow> unit hyprd" where
  "prime_focus E = bnd (active_monitor E) (\<lambda>f.
     case vw_from_id (mon_active f) of
       None \<Rightarrow> ret ()
     | Some v \<Rightarrow> focus_window_under_cursor E v)"

definition sync_monitor :: "hypr_env \<Rightarrow> virtual_workspace \<Rightarrow> int \<Rightarrow> hypr_workspace list \<Rightarrow> hypr_monitor \<Rightarrow> unit hyprd" where
  "sync_monitor E v trigger ws m =
     bnd (gets (\<lambda>s. hyprland_id v (slot_for (layout s) (mon_id m)))) (\<lambda>target.
     if target = trigger \<or> mon_active m = target then ret ()
     else
       bnd (case find (\<lambda>w. ws_id w = target) ws of
              Some w \<Rightarrow> if ws_monitor w \<noteq> mon_name m
                        then ignore (send E (MoveWorkspaceToMonitor target (mon_name m))) else ret ()
            | None \<Rightarrow> ret ()) (\<lambda>_.
       ignore (send E (FocusWorkspace target))))"

definition sync_monitors :: "hypr_env \<Rightarrow> int \<Rightarrow> unit hyprd" where
  "sync_monitors E trigger =
     (case vw_from_id trigger of
        None \<Rightarrow> ret ()
      | Some v \<Rightarrow>
          bnd (monitors E) (\<lambda>ms.
          if length ms \<le> 1 then ret ()
          else
            bnd (workspaces E) (\<lambda>ws.
            bnd (each (sync_monitor E v trigger ws) ms) (\<lambda>_.
            bnd (ignore (move_pinned_windows E v)) (\<lambda>_.
            bnd (active_workspace E) (\<lambda>a.
            bnd (if ws_id a \<noteq> trigger then ignore (send E (FocusWorkspace trigger)) else ret ()) (\<lambda>_.
            ignore (focus_window_under_cursor E v))))))))"

section \<open>Swapping, navigating, collapsing\<close>

definition BUFFER_WS :: int where "BUFFER_WS = 999"

definition move_all :: "hypr_env \<Rightarrow> hypr_client list \<Rightarrow> int \<Rightarrow> unit hyprd" where
  "move_all E cs target = each (\<lambda>c. send E (MoveWindowSilent (cl_address c) target)) cs"

definition swap_target :: "direction \<Rightarrow> nat \<Rightarrow> nat \<Rightarrow> nat option" where
  "swap_target d i n = (case d of
      Next \<Rightarrow> if n \<le> i + 1 then None else Some (i + 1)
    | Prev \<Rightarrow> if i = 0 then None else Some (i - 1))"

definition swap_windows :: "hypr_env \<Rightarrow> virtual_workspace \<Rightarrow> hypr_monitor \<Rightarrow> hypr_monitor \<Rightarrow> unit hyprd" where
  "swap_windows E v f t =
     bnd (gets (\<lambda>s. (hyprland_id v (slot_for (layout s) (mon_id f)),
                     hyprland_id v (slot_for (layout s) (mon_id t))))) (\<lambda>(ws_a, ws_b).
     bnd (clients E) (\<lambda>cs.
     let clients_a = filter (\<lambda>c. cl_workspace c = ws_a) cs;
         clients_b = filter (\<lambda>c. cl_workspace c = ws_b) cs in
     bnd (move_all E clients_a BUFFER_WS) (\<lambda>_.
     bnd (move_all E clients_b ws_a) (\<lambda>_.
     move_all E clients_a ws_b))))"

definition swap_monitor :: "hypr_env \<Rightarrow> direction \<Rightarrow> unit hyprd" where
  "swap_monitor E d =
     bnd (monitors E) (\<lambda>ms.
     if length ms < 2 then ret ()
     else
       bnd (active_monitor E) (\<lambda>f.
       let by_position = sort_key mon_x ms in
       case position (\<lambda>m. mon_id m = mon_id f) by_position of
         None \<Rightarrow> fail (OtherError (str ''Focused monitor not found in list''))
       | Some i \<Rightarrow>
           (case swap_target d i (length by_position) of
              None \<Rightarrow> ret ()
            | Some j \<Rightarrow>
                (case vw_from_id (mon_active f) of
                   None \<Rightarrow> ret ()
                 | Some v \<Rightarrow> swap_windows E v f (by_position ! j)))))"

definition navigate :: "hypr_env \<Rightarrow> direction \<Rightarrow> unit hyprd" where
  "navigate E d =
     bnd (monitors E) (\<lambda>ms.
     bnd (gets layout) (\<lambda>l.
     case find (\<lambda>m. slot_for l (mon_id m) = Slot 0) ms of
       None \<Rightarrow> ret ()
     | Some m \<Rightarrow>
         (case vw_from_id (mon_active m) of
            None \<Rightarrow> ret ()
          | Some v \<Rightarrow> switch_virtual E (case d of Next \<Rightarrow> vw_next v | Prev \<Rightarrow> vw_prev v))))"

definition should_move :: "collapse_mode \<Rightarrow> virtual_workspace \<Rightarrow> int \<Rightarrow> nat \<Rightarrow> int \<Rightarrow> bool" where
  "should_move mode v current num_monitors i =
     (case mode of
        All \<Rightarrow> (case vw_from_id i of Some w \<Rightarrow> w = v \<and> i \<noteq> current | None \<Rightarrow> False)
      | Invisible \<Rightarrow> \<not> is_valid_workspace i num_monitors)"

definition collapse_client :: "hypr_env \<Rightarrow> collapse_mode \<Rightarrow> virtual_workspace \<Rightarrow> int \<Rightarrow> nat \<Rightarrow> hypr_client \<Rightarrow> unit hyprd" where
  "collapse_client E mode v current num_monitors c =
     (if cl_workspace c \<le> 0 then ret ()
      else if should_move mode v current num_monitors (cl_workspace c)
      then send E (MoveWindow (cl_address c) current) else ret ())"

definition collapse :: "hypr_env \<Rightarrow> collapse_mode \<Rightarrow> unit hyprd" where
  "collapse E mode =
     bnd (active_workspace E) (\<lambda>a.
     case vw_from_id (ws_id a) of
       None \<Rightarrow> ret ()
     | Some v \<Rightarrow>
         bnd (clients E) (\<lambda>cs.
         bnd (monitors E) (\<lambda>ms.
         each (collapse_client E mode v (ws_id a) (length ms)) cs)))"

end
