(* ===== verification/Hypr_Daemon.thy ===== *)
theory Hypr_Daemon
  imports Hypr_Manager
begin

text \<open>
  The loop of hypr-workspaced (\<open>packages/hypr-workspaced/src/daemon.rs\<close>), its command line
  (\<open>main.rs\<close>) and its client (\<open>client.rs\<close>).

  The loop selects between two channels: a queue of commands and monitor changes, and a watch
  channel that holds only the latest workspace change.  \<open>on_event\<close> and \<open>on_sync\<close> are the
  two arms of the \<open>select!\<close>; \<open>daemon_step\<close> interleaves them with what the other tasks do to
  the channels.  The bound of the queue only makes its senders wait, which is an order of the
  steps.  The task that listens to Hyprland is \<open>Hypr_Listener\<close>.
\<close>

section \<open>Commands\<close>

fun error_text :: "hypr_env \<Rightarrow> hypr_error \<Rightarrow> rstr" where
  "error_text E (HyprlandRequest request answer) =
     str ''Hyprland answered '' @ h_debug E answer @ str '' to '' @ h_debug E request"
| "error_text E (HyprlandSocket t) = str ''Hyprland socket not found: '' @ t"
| "error_text E HyprlandQueueFull =
     str ''Hyprland's request queue stayed full for the whole wait of 5s''"
| "error_text E (HyprlandAnswer request source) =
     str ''Hyprland's answer to '' @ h_debug E request @ str '' could not be read: '' @ source"
| "error_text E NoFocusedMonitor = str ''Hyprland lists no focused monitor''"
| "error_text E (IoError t) = str ''IO error: '' @ t"
| "error_text E (InvalidCommand t) = str ''Invalid command: '' @ t"
| "error_text E (InvalidVirtualWorkspace n) =
     str ''Invalid virtual workspace: '' @ show_nat (unat n) @ str '' (must be 1-9)''"
| "error_text E (InvalidWindowPattern t) = str ''Invalid window pattern: '' @ t"
| "error_text E DaemonNotRunning = str ''Daemon not running or socket not found''"
| "error_text E NoMonitors = str ''No monitors found''"
| "error_text E (OtherError t) = t"

definition with_workspace :: "8 word \<Rightarrow> (virtual_workspace \<Rightarrow> unit hyprd) \<Rightarrow> unit hyprd" where
  "with_workspace n f = (case vw_new n of Inl e \<Rightarrow> fail e | Inr v \<Rightarrow> f v)"

definition respond :: "hypr_env \<Rightarrow> unit hyprd \<Rightarrow> hypr_response hyprd" where
  "respond E m = bnd (attempt m) (\<lambda>r. case r of
      Inl e \<Rightarrow> ret (RespError (error_text E e))
    | Inr _ \<Rightarrow> ret RespOk)"

fun handle_command :: "hypr_env \<Rightarrow> hypr_command \<Rightarrow> hypr_response hyprd" where
  "handle_command E (Switch n) = respond E (with_workspace n (switch_virtual E))"
| "handle_command E (MoveTo n) = respond E (with_workspace n (move_to_virtual E))"
| "handle_command E (Navigate d) = respond E (navigate E d)"
| "handle_command E (Collapse mode) = respond E (collapse E mode)"
| "handle_command E (Swap d) = respond E (swap_monitor E d)"
| "handle_command E Assign = respond E (assign_workspaces E)"
| "handle_command E (Pin p) = respond E (pin p)"
| "handle_command E (Unpin p) = respond E (unpin p)"
| "handle_command E Pins = gets (\<lambda>s. RespData (join [10] (pins s)))"
| "handle_command E (Debug b) = gets (\<lambda>s. case h_reload E (length (hlog s)) b of
      None \<Rightarrow> RespOk
    | Some e \<Rightarrow> RespError (str ''Failed to set log level: '' @ e))"

section \<open>The loop\<close>

datatype loop_event = CommandFrom nat hypr_command | MonitorChanged

text \<open>
  \<open>dm_sync\<close> is the watch channel's value, the workspace and the generation, and \<open>dm_changed\<close>
  whether the loop has not looked at it since it was set.  \<open>dm_changes\<close> counts the workspace
  changes of the run, for the proofs only.
\<close>

record daemon_state =
  dm_manager :: hypr_state
  dm_queue :: "loop_event list"
  dm_sync :: "int \<times> 64 word"
  dm_changed :: bool
  dm_last_generation :: "64 word"
  dm_last_vspace :: "virtual_workspace option"
  dm_replies :: "(nat \<times> hypr_response) list"
  dm_alive :: bool
  dm_changes :: nat

definition reply :: "nat \<Rightarrow> hypr_response \<Rightarrow> daemon_state \<Rightarrow> daemon_state" where
  "reply i r st = st\<lparr>dm_replies := (i, r) # dm_replies st\<rparr>"

definition on_event :: "hypr_env \<Rightarrow> loop_event \<Rightarrow> daemon_state \<Rightarrow> daemon_state" where
  "on_event E e st = (case e of
      CommandFrom i c \<Rightarrow>
        (case handle_command E c (dm_manager st) of
           (Done r, s) \<Rightarrow> reply i r (st\<lparr>dm_manager := s\<rparr>)
         | (_, s) \<Rightarrow> st\<lparr>dm_manager := s, dm_alive := False\<rparr>)
    | MonitorChanged \<Rightarrow>
        (case attempt (assign_workspaces E) (dm_manager st) of
           (Done _, s) \<Rightarrow> st\<lparr>dm_manager := s, dm_last_vspace := None\<rparr>
         | (_, s) \<Rightarrow> st\<lparr>dm_manager := s, dm_alive := False\<rparr>))"

definition on_sync :: "hypr_env \<Rightarrow> daemon_state \<Rightarrow> daemon_state" where
  "on_sync E st0 =
     (let (i, generation) = dm_sync st0; st = st0\<lparr>dm_changed := False\<rparr> in
      if generation \<le> dm_last_generation st then st
      else
        (let st = st\<lparr>dm_last_generation := generation\<rparr> in
         case vw_from_id i of
           None \<Rightarrow> st
         | Some v \<Rightarrow>
             if dm_last_vspace st = Some v then st
             else (case sync_monitors E i (dm_manager st) of
                 (Done _, s) \<Rightarrow> st\<lparr>dm_manager := s, dm_last_vspace := Some v\<rparr>
               | (_, s) \<Rightarrow> st\<lparr>dm_manager := s\<rparr>)))"

definition daemon_start :: "hypr_env \<Rightarrow> hypr_state \<Rightarrow> daemon_state" where
  "daemon_start E s =
     (let (r, s1) = ignore (assign_workspaces E) s in
      \<lparr>dm_manager = (case r of Done _ \<Rightarrow> snd (ignore (prime_focus E) s1) | _ \<Rightarrow> s1),
       dm_queue = [], dm_sync = (0, 0), dm_changed = False, dm_last_generation = 0,
       dm_last_vspace = None, dm_replies = [],
       dm_alive = (case r of Done _ \<Rightarrow> True | _ \<Rightarrow> False), dm_changes = 0\<rparr>)"

definition workspace_changed :: "int \<Rightarrow> daemon_state \<Rightarrow> daemon_state" where
  "workspace_changed i st =
     st\<lparr>dm_sync := (i, snd (dm_sync st) + 1), dm_changed := True, dm_changes := Suc (dm_changes st)\<rparr>"

text \<open>
  What a client wrote, up to and with the first newline.  \<open>handle_client\<close> queues a command that
  parses and answers any other itself; a client that wrote nothing gets no answer.
\<close>

definition read_line :: "rstr \<Rightarrow> rstr" where
  "read_line t = (case split_once 10 t of None \<Rightarrow> t | Some (l, _) \<Rightarrow> l @ [10])"

definition handle_client :: "hypr_env \<Rightarrow> nat \<Rightarrow> rstr \<Rightarrow> daemon_state \<Rightarrow> daemon_state" where
  "handle_client E i written st =
     (if read_line written = [] then st
      else case parse_command (trim (read_line written)) of
        Inr c \<Rightarrow> st\<lparr>dm_queue := dm_queue st @ [CommandFrom i c]\<rparr>
      | Inl e \<Rightarrow> reply i (RespError (error_text E e)) st)"

inductive daemon_step :: "hypr_env \<Rightarrow> daemon_state \<Rightarrow> daemon_state \<Rightarrow> bool" for E where
  client: "dm_alive st \<Longrightarrow> daemon_step E st (handle_client E i written st)"
| monitor: "dm_alive st \<Longrightarrow> daemon_step E st (st\<lparr>dm_queue := dm_queue st @ [MonitorChanged]\<rparr>)"
| changed: "dm_alive st \<Longrightarrow> daemon_step E st (workspace_changed i st)"
| event: "dm_alive st \<Longrightarrow> dm_queue st = e # q \<Longrightarrow>
    daemon_step E st (on_event E e (st\<lparr>dm_queue := q\<rparr>))"
| sync: "dm_alive st \<Longrightarrow> dm_changed st \<Longrightarrow> daemon_step E st (on_sync E st)"

inductive daemon_reachable :: "hypr_env \<Rightarrow> hypr_state \<Rightarrow> daemon_state \<Rightarrow> bool" for E s where
  start: "daemon_reachable E s (daemon_start E s)"
| step: "daemon_reachable E s st \<Longrightarrow> daemon_step E st st' \<Longrightarrow> daemon_reachable E s st'"

inductive_cases daemon_stepE: "daemon_step E st st'"

section \<open>The client and the command line\<close>

text \<open>What the daemon writes for a response, and what the client makes of it.\<close>

definition response_line :: "hypr_response \<Rightarrow> rstr" where
  "response_line r = show_response r @ [10]"

definition command_line :: "hypr_command \<Rightarrow> rstr" where
  "command_line c = show_command c @ [10]"

definition client_response :: "rstr \<Rightarrow> hypr_error + hypr_response" where
  "client_response written = parse_response (read_line written)"

text \<open>\<open>send_command\<close> drops the data; \<open>send_command_with_output\<close> prints it.\<close>

definition send_command_result :: "rstr \<Rightarrow> hypr_error + unit" where
  "send_command_result written = (case client_response written of
      Inl e \<Rightarrow> Inl e
    | Inr RespOk \<Rightarrow> Inr ()
    | Inr (RespData _) \<Rightarrow> Inr ()
    | Inr (RespError m) \<Rightarrow> Inl (OtherError m))"

definition send_command_output :: "rstr \<Rightarrow> hypr_error + rstr" where
  "send_command_output written = (case client_response written of
      Inl e \<Rightarrow> Inl e
    | Inr RespOk \<Rightarrow> Inr []
    | Inr (RespData d) \<Rightarrow> Inr (d @ [10])
    | Inr (RespError m) \<Rightarrow> Inl (OtherError m))"

datatype cli_command =
    CliSwitch "8 word" | CliMove "8 word" | CliNext | CliPrev | CliSwap rstr | CliCollapse rstr
  | CliAssign | CliPin "rstr list" | CliUnpin "rstr list" | CliPins | CliDebug rstr

datatype cli_result = CliSend hypr_command | CliSendOutput hypr_command | CliErr hypr_error | CliExit nat

fun cli_run :: "cli_command \<Rightarrow> cli_result" where
  "cli_run (CliSwitch n) = (case validate_workspace n of Inl e \<Rightarrow> CliErr e | Inr w \<Rightarrow> CliSend (Switch w))"
| "cli_run (CliMove n) = (case validate_workspace n of Inl e \<Rightarrow> CliErr e | Inr w \<Rightarrow> CliSend (MoveTo w))"
| "cli_run CliNext = CliSend (Navigate Next)"
| "cli_run CliPrev = CliSend (Navigate Prev)"
| "cli_run (CliSwap d) =
     (if d = str ''next'' then CliSend (Swap Next)
      else if d = str ''prev'' then CliSend (Swap Prev) else CliExit 1)"
| "cli_run (CliCollapse m) =
     (if m = str ''all'' then CliSend (Collapse All)
      else if m = str ''invisible'' then CliSend (Collapse Invisible) else CliExit 1)"
| "cli_run CliAssign = CliSend Assign"
| "cli_run (CliPin ws) = CliSend (Pin (join [32] ws))"
| "cli_run (CliUnpin ws) = CliSend (Unpin (join [32] ws))"
| "cli_run CliPins = CliSendOutput Pins"
| "cli_run (CliDebug b) = (case parse_bool_arg b of Some on \<Rightarrow> CliSend (Debug on) | None \<Rightarrow> CliExit 1)"

end
