(* ===== verification/Hypr_Safety.thy ===== *)
theory Hypr_Safety
  imports Hypr_Daemon
begin

text \<open>
  Two ways to reason about the manager.

  \<^item> \<open>only P\<close>: every request the program adds to the log satisfies \<open>P\<close>, whatever Hyprland
    answers.
  \<^item> \<open>does s m a rs\<close>: from \<open>s\<close> the program \<open>m\<close> returns \<open>a\<close>, sends exactly \<open>rs\<close>, and leaves the
    rest of the state alone.  It is used where Hyprland answers every query with the same
    picture and every request with \<open>ok\<close> (\<open>answers\<close>).
\<close>

definition sent :: "hypr_state \<Rightarrow> request list" where
  "sent s = rev (List.map_filter (\<lambda>e. case e of Sent r \<Rightarrow> Some r | _ \<Rightarrow> None) (hlog s))"

lemma sent_log_event:
  "sent (log_event e s) = sent s @ (case e of Sent r \<Rightarrow> [r] | _ \<Rightarrow> [])"
  by (auto simp: sent_def log_event_def List.map_filter_def split: hypr_event.splits)

lemma log_event_rest [simp]:
  "pinned (log_event e s) = pinned s" "layout (log_event e s) = layout s"
  "reg_file (log_event e s) = reg_file s"
  by (simp_all add: log_event_def)

section \<open>Whatever Hyprland answers\<close>

definition only :: "(request \<Rightarrow> bool) \<Rightarrow> monitor_layout \<Rightarrow> window_pattern list \<Rightarrow> request list \<Rightarrow> hypr_state \<Rightarrow> bool" where
  "only P l ps old s \<longleftrightarrow> layout s = l \<and> pinned s = ps \<and>
     (\<exists>new. sent s = old @ new \<and> (\<forall>r\<in>set new. P r))"

lemma only_start: "only P (layout s) (pinned s) (sent s) s"
  by (simp add: only_def)

lemma keeps_exchange [keeps_intros]: "keeps (only P l ps old) (exchange E f q)"
  by (auto simp: keeps_def exchange_def fail_def only_def sent_log_event Let_def split: sum.splits)

lemma keeps_send [keeps_intros]: "P r \<Longrightarrow> keeps (only P l ps old) (send E r)"
  unfolding send_def
  by (intro keeps_intros) (auto simp: keeps_def update_state_def only_def sent_log_event)

lemma keeps_decode [keeps_intros]: "keeps I (decode q a)"
  unfolding decode_def by (intro keeps_intros)

lemma keeps_query [keeps_intros]: "keeps (only P l ps old) (query E q rd)"
  unfolding query_def by (intro keeps_intros)

lemma keeps_queries [keeps_intros]:
  "keeps (only P l ps old) (monitors E)" "keeps (only P l ps old) (clients E)"
  "keeps (only P l ps old) (workspaces E)" "keeps (only P l ps old) (active_workspace E)"
  "keeps (only P l ps old) (cursor_position E)"
  unfolding monitors_def clients_def workspaces_def active_workspace_def cursor_position_def
  by (intro keeps_intros)+

lemma keeps_active_monitor [keeps_intros]: "keeps (only P l ps old) (active_monitor E)"
  unfolding active_monitor_def focused_def by (intro keeps_intros)

lemma keeps_gets_bnd:
  "(\<And>s. I s \<Longrightarrow> keeps I (f (g s))) \<Longrightarrow> keeps I (bnd (gets g) f)"
  by (auto simp: keeps_def bnd_def gets_def split: prod.splits outcome.splits)

lemma keeps_unconditional: "(\<And>s. I s \<Longrightarrow> keeps I m) \<Longrightarrow> keeps I m"
  by (auto simp: keeps_def)

subsection \<open>A synchronisation stays inside its virtual workspace\<close>

text \<open>The workspace a request names.\<close>

fun request_workspace :: "request \<Rightarrow> int option" where
  "request_workspace (FocusWorkspace i) = Some i"
| "request_workspace (MoveWindowSilent _ i) = Some i"
| "request_workspace (MoveWindow _ i) = Some i"
| "request_workspace (MoveActiveWindow i) = Some i"
| "request_workspace (MoveWorkspaceToMonitor i _) = Some i"
| "request_workspace (FocusWindow _) = None"
| "request_workspace (WorkspaceRule i _ _) = Some i"

definition stays_in :: "virtual_workspace \<Rightarrow> request \<Rightarrow> bool" where
  "stays_in v r \<longleftrightarrow> (\<forall>i. request_workspace r = Some i \<longrightarrow> vw_from_id i = Some v)"

lemma stays_in_id [simp]:
  "vw_ok v \<Longrightarrow> stays_in v (FocusWorkspace (hyprland_id v t))"
  "vw_ok v \<Longrightarrow> stays_in v (MoveWindowSilent a (hyprland_id v t))"
  "vw_ok v \<Longrightarrow> stays_in v (MoveWorkspaceToMonitor (hyprland_id v t) n)"
  "stays_in v (FocusWindow a)"
  by (simp_all add: stays_in_def ids.vw_of_id)

lemma keeps_sync_monitor:
  "vw_ok v \<Longrightarrow> keeps (only (stays_in v) l ps old) (sync_monitor E v trigger ws m)"
  unfolding sync_monitor_def by (intro keeps_gets_bnd keeps_intros) simp_all

lemma keeps_move_pinned:
  "vw_ok v \<Longrightarrow> keeps (only (stays_in v) l ps old) (move_pinned E v s ms c)"
  unfolding move_pinned_def Let_def by (intro keeps_intros) simp_all

lemma keeps_move_pinned_windows:
  "vw_ok v \<Longrightarrow> keeps (only (stays_in v) l ps old) (move_pinned_windows E v)"
  unfolding move_pinned_windows_def by (intro keeps_intros keeps_move_pinned)

lemma keeps_focus_window: "keeps (only (stays_in v) l ps old) (focus_window_under_cursor E v)"
  unfolding focus_window_under_cursor_def by (intro keeps_intros) simp_all

lemma keeps_sync_monitors:
  assumes "vw_from_id trigger = Some v"
  shows "keeps (only (stays_in v) l ps old) (sync_monitors E trigger)"
proof -
  have v: "vw_ok v" using assms by (rule vw_from_id_ok)
  have t: "stays_in v (FocusWorkspace trigger)" by (simp add: stays_in_def assms)
  show ?thesis
    unfolding sync_monitors_def assms option.case
    by (intro keeps_intros keeps_sync_monitor keeps_move_pinned_windows keeps_focus_window v t)
qed

section \<open>When Hyprland answers\<close>

record hypr_world =
  w_monitors :: "hypr_monitor list"
  w_clients :: "hypr_client list"
  w_workspaces :: "hypr_workspace list"
  w_active :: hypr_workspace
  w_cursor :: "int \<times> int"

definition reads :: "hypr_env \<Rightarrow> string \<Rightarrow> (rstr \<Rightarrow> rstr + 'a) \<Rightarrow> 'a \<Rightarrow> bool" where
  "reads E q read x \<longleftrightarrow>
     (\<forall>n p. case h_answer E n p (str ''j'' @ str ''/'' @ str q) of Inl _ \<Rightarrow> False | Inr a \<Rightarrow> read a = Inr x)"

definition answers :: "hypr_env \<Rightarrow> hypr_world \<Rightarrow> bool" where
  "answers E w \<longleftrightarrow>
     (\<exists>p. hypr_socket_path (h_runtime_dir E) (h_uid E) (h_signature E) = Inr p) \<and>
     (\<forall>n p r. h_answer E n p (str ''/'' @ request_text r) = Inr (str ''ok'')) \<and>
     reads E ''monitors all'' (h_monitors E) (w_monitors w) \<and>
     reads E ''clients'' (h_clients E) (w_clients w) \<and>
     reads E ''workspaces'' (h_workspaces E) (w_workspaces w) \<and>
     reads E ''activeworkspace'' (h_active E) (w_active w) \<and>
     reads E ''cursorpos'' (h_cursor E) (w_cursor w)"

definition same_rest :: "hypr_state \<Rightarrow> hypr_state \<Rightarrow> bool" where
  "same_rest s t \<longleftrightarrow> pinned t = pinned s \<and> layout t = layout s \<and> reg_file t = reg_file s"

definition does :: "hypr_state \<Rightarrow> 'a hyprd \<Rightarrow> 'a \<Rightarrow> request list \<Rightarrow> bool" where
  "does s m a rs \<longleftrightarrow>
     (\<forall>u. same_rest s u \<longrightarrow> (\<exists>t. m u = (Done a, t) \<and> sent t = sent u @ rs \<and> same_rest s t))"

lemma same_rest_refl [simp]: "same_rest s s"
  by (simp add: same_rest_def)

lemma doesD: "does s m a rs \<Longrightarrow> \<exists>t. m s = (Done a, t) \<and> sent t = sent s @ rs \<and> same_rest s t"
  by (simp add: does_def)

lemma does_ret: "does s (ret a) a []"
  by (simp add: does_def ret_def)

lemma does_bnd: "does s m a rs \<Longrightarrow> does s (f a) b qs \<Longrightarrow> us = rs @ qs \<Longrightarrow> does s (bnd m f) b us"
proof -
  assume m: "does s m a rs" and f: "does s (f a) b qs" and us: "us = rs @ qs"
  show ?thesis
    unfolding does_def
  proof (intro allI impI)
    fix u assume "same_rest s u"
    with m obtain t where t: "m u = (Done a, t)" "sent t = sent u @ rs" "same_rest s t"
      unfolding does_def by blast
    with f obtain t' where "f a t = (Done b, t')" "sent t' = sent t @ qs" "same_rest s t'"
      unfolding does_def by blast
    with t show "\<exists>t. bnd m f u = (Done b, t) \<and> sent t = sent u @ us \<and> same_rest s t"
      by (simp add: bnd_def us)
  qed
qed

lemma does_bnd_quiet: "does s m a [] \<Longrightarrow> does s (f a) b us \<Longrightarrow> does s (bnd m f) b us"
  by (rule does_bnd) auto

lemma does_bnd_gets:
  assumes "\<And>u. same_rest s u \<Longrightarrow> g u = g s" and "does s (f (g s)) b us"
  shows "does s (bnd (gets g) f) b us"
proof -
  have "bnd (gets g) f u = f (g s) u" if "same_rest s u" for u
    by (simp add: bnd_def gets_def assms(1) [OF that])
  with assms(2) show ?thesis unfolding does_def by simp
qed

lemma does_each:
  assumes "\<And>x. x \<in> set xs \<Longrightarrow> does s (f x) () (g x)"
  shows "does s (each f xs) () (concat (map g xs))"
  using assms by (induction xs) (auto intro: does_ret does_bnd)

lemma does_ignore: "does s m a rs \<Longrightarrow> does s (ignore m) () rs"
proof -
  assume m: "does s m a rs"
  show ?thesis
    unfolding does_def
  proof (intro allI impI)
    fix u assume "same_rest s u"
    with m obtain t where "m u = (Done a, t)" "sent t = sent u @ rs" "same_rest s t"
      unfolding does_def by blast
    then show "\<exists>t. ignore m u = (Done (), t) \<and> sent t = sent u @ rs \<and> same_rest s t"
      by (simp add: ignore_def bnd_def attempt_def ret_def)
  qed
qed

lemma does_send: "answers E w \<Longrightarrow> does s (send E r) () [r]"
  by (auto simp: answers_def does_def send_def bnd_def exchange_def update_state_def sent_log_event
      same_rest_def Let_def)

lemma does_query:
  assumes "answers E w" and "reads E q rd x"
  shows "does s (query E q rd) x []"
  unfolding does_def
proof (intro allI impI)
  fix u assume u: "same_rest s u"
  obtain p where p: "hypr_socket_path (h_runtime_dir E) (h_uid E) (h_signature E) = Inr p"
    using assms(1) by (auto simp: answers_def)
  obtain a where a: "h_answer E (length (hlog u)) p (str ''j'' @ str ''/'' @ str q) = Inr a" "rd a = Inr x"
    using assms(2) [unfolded reads_def, rule_format, of "length (hlog u)" p] that
    by (cases "h_answer E (length (hlog u)) p (str ''j'' @ str ''/'' @ str q)") auto
  show "\<exists>t. query E q rd u = (Done x, t) \<and> sent t = sent u @ [] \<and> same_rest s t"
    using u
    by (simp add: query_def bnd_def exchange_def p a decode_def ret_def Let_def
        sent_log_event same_rest_def)
qed

lemma does_queries:
  assumes "answers E w"
  shows "does s (monitors E) (w_monitors w) []" "does s (clients E) (w_clients w) []"
    "does s (workspaces E) (w_workspaces w) []" "does s (active_workspace E) (w_active w) []"
    "does s (cursor_position E) (w_cursor w) []"
  using assms unfolding monitors_def clients_def workspaces_def active_workspace_def cursor_position_def
  by (auto intro!: does_query simp: answers_def)

lemmas does_asks = does_queries [THEN does_bnd_quiet]

lemma does_active_monitor:
  assumes "answers E w" and "find mon_focused (w_monitors w) = Some f"
  shows "does s (active_monitor E) f []"
  unfolding active_monitor_def focused_def
  by (rule does_asks(1) [OF assms(1)]) (simp add: assms(2) does_ret)

lemma does_move_all:
  "answers E w \<Longrightarrow> does s (move_all E cs i) () (map (\<lambda>c. MoveWindowSilent (cl_address c) i) cs)"
  unfolding move_all_def
  using does_each [where g = "\<lambda>c. [MoveWindowSilent (cl_address c) i]"] does_send
  by (fastforce simp: concat_map_singleton)

subsection \<open>What the operations send\<close>

definition slot_of_monitor :: "hypr_state \<Rightarrow> hypr_monitor \<Rightarrow> monitor_slot" where
  "slot_of_monitor s m = slot_for (layout s) (mon_id m)"

lemma slot_of_monitor_same: "same_rest s t \<Longrightarrow> slot_of_monitor t m = slot_of_monitor s m"
  by (simp add: slot_of_monitor_def same_rest_def)

definition swap_requests :: "hypr_client list \<Rightarrow> int \<Rightarrow> int \<Rightarrow> request list" where
  "swap_requests cs a b =
     (let move = (\<lambda>from to. map (\<lambda>c. MoveWindowSilent (cl_address c) to) (filter (\<lambda>c. cl_workspace c = from) cs))
      in move a BUFFER_WS @ move b a @ move a b)"

lemma does_swap_windows:
  assumes "answers E w"
  shows "does s (swap_windows E v f t) ()
    (swap_requests (w_clients w) (hyprland_id v (slot_of_monitor s f)) (hyprland_id v (slot_of_monitor s t)))"
  unfolding swap_windows_def swap_requests_def slot_of_monitor_def Let_def
  by (rule does_bnd_gets, simp add: same_rest_def, simp only: prod.case)
    (rule does_asks(2) [OF assms] does_bnd [OF does_move_all [OF assms]] does_move_all [OF assms] refl)+

lemma does_swap_monitor:
  assumes "answers E w" and "2 \<le> length (w_monitors w)" and "find mon_focused (w_monitors w) = Some f"
    and "position (\<lambda>m. mon_id m = mon_id f) (sort_key mon_x (w_monitors w)) = Some i"
    and "swap_target d i (length (w_monitors w)) = Some j"
    and "vw_from_id (mon_active f) = Some v"
  shows "does s (swap_monitor E d) () (swap_requests (w_clients w) (hyprland_id v (slot_of_monitor s f))
    (hyprland_id v (slot_of_monitor s (sort_key mon_x (w_monitors w) ! j))))"
  unfolding swap_monitor_def
  by (rule does_asks(1) [OF assms(1)], simp only: not_less [THEN iffD2, OF assms(2)] if_False)
    (rule does_bnd_quiet [OF does_active_monitor [OF assms(1,3)]],
     simp add: assms(4,5,6) does_swap_windows [OF assms(1)])

text \<open>Where the moves of a list of requests put the windows.\<close>

fun place1 :: "request \<Rightarrow> (rstr \<Rightarrow> int) \<Rightarrow> rstr \<Rightarrow> int" where
  "place1 (MoveWindowSilent a i) p = p(a := i)"
| "place1 (MoveWindow a i) p = p(a := i)"
| "place1 _ p = p"

definition place :: "request list \<Rightarrow> (rstr \<Rightarrow> int) \<Rightarrow> rstr \<Rightarrow> int" where
  "place rs p = fold place1 rs p"

lemma place_append: "place (rs @ qs) p = place qs (place rs p)"
  by (simp add: place_def)

lemma place_moves:
  "place (map (\<lambda>c. MoveWindowSilent (cl_address c) i) cs) p =
     (\<lambda>a. if a \<in> cl_address ` set cs then i else p a)"
  by (induction cs arbitrary: p) (auto simp: place_def fun_eq_iff)

lemma place_swap:
  assumes "distinct (map cl_address cs)" and "\<forall>c\<in>set cs. p (cl_address c) = cl_workspace c"
    and "c \<in> set cs"
  shows "place (swap_requests cs a b) p (cl_address c) =
    (if cl_workspace c = a then b else if cl_workspace c = b then a else cl_workspace c)"
proof -
  have "cl_address c \<in> cl_address ` set (filter (\<lambda>d. cl_workspace d = i) cs) \<longleftrightarrow> cl_workspace c = i" for i
    using assms(1,3) by (auto simp: distinct_map dest: inj_onD)
  then show ?thesis
    using assms(2,3) by (simp add: swap_requests_def Let_def place_append place_moves del: set_filter)
qed

subsection \<open>A synchronisation shows one virtual workspace everywhere\<close>

text \<open>Which workspace each slot's monitor shows: a workspace is focused on the monitor that holds it.\<close>

fun show1 :: "request \<Rightarrow> (monitor_slot \<Rightarrow> int) \<Rightarrow> monitor_slot \<Rightarrow> int" where
  "show1 (FocusWorkspace i) d = d(slot_from_id i := i)"
| "show1 _ d = d"

definition shown :: "request list \<Rightarrow> (monitor_slot \<Rightarrow> int) \<Rightarrow> monitor_slot \<Rightarrow> int" where
  "shown rs d = fold show1 rs d"

lemma shown_append: "shown (rs @ qs) d = shown qs (shown rs d)"
  by (simp add: shown_def)

lemma shown_Nil [simp]: "shown [] d = d"
  by (simp add: shown_def)

fun focuses :: "request \<Rightarrow> bool" where
  "focuses (FocusWorkspace _) \<longleftrightarrow> True"
| "focuses _ \<longleftrightarrow> False"

lemma shown_unfocused: "(\<forall>r\<in>set rs. \<not> focuses r) \<Longrightarrow> shown rs d = d"
proof (induction rs arbitrary: d)
  case (Cons r rs)
  then show ?case by (cases r) (auto simp: shown_def)
qed simp

definition sync_requests :: "hypr_state \<Rightarrow> virtual_workspace \<Rightarrow> int \<Rightarrow> hypr_workspace list \<Rightarrow> hypr_monitor \<Rightarrow> request list" where
  "sync_requests s v trigger ws m =
     (let target = hyprland_id v (slot_of_monitor s m) in
      if target = trigger \<or> mon_active m = target then []
      else (case find (\<lambda>w. ws_id w = target) ws of
              Some w \<Rightarrow> if ws_monitor w \<noteq> mon_name m then [MoveWorkspaceToMonitor target (mon_name m)] else []
            | None \<Rightarrow> []) @ [FocusWorkspace target])"

lemma does_sync_monitor:
  assumes "answers E w"
  shows "does s (sync_monitor E v trigger ws m) () (sync_requests s v trigger ws m)"
  unfolding sync_monitor_def sync_requests_def slot_of_monitor_def Let_def
  by (rule does_bnd_gets)
    (auto simp: same_rest_def intro!: does_ret does_ignore does_send [OF assms] does_bnd split: option.splits)

definition pinned_requests :: "hypr_state \<Rightarrow> virtual_workspace \<Rightarrow> hypr_monitor list \<Rightarrow> hypr_client \<Rightarrow> request list" where
  "pinned_requests s v ms c =
     (if \<not> is_pinned (pinned s) c \<or> cl_workspace c < 0 then []
      else case find_monitor_for_client c ms of
        None \<Rightarrow> []
      | Some i \<Rightarrow> if cl_workspace c \<noteq> hyprland_id v (slot_for (layout s) i)
                  then [MoveWindowSilent (cl_address c) (hyprland_id v (slot_for (layout s) i))] else [])"

lemma does_move_pinned_windows:
  assumes "answers E w"
  shows "does s (move_pinned_windows E v) ()
    (if pinned s = [] then [] else concat (map (pinned_requests s v (w_monitors w)) (w_clients w)))"
proof -
  have one: "does s (move_pinned E v u (w_monitors w) c) () (pinned_requests s v (w_monitors w) c)"
    if "same_rest s u" for c u
    using that
    by (auto simp: move_pinned_def pinned_requests_def Let_def same_rest_def
        intro!: does_ret does_send [OF assms] split: option.splits)
  have all: "does s (if pinned u = [] then ret ()
      else bnd (clients E) (\<lambda>cs. bnd (monitors E) (\<lambda>ms. each (move_pinned E v u ms) cs))) ()
    (if pinned s = [] then [] else concat (map (pinned_requests s v (w_monitors w)) (w_clients w)))"
    if u: "same_rest s u" for u
    using u by (auto simp: same_rest_def intro!: does_ret does_asks [OF assms] does_each one [OF u])
  show ?thesis
    using all unfolding move_pinned_windows_def by (simp add: does_def bnd_def gets_def)
qed

definition window_requests :: "hypr_state \<Rightarrow> virtual_workspace \<Rightarrow> hypr_world \<Rightarrow> request list" where
  "window_requests s v w =
     (case find (under_cursor (w_cursor w) (map (\<lambda>m. hyprland_id v (slot_of_monitor s m)) (w_monitors w))) (w_clients w) of
        Some c \<Rightarrow> [FocusWindow (cl_address c)] | None \<Rightarrow> [])"

lemma does_focus_window:
  assumes "answers E w"
  shows "does s (focus_window_under_cursor E v) () (window_requests s v w)"
  unfolding focus_window_under_cursor_def window_requests_def slot_of_monitor_def
  by (rule does_asks(5) [OF assms] does_asks(2) [OF assms] does_asks(1) [OF assms] does_bnd_gets)+
    (auto simp: same_rest_def intro!: does_ret does_send [OF assms] split: option.splits)

lemma does_sync_monitors:
  assumes "answers E w" and "vw_from_id trigger = Some v" and "1 < length (w_monitors w)"
  shows "\<exists>rest. does s (sync_monitors E trigger) ()
      (concat (map (sync_requests s v trigger (w_workspaces w)) (w_monitors w)) @ rest) \<and>
    (\<forall>r\<in>set rest. focuses r \<longrightarrow> r = FocusWorkspace trigger)"
proof -
  let ?again = "if ws_id (w_active w) \<noteq> trigger then [FocusWorkspace trigger] else []"
  let ?pinned = "if pinned s = [] then [] else concat (map (pinned_requests s v (w_monitors w)) (w_clients w))"
  let ?rest = "?pinned @ ?again @ window_requests s v w"
  have refocus: "does s (if ws_id (w_active w) \<noteq> trigger then ignore (send E (FocusWorkspace trigger)) else ret ())
      () ?again"
    by (auto intro: does_ret does_ignore does_send [OF assms(1)])
  have "does s (sync_monitors E trigger) ()
      (concat (map (sync_requests s v trigger (w_workspaces w)) (w_monitors w)) @ ?rest)"
    unfolding sync_monitors_def assms(2) option.case
    by (rule does_asks(1) [OF assms(1)], simp only: not_le [THEN iffD2, OF assms(3)] if_False)
      (rule does_asks(3) [OF assms(1)] does_bnd [OF does_each [OF does_sync_monitor [OF assms(1)]]]
         does_bnd [OF does_ignore [OF does_move_pinned_windows [OF assms(1)]]] does_asks(4) [OF assms(1)]
         does_bnd [OF refocus] does_ignore [OF does_focus_window [OF assms(1)]] refl)+
  moreover have "\<forall>r\<in>set ?pinned. \<not> focuses r"
    by (auto simp: pinned_requests_def split: if_splits option.splits)
  moreover have "\<forall>r\<in>set (window_requests s v w). \<not> focuses r"
    by (auto simp: window_requests_def split: option.splits)
  ultimately show ?thesis by (intro exI [of _ ?rest] conjI) (assumption, auto split: if_splits)
qed


lemma shown_sync_requests:
  "vw_ok v \<Longrightarrow> shown (sync_requests s v trigger ws m) e =
     (let x = slot_of_monitor s m in
      if hyprland_id v x = trigger \<or> mon_active m = hyprland_id v x then e else e(x := hyprland_id v x))"
  by (auto simp: sync_requests_def Let_def shown_def ids.slot_of_id split: option.splits)

lemma shown_all_sync_requests:
  assumes "vw_ok v"
    and "\<forall>m\<in>set ms. e (slot_of_monitor s m) = mon_active m \<or> e (slot_of_monitor s m) = hyprland_id v (slot_of_monitor s m)"
    and "\<forall>m\<in>set ms. hyprland_id v (slot_of_monitor s m) = trigger \<longrightarrow> mon_active m = trigger"
    and "m \<in> set ms \<or> e (slot_of_monitor s m) = hyprland_id v (slot_of_monitor s m)"
  shows "shown (concat (map (sync_requests s v trigger ws) ms)) e (slot_of_monitor s m) =
    hyprland_id v (slot_of_monitor s m)"
  using assms(2-4)
proof (induction ms arbitrary: e)
  case Nil
  then show ?case by simp
next
  case (Cons m1 ms)
  let ?e = "shown (sync_requests s v trigger ws m1) e"
  have step: "?e y = e y \<or> ?e y = hyprland_id v y" for y
    by (simp add: shown_sync_requests [OF assms(1)] Let_def)
  have head: "?e (slot_of_monitor s m1) = hyprland_id v (slot_of_monitor s m1)"
  proof -
    from Cons.prems(1,2) have "e (slot_of_monitor s m1) = mon_active m1 \<or>
        e (slot_of_monitor s m1) = hyprland_id v (slot_of_monitor s m1)"
      and "hyprland_id v (slot_of_monitor s m1) = trigger \<longrightarrow> mon_active m1 = trigger" by simp_all
    then show ?thesis by (auto simp: shown_sync_requests [OF assms(1)] Let_def)
  qed
  show ?case
    unfolding list.map concat.simps shown_append
  proof (rule Cons.IH)
    show "\<forall>m\<in>set ms. ?e (slot_of_monitor s m) = mon_active m \<or>
        ?e (slot_of_monitor s m) = hyprland_id v (slot_of_monitor s m)"
      using step Cons.prems(1) by (metis list.set_intros(2))
    show "\<forall>m\<in>set ms. hyprland_id v (slot_of_monitor s m) = trigger \<longrightarrow> mon_active m = trigger"
      using Cons.prems(2) by simp
    show "m \<in> set ms \<or> ?e (slot_of_monitor s m) = hyprland_id v (slot_of_monitor s m)"
      using head step [of "slot_of_monitor s m"] Cons.prems(3) by (metis set_ConsD)
  qed
qed

lemma shown_refocus:
  assumes "\<forall>r\<in>set rs. focuses r \<longrightarrow> r = FocusWorkspace trigger"
    and "x = slot_from_id trigger \<Longrightarrow> e x = trigger"
  shows "shown rs e x = e x"
  using assms
proof (induction rs arbitrary: e)
  case (Cons r rs)
  have "shown (r # rs) e x = shown rs (show1 r e) x" by (simp add: shown_def)
  also have "\<dots> = show1 r e x" by (rule Cons.IH) (use Cons.prems in \<open>cases r; auto\<close>)+
  also have "\<dots> = e x" using Cons.prems by (cases r) auto
  finally show ?case .
qed simp

lemma concat_map_filter: "concat (map (\<lambda>x. if P x then [f x] else []) xs) = map f (filter P xs)"
  by (induction xs) auto

lemma does_collapse:
  assumes "answers E w" and "vw_from_id (ws_id (w_active w)) = Some v"
  shows "does s (collapse E mode) () (map (\<lambda>c. MoveWindow (cl_address c) (ws_id (w_active w)))
    (filter (\<lambda>c. 0 < cl_workspace c \<and>
       should_move mode v (ws_id (w_active w)) (length (w_monitors w)) (cl_workspace c)) (w_clients w)))"
proof -
  let ?g = "\<lambda>c. if 0 < cl_workspace c \<and>
       should_move mode v (ws_id (w_active w)) (length (w_monitors w)) (cl_workspace c)
     then [MoveWindow (cl_address c) (ws_id (w_active w))] else []"
  have one: "does s (collapse_client E mode v (ws_id (w_active w)) (length (w_monitors w)) c) () (?g c)" for c
    by (auto simp: collapse_client_def intro!: does_ret does_send [OF assms(1)])
  have "does s (each (collapse_client E mode v (ws_id (w_active w)) (length (w_monitors w))) (w_clients w))
      () (concat (map ?g (w_clients w)))"
    by (rule does_each) (rule one)
  then show ?thesis
    unfolding collapse_def concat_map_filter
    by (intro does_asks(4) [OF assms(1)], unfold assms(2) option.case)
      (intro does_asks(1,2) [OF assms(1)])
qed

section \<open>The texts on the daemon's socket\<close>

lemma trim_end_last: "trim_end s \<noteq> [] \<Longrightarrow> \<not> is_whitespace (last (trim_end s))"
  using hd_dropWhile [of is_whitespace "rev s"] by (simp add: trim_end_def last_rev)

lemma trim_last: "trim s \<noteq> [] \<Longrightarrow> \<not> is_whitespace (last (trim s))"
  by (simp add: trim_def trim_end_last)

lemma set_trim: "set (trim s) \<subseteq> set s"
  by (auto simp: trim_def trim_end_def trim_start_def dest!: set_dropWhileD)

fun payload :: "hypr_response \<Rightarrow> rstr" where
  "payload RespOk = []"
| "payload (RespData d) = d"
| "payload (RespError m) = m"

lemma strip_word_ok:
  assumes "strip_prefix (trim t) (str (cs @ '' '')) = Some d"
  shows "d \<noteq> [] \<and> \<not> is_whitespace (last d) \<and> set d \<subseteq> set t"
proof -
  from assms have eq: "trim t = str cs @ [32] @ d"
    by (simp add: strip_prefix_Some_iff str_def)
  then have last: "\<not> is_whitespace (last (str cs @ [32] @ d))" using trim_last [of t] by simp
  moreover from eq have "set d \<subseteq> set t" using set_trim [of t] by auto
  ultimately show ?thesis by (cases "d = []") (auto simp: is_whitespace_def)
qed

lemma parse_response_ok: "parse_response t = Inr r \<Longrightarrow> response_ok r \<and> set (payload r) \<subseteq> set t"
  using strip_word_ok [of t "''error:''"] strip_word_ok [of t "''data:''"]
  by (auto simp: parse_response_def Let_def split: if_splits option.splits)

lemma parse_response_trim:
  "trim s = trim t \<Longrightarrow> parse_response s = Inr r \<longleftrightarrow> parse_response t = Inr r"
  by (simp add: parse_response_def Let_def split: option.splits)

lemma read_line_line: "10 \<notin> set l \<Longrightarrow> read_line (l @ 10 # t) = l @ [10]"
  by (simp add: read_line_def)

lemma newline_whitespace: "is_whitespace 10"
  by (simp add: is_whitespace_def)

lemma payload_newline: "10 \<in> set (show_response r) \<longleftrightarrow> 10 \<in> set (payload r)"
  by (cases r) (simp_all add: str_def)

lemma word_no_newline: "is_word w \<Longrightarrow> 10 \<notin> set w"
  by (auto simp: is_word_def newline_whitespace)

lemma join_words_newline: "(\<forall>w\<in>set ws. is_word w) \<Longrightarrow> 10 \<notin> set (join [32] ws)"
  by (induction "[32::nat]" ws rule: join.induct) (auto dest: word_no_newline)

lemma show_command_newline: "command_ok c \<Longrightarrow> 10 \<notin> set (show_command c)"
  using join_words_newline [of "command_words c"] command_words_are_words
  by (simp add: show_command_words)

lemma handle_client_command:
  assumes "command_ok c"
  shows "handle_client E i (command_line c) st = st\<lparr>dm_queue := dm_queue st @ [CommandFrom i c]\<rparr>"
proof -
  have "read_line (command_line c) = show_command c @ [10]"
    using read_line_line [OF show_command_newline [OF assms], of "[]"] by (simp add: command_line_def)
  moreover have "parse_command (trim (show_command c)) = Inr c"
    using parse_show_command [OF assms] words_of_join [of "command_words c"] command_words_are_words
      join_words_ends [of "command_words c"]
    by (cases "command_words c = []") (simp_all add: show_command_words [OF assms] trim_id)
  ultimately show ?thesis
    by (simp add: handle_client_def trim_snoc_whitespace [OF newline_whitespace])
qed

section \<open>The loop\<close>

text \<open>The pins of a run are distinct patterns that were parsed.\<close>

definition pins_ok :: "window_pattern list \<Rightarrow> bool" where
  "pins_ok ps \<longleftrightarrow> distinct ps \<and> (\<forall>p\<in>set ps. window_pattern_ok p)"

abbreviation keeps_pins :: "'a hyprd \<Rightarrow> bool" where
  "keeps_pins m \<equiv> keeps (\<lambda>s. pins_ok (pinned s)) m"

lemma keeps_pins_basic [keeps_intros]:
  "keeps_pins (exchange E f q)" "keeps_pins (update_state (log_event e))"
  "keeps_pins (save_registry E es)" "keeps_pins (update_state (\<lambda>s. s\<lparr>layout := l\<rparr>))"
  by (auto simp: keeps_def exchange_def fail_def update_state_def save_registry_def Let_def split: sum.splits)

lemma keeps_pins_send [keeps_intros]: "keeps_pins (send E r)"
  unfolding send_def by (intro keeps_intros)

lemma keeps_pins_query [keeps_intros]: "keeps_pins (query E q rd)"
  unfolding query_def by (intro keeps_intros)

lemma keeps_pins_queries [keeps_intros]:
  "keeps_pins (monitors E)" "keeps_pins (clients E)" "keeps_pins (workspaces E)"
  "keeps_pins (active_workspace E)" "keeps_pins (cursor_position E)"
  unfolding monitors_def clients_def workspaces_def active_workspace_def cursor_position_def
  by (intro keeps_intros)+

lemma keeps_pins_active_monitor [keeps_intros]: "keeps_pins (active_monitor E)"
  unfolding active_monitor_def focused_def by (intro keeps_intros)

lemma keeps_prod [keeps_intros]:
  "(\<And>a b. x = (a, b) \<Longrightarrow> keeps I (f a b)) \<Longrightarrow> keeps I (case x of (a, b) \<Rightarrow> f a b)"
  by (cases x) auto

lemma keeps_pins_focus [keeps_intros]: "keeps_pins (focus_window_under_cursor E v)"
  unfolding focus_window_under_cursor_def by (intro keeps_intros)

lemma keeps_pins_sync [keeps_intros]: "keeps_pins (sync_monitors E i)"
  unfolding sync_monitors_def sync_monitor_def move_pinned_windows_def move_pinned_def Let_def
  by (intro keeps_intros)

lemma keeps_pins_assign [keeps_intros]: "keeps_pins (assign_workspaces E)"
  unfolding assign_workspaces_def assign_layout_def rules_for_def cleanup_orphan_workspaces_def
    cleanup_slot_def move_workspaces_to_correct_monitors_def move_workspace_def show_target_def Let_def
  by (intro keeps_intros)

lemma keeps_pins_switch [keeps_intros]: "keeps_pins (switch_virtual E v)"
  unfolding switch_virtual_def by (intro keeps_intros)

lemma parse_int_bounds: "parse_int m t = Some k \<Longrightarrow> - int m - 1 \<le> k \<and> k \<le> int m"
  by (auto simp: parse_int_def dest!: parse_digits_le parse_uint_le split: list.splits if_splits)

lemma parse_pattern_ok: "parse_pattern s = Some p \<Longrightarrow> window_pattern_ok p"
  by (auto simp: parse_pattern_def split: option.splits if_splits dest!: parse_int_bounds)

lemma keeps_pins_pin [keeps_intros]: "keeps_pins (pin t)" "keeps_pins (unpin t)"
proof -
  have "pins_ok (take i ps @ drop (Suc i) ps)" if ok: "pins_ok ps" for i ps
  proof -
    have "distinct (take i ps @ drop (Suc i) ps)"
      using ok set_take_disj_set_drop_if_distinct [of ps i "Suc i"] by (simp add: pins_ok_def)
    with ok show ?thesis by (auto simp: pins_ok_def dest: in_set_takeD in_set_dropD)
  qed
  then show "keeps_pins (pin t)" "keeps_pins (unpin t)"
    by (auto simp: keeps_def pin_def unpin_def fail_def update_state_def pins_ok_def
        dest: parse_pattern_ok split: option.splits)
qed

lemma keeps_pins_collapse_client [keeps_intros]: "keeps_pins (collapse_client E mode v i n c)"
  unfolding collapse_client_def by (intro keeps_intros)

lemma keeps_pins_command: "keeps_pins (handle_command E c)"
proof (cases c)
  case (Collapse mode)
  then show ?thesis
    by (simp add: respond_def collapse_def) (intro keeps_intros)
next
  case (Swap d)
  then show ?thesis
    unfolding Swap handle_command.simps respond_def swap_monitor_def swap_windows_def move_all_def Let_def
    by (intro keeps_intros)
next
  case (Navigate d)
  then show ?thesis
    by (simp add: respond_def navigate_def) (intro keeps_intros)
qed (simp add: respond_def with_workspace_def move_to_virtual_def; intro keeps_intros)+

lemma keeps_pins_prime: "keeps_pins (prime_focus E)"
  unfolding prime_focus_def by (intro keeps_intros)

end
