(* ===== verification/Hypr_Claims.thy ===== *)
theory Hypr_Claims
  imports Hypr_Safety
begin

text \<open>
  The properties of hypr-workspaced: its workspace numbers, the registry of monitors, the texts
  it exchanges with its client and with Hyprland, what its operations make Hyprland do, and its
  loop.  Witnesses run on \<open>example_env\<close>, a Hyprland with two monitors that accepts every request.
\<close>

section \<open>An example\<close>

definition example_monitors :: "hypr_monitor list" where
  "example_monitors =
     [\<lparr>mon_id = 0, mon_name = str ''eDP-1'', mon_description = str ''A'', mon_x = 0, mon_active = 3,
       mon_focused = True\<rparr>,
      \<lparr>mon_id = 1, mon_name = str ''DP-1'', mon_description = str ''B'', mon_x = 1920, mon_active = 11,
       mon_focused = False\<rparr>]"

definition example_client :: "rstr \<Rightarrow> int \<Rightarrow> hypr_client" where
  "example_client a i = \<lparr>cl_address = a, cl_at = (0, 0), cl_size = (10, 10), cl_workspace = i,
     cl_monitor = Some 0, cl_class = [], cl_initial_class = [], cl_title = [], cl_initial_title = [],
     cl_pid = 1, cl_floating = False, cl_fullscreen = False\<rparr>"

definition example_world :: hypr_world where
  "example_world = \<lparr>w_monitors = example_monitors,
     w_clients = [example_client (str ''0x1'') 3, example_client (str ''0x2'') 13, example_client (str ''0x3'') 5],
     w_workspaces = [], w_active = \<lparr>ws_id = 3, ws_monitor = str ''eDP-1''\<rparr>, w_cursor = (5, 5)\<rparr>"

definition example_env :: "hypr_world \<Rightarrow> hypr_env" where
  "example_env w = \<lparr>h_runtime_dir = Some (str ''/run''), h_uid = None, h_signature = Some (str ''x''),
     h_state_home = Some (str ''/state''), h_home = None,
     h_answer = (\<lambda>_ _ t. Inr (if starts_with t (str ''/'') then str ''ok'' else t)),
     h_monitors = (\<lambda>_. Inr (w_monitors w)), h_clients = (\<lambda>_. Inr (w_clients w)),
     h_workspaces = (\<lambda>_. Inr (w_workspaces w)), h_active = (\<lambda>_. Inr (w_active w)),
     h_cursor = (\<lambda>_. Inr (w_cursor w)), h_mkdir_ok = (\<lambda>_. True), h_write = (\<lambda>_ _. Inr ()),
     h_debug = id, h_reload = (\<lambda>_ _. None)\<rparr>"

definition example_state :: hypr_state where
  "example_state = \<lparr>pinned = [], layout = [(0, Slot 0), (1, Slot 1)], reg_file = None, hlog = []\<rparr>"

lemma example_answers: "answers (example_env w) w"
  by (simp add: answers_def example_env_def reads_def hypr_socket_path_def starts_with_def str_def)

section \<open>Workspace numbers\<close>

text \<open>Workspace ids and pairs of a virtual workspace and a monitor slot determine each other: the
  id computed for a virtual workspace on a slot is read back as that virtual workspace and that
  slot, and every id from 1 to 2559 that is not a multiple of 10 is the id of what is read from
  it.\<close>

theorem workspace_ids_round_trip:
  "(\<forall>v t. vw_ok v \<longrightarrow> vw_from_id (hyprland_id v t) = Some v \<and> slot_from_id (hyprland_id v t) = t) \<and>
   (\<forall>i. 0 < i \<and> i < 2560 \<and> i mod 10 \<noteq> 0 \<longrightarrow> (\<exists>v. vw_from_id i = Some v \<and> hyprland_id v (slot_from_id i) = i))"
proof (intro conjI allI impI)
  fix i :: int assume i: "0 < i \<and> i < 2560 \<and> i mod 10 \<noteq> 0"
  then obtain v where "vw_from_id i = Some v" by (auto simp: vw_from_id_def)
  with i hyprland_id_of_id show "\<exists>v. vw_from_id i = Some v \<and> hyprland_id v (slot_from_id i) = i" by blast
qed (simp_all add: ids.vw_of_id ids.slot_of_id)

theorem workspace_ids_round_trip_witness:
  "vw_from_id (hyprland_id (VW 4) (Slot 1)) = Some (VW 4) \<and> hyprland_id (VW 4) (slot_from_id 14) = 14"
proof -
  have ok: "vw_ok (VW 4)" by (simp add: vw_ok_def)
  have "vw_from_id 14 = Some (VW 4)" by (simp add: vw_from_id_def)
  then show ?thesis
    using workspace_ids_round_trip [THEN conjunct1, rule_format, OF ok, of "Slot 1"]
      workspace_ids_round_trip [THEN conjunct2, rule_format, of 14] by auto
qed

lemma vw_ok_cases: "vw_ok w \<Longrightarrow> w \<in> {VW 1, VW 2, VW 3, VW 4, VW 5, VW 6, VW 7, VW 8, VW 9}"
proof -
  assume ok: "vw_ok w"
  obtain n where w: "w = VW n" by (cases w)
  have "uint n \<in> {1, 2, 3, 4, 5, 6, 7, 8, 9}" using ok by (auto simp: vw_ok_def w)
  then have "n \<in> {1, 2, 3, 4, 5, 6, 7, 8, 9}"
    by (elim insertE emptyE) (simp_all add: word_uint_eq_iff)
  then show ?thesis by (auto simp: w)
qed

lemma vw_next_number: "vw_ok v \<Longrightarrow> uint (vw_number (vw_next v)) = uint (vw_number v) mod 9 + 1"
  by (drule vw_ok_cases, elim insertE emptyE) simp_all

lemma vw_next_ok: "vw_ok v \<Longrightarrow> vw_ok (vw_next v)"
  unfolding vw_ok_def [of "vw_next v"] by (subst vw_next_number, assumption)+ simp

lemma vw_next_steps:
  assumes "vw_ok v"
  shows "vw_ok ((vw_next ^^ k) v) \<and>
    uint (vw_number ((vw_next ^^ k) v)) = (uint (vw_number v) - 1 + int k) mod 9 + 1"
proof (induction k)
  case 0
  have "(uint (vw_number v) - 1) mod 9 = uint (vw_number v) - 1"
    using assms by (intro mod_pos_pos_trivial) (auto simp: vw_ok_def)
  with assms show ?case by simp
next
  case (Suc k)
  have "((x :: int) mod 9 + 1) mod 9 + 1 = (x + 1) mod 9 + 1" for x by (simp add: mod_add_left_eq)
  from this [of "uint (vw_number v) - 1 + int k"] Suc show ?case
    by (simp add: vw_next_ok vw_next_number algebra_simps)
qed

lemma vw_number_inj: "uint (vw_number v) = uint (vw_number w) \<Longrightarrow> v = w"
  by (cases v; cases w) (simp add: word_uint_eq_iff)

text \<open>Stepping through the virtual workspaces stays among 1 to 9, a step back undoes a step
  forward, and nine steps lead back to the start, so every one of the nine is reached.\<close>

theorem navigation_cycles:
  assumes "vw_ok v"
  shows "vw_ok (vw_next v) \<and> vw_ok (vw_prev v) \<and> vw_prev (vw_next v) = v \<and> vw_next (vw_prev v) = v \<and>
    (vw_next ^^ 9) v = v \<and> (\<forall>w. vw_ok w \<longrightarrow> (\<exists>k<9. (vw_next ^^ k) v = w))"
proof -
  have reach: "(vw_next ^^ k) v = w"
    if "vw_ok w" and "(uint (vw_number v) - 1 + int k) mod 9 = uint (vw_number w) - 1" for k w
    using vw_next_steps [OF assms, of k] that(2) by (intro vw_number_inj) simp
  have "\<exists>k<9. (vw_next ^^ k) v = w" if w: "vw_ok w" for w
  proof (intro exI conjI)
    let ?k = "nat ((uint (vw_number w) - uint (vw_number v)) mod 9)"
    show "?k < 9" by (simp add: nat_less_iff)
    have "((a :: int) - 1 + (b - a) mod 9) mod 9 = (a - 1 + (b - a)) mod 9" for a b by (rule mod_add_right_eq)
    moreover have "(uint (vw_number w) - 1) mod 9 = uint (vw_number w) - 1"
      using w by (intro mod_pos_pos_trivial) (auto simp: vw_ok_def)
    ultimately show "(vw_next ^^ ?k) v = w" by (intro reach [OF w]) simp
  qed
  moreover have "(vw_next ^^ 9) v = v"
  proof (rule reach [OF assms])
    have "(uint (vw_number v) - 1) mod 9 = uint (vw_number v) - 1"
      using assms by (intro mod_pos_pos_trivial) (auto simp: vw_ok_def)
    moreover have "(a + int 9) mod 9 = a mod 9" for a by simp
    ultimately show "(uint (vw_number v) - 1 + int 9) mod 9 = uint (vw_number v) - 1" by (simp only:)
  qed
  moreover have "vw_ok (vw_next v) \<and> vw_ok (vw_prev v) \<and> vw_prev (vw_next v) = v \<and> vw_next (vw_prev v) = v"
    using vw_ok_cases [OF assms] by (elim insertE emptyE) (simp_all add: vw_ok_def)
  ultimately show ?thesis by blast
qed

theorem navigation_cycles_witness: "vw_next (VW 9) = VW 1 \<and> vw_prev (vw_next (VW 9)) = VW 9"
proof -
  have "vw_ok (VW 9)" by (simp add: vw_ok_def)
  from navigation_cycles [OF this] show ?thesis by simp
qed

section \<open>The registry\<close>

text \<open>The registry as a map that gives every new description the next number.\<close>

definition assign_next :: "rstr \<Rightarrow> (rstr \<Rightarrow> nat option) \<Rightarrow> rstr \<Rightarrow> nat option" where
  "assign_next d m = (if m d = None then m(d \<mapsto> card (dom m)) else m)"

lemma dom_slot_for_desc: "dom (slot_for_desc es) = set es"
  using slot_for_desc_None_iff [of es] by (auto simp: dom_def)

lemma slot_for_desc_snoc:
  assumes "distinct es" and "d \<notin> set es"
  shows "slot_for_desc (es @ [d]) = assign_next d (slot_for_desc es)"
proof
  fix x
  have "card (dom (slot_for_desc es)) = length es"
    using assms(1) by (simp add: dom_slot_for_desc distinct_card)
  moreover have none: "slot_for_desc es d = None" using assms(2) by (simp add: slot_for_desc_None_iff)
  ultimately show "slot_for_desc (es @ [d]) x = assign_next d (slot_for_desc es) x"
    by (cases "slot_for_desc es x") (auto simp: assign_next_def slot_for_desc_append slot_for_desc_def [of "[d]"])
qed

lemma register_one_refines:
  "distinct es \<Longrightarrow> register_one (es, b) m = (es1, b1) \<Longrightarrow>
   distinct es1 \<and> slot_for_desc es1 = assign_next (mon_description m) (slot_for_desc es) \<and>
   (b1 \<longleftrightarrow> b \<or> es1 \<noteq> es)"
  by (auto simp: register_one_def slot_for_desc_None_iff slot_for_desc_snoc assign_next_def split: if_splits)

lemma register_fold_refines:
  "distinct es \<Longrightarrow> foldl register_one (es, b) ms = (es1, b1) \<Longrightarrow>
   distinct es1 \<and> slot_for_desc es1 = fold assign_next (map mon_description ms) (slot_for_desc es) \<and>
   (b1 \<longleftrightarrow> b \<or> es1 \<noteq> es)"
proof (induction ms arbitrary: es b)
  case Nil
  then show ?case by simp
next
  case (Cons m ms)
  obtain es2 b2 where one: "register_one (es, b) m = (es2, b2)" by force
  note r = register_one_refines [OF Cons.prems(1) one]
  with Cons.prems(2) one have rest: "foldl register_one (es2, b2) ms = (es1, b1)" by simp
  obtain new where new: "es2 = es @ new"
    using register_fold_append [of es b "[m]"] by (auto simp: one)
  obtain more where more: "es1 = es2 @ more"
    using register_fold_append [of es2 b2 ms] by (auto simp: rest)
  from Cons.IH [OF conjunct1 [OF r] rest] r new more show ?case by auto
qed

lemma register_fold_empty:
  "distinct (map mon_description ms) \<Longrightarrow> set es \<inter> mon_description ` set ms = {} \<Longrightarrow>
   fst (foldl register_one (es, b) ms) = es @ map mon_description ms"
  by (induction ms arbitrary: es b) (auto simp: register_one_def slot_for_desc_None_iff)

text \<open>C20: Registering monitors refines the numbering of descriptions in the order they are first
  seen: unless it starts empty with two monitors of one description, the registry after
  \<open>register\<close> stays free of duplicates, maps descriptions to slots as the abstract map that gives
  each new description the next number does, and reports a modification exactly when it changed.\<close>

theorem register_refines_numbering:
  assumes "distinct entries" and "entries \<noteq> [] \<or> distinct (map mon_description ms)"
  shows "distinct (fst (register entries ms)) \<and>
    slot_for_desc (fst (register entries ms)) = fold assign_next (map mon_description ms) (slot_for_desc entries) \<and>
    (snd (register entries ms) \<longleftrightarrow> fst (register entries ms) \<noteq> entries)"
proof -
  obtain es1 b1 where fold: "foldl register_one (entries, False) ms = (es1, b1)" by force
  note r = register_fold_refines [OF assms(1) fold]
  show ?thesis
  proof (cases "entries = []")
    case False
    with r show ?thesis by (simp add: register_def fold)
  next
    case True
    with assms(2) have "es1 = map mon_description ms"
      using register_fold_empty [of ms "[]" False] fold by simp
    with True r show ?thesis by (simp add: register_def)
  qed
qed

theorem register_refines_numbering_witness:
  "slot_for_desc (fst (register [str ''X''] example_monitors)) =
     fold assign_next [str ''A'', str ''B''] (slot_for_desc [str ''X''])"
  using register_refines_numbering [of "[str ''X'']" example_monitors]
  by (simp add: example_monitors_def)

text \<open>A description that has a slot keeps it through every later registration, whatever
  monitors come and go, and each monitor of the last registration has one.\<close>

theorem slots_are_stable:
  assumes "slot_for_desc entries d = Some i"
  shows "slot_for_desc (foldl (\<lambda>es ms. fst (register es ms)) entries mss) d = Some i"
proof -
  have "foldl (\<lambda>es ms. fst (register es ms)) es mss =
      foldl (\<lambda>es ds. fst (register es (map described ds))) es (map (map mon_description) mss)" for es
    by (induction mss arbitrary: es) (simp_all add: register_described [unfolded map_map])
  with slots.kept_always [OF assms] show ?thesis by simp
qed

theorem slots_are_stable_witness:
  "slot_for_desc (foldl (\<lambda>es ms. fst (register es ms)) [str ''B''] [example_monitors, []]) (str ''B'') = Some 0"
  by (rule slots_are_stable) (simp add: slot_for_desc_def)

text \<open>Two connected monitors with different ids share a slot, and with it all nine workspace
  ids, exactly when the positions of their descriptions in the registry agree modulo 256.  So
  monitors with different descriptions have different workspaces as long as the registry has at
  most 256 lines; from the 257th on the slot wraps around.\<close>

theorem slots_wrap_at_256:
  assumes "distinct (map mon_id ms)" and "m \<in> set ms" and "m' \<in> set ms"
    and "slot_for_desc entries (mon_description m) = Some i"
    and "slot_for_desc entries (mon_description m') = Some j"
    and "vw_ok v"
  shows "hyprland_id v (slot_for (layout_of entries ms) (mon_id m)) =
      hyprland_id v (slot_for (layout_of entries ms) (mon_id m')) \<longleftrightarrow> i mod 256 = j mod 256"
proof -
  have "(word_of_nat i :: 8 word) = word_of_nat j \<longleftrightarrow> i mod 256 = j mod 256"
    by (simp add: word_of_nat_eq_iff take_bit_eq_mod)
  then show ?thesis
    using layout_of_lookup [OF assms(1,2,4)] layout_of_lookup [OF assms(1,3,5)]
    by (simp add: ids.id_of_eq_iff assms(6))
qed

theorem slots_wrap_at_256_witness:
  "hyprland_id (VW 1) (slot_for (layout_of [str ''A'', str ''B''] example_monitors) 0) \<noteq>
   hyprland_id (VW 1) (slot_for (layout_of [str ''A'', str ''B''] example_monitors) 1)"
proof -
  have "vw_ok (VW 1)" by (simp add: vw_ok_def)
  from slots_wrap_at_256 [of example_monitors "example_monitors ! 0" "example_monitors ! 1"
      "[str ''A'', str ''B'']" 0 1, OF _ _ _ _ _ this]
  show ?thesis by (simp add: example_monitors_def slot_for_desc_def)
qed

text \<open>The registry file, written and read again, gives the entries without the empty ones,
  provided no description holds a line break or ends with a carriage return.  So it is read
  back exactly when no description is empty; Hyprland reports an empty description for virtual
  outputs, and then the monitors behind it change their slot at the next start.\<close>

theorem registry_file_read_back:
  assumes "\<forall>e\<in>set entries. 10 \<notin> set e \<and> (e \<noteq> [] \<longrightarrow> last e \<noteq> 13)"
  shows "registry_load (Some (registry_text entries)) = filter (\<lambda>e. e \<noteq> []) entries \<and>
    (registry_load (Some (registry_text entries)) = entries \<longleftrightarrow> [] \<notin> set entries)"
proof -
  have "filter (\<lambda>l. l \<noteq> []) (lines (join [10] es @ [10])) = filter (\<lambda>e. e \<noteq> []) es"
    if "\<forall>e\<in>set es. 10 \<notin> set e \<and> (e \<noteq> [] \<longrightarrow> last e \<noteq> 13)" for es
    using that
  proof (induction "[10::nat]" es rule: join.induct)
    case 1
    show ?case using lines_append [of "[]" "[]"] by (simp add: strip_cr_id)
  next
    case (2 x)
    then show ?case using lines_append [of x "[]"] by (simp add: strip_cr_id)
  next
    case (3 x y zs)
    then show ?case by (simp add: lines_append strip_cr_id)
  qed
  from this [OF assms] have "registry_load (Some (registry_text entries)) = filter (\<lambda>e. e \<noteq> []) entries"
    by (simp add: registry_load_def registry_text_def)
  moreover have "filter (\<lambda>e. e \<noteq> []) entries = entries \<longleftrightarrow> [] \<notin> set entries"
    by (auto simp: filter_id_conv)
  ultimately show ?thesis by simp
qed

theorem registry_file_read_back_witness:
  "slot_for_desc [[], str ''A''] (str ''A'') = Some 1 \<and>
   slot_for_desc (registry_load (Some (registry_text [[], str ''A'']))) (str ''A'') = Some 0"
  using registry_file_read_back [of "[[], str ''A'']"]
  by (simp add: slot_for_desc_def str_def)


section \<open>Texts\<close>

text \<open>C21: Every command the command line sends reaches the daemon's queue as the same command: for
  workspaces, directions, modes and switches always, for a pin or unpin when its arguments are
  words without whitespace.  And whatever a client writes, only commands with a workspace from
  1 to 9 are queued.\<close>

theorem cli_command_reaches_daemon:
  assumes "cli_run x = CliSend c \<or> cli_run x = CliSendOutput c"
    and "\<forall>ws. x = CliPin ws \<or> x = CliUnpin ws \<longrightarrow> ws \<noteq> [] \<and> (\<forall>w\<in>set ws. is_word w)"
  shows "handle_client E i (command_line c) st = st\<lparr>dm_queue := dm_queue st @ [CommandFrom i c]\<rparr> \<and>
    (\<forall>t c'. parse_command t = Inr c' \<longrightarrow> command_ok c')"
proof -
  have "command_ok c"
    using assms
    by (cases x) (auto simp: validate_workspace_def vw_new_def pattern_words_def
        split: sum.splits if_splits option.splits)
  then show ?thesis using handle_client_command parse_command_ok by blast
qed

theorem cli_command_reaches_daemon_witness:
  "cli_run (CliPin [str ''class:a'']) = CliSend (Pin (str ''class:a'')) \<and>
   dm_queue (handle_client (example_env example_world) 7 (command_line (Pin (str ''class:a'')))
     (daemon_start (example_env example_world) example_state)) =
   dm_queue (daemon_start (example_env example_world) example_state) @ [CommandFrom 7 (Pin (str ''class:a''))]"
proof -
  have "is_word (str ''class:a'')" by (rule is_word_str) (simp_all add: is_whitespace_def)
  then show ?thesis
    using cli_command_reaches_daemon [of "CliPin [str ''class:a'']" "Pin (str ''class:a'')"
        "example_env example_world" 7 "daemon_start (example_env example_world) example_state"]
    by simp
qed

text \<open>A response arrives at the client as the daemon sent it exactly when its payload is not
  empty, does not end with whitespace and holds no line break: the client reads one line and
  trims it.\<close>

theorem response_reaches_client_iff:
  "client_response (response_line r) = Inr r \<longleftrightarrow> response_ok r \<and> 10 \<notin> set (payload r)"
proof
  assume "client_response (response_line r) = Inr r"
  then have parsed: "parse_response (read_line (response_line r)) = Inr r"
    by (simp add: client_response_def)
  obtain l where l: "read_line (response_line r) = l @ [10]" "10 \<notin> set l"
  proof -
    obtain l t where "split_once 10 (response_line r) = Some (l, t)"
      by (cases "split_once 10 (response_line r)") (auto simp: split_once_None_iff response_line_def)
    with that show ?thesis by (auto simp: read_line_def dest!: split_once_SomeD)
  qed
  have "trim (l @ [10]) = trim l" by (rule trim_snoc_whitespace) (rule newline_whitespace)
  with parsed have "parse_response l = Inr r" using parse_response_trim l(1) by metis
  with parse_response_ok [of l r] l(2) show "response_ok r \<and> 10 \<notin> set (payload r)" by blast
next
  assume ok: "response_ok r \<and> 10 \<notin> set (payload r)"
  then have "read_line (response_line r) = show_response r @ [10]"
    using read_line_line [of "show_response r" "[]"] by (simp add: response_line_def payload_newline)
  moreover have "trim (show_response r @ [10]) = trim (show_response r)"
    by (rule trim_snoc_whitespace) (rule newline_whitespace)
  ultimately show "client_response (response_line r) = Inr r"
    using ok parse_show_response parse_response_trim unfolding client_response_def by metis
qed

text \<open>What \<open>hypr-workspaced pins\<close> prints: with no pins it fails, because the empty list is not
  a response its client can read, and with several it prints the first one only.\<close>

theorem pins_output_first_only:
  assumes "\<forall>p\<in>set (pinned s). 10 \<notin> set (show_pattern p) \<and> \<not> is_whitespace (last (show_pattern p))"
  shows "\<exists>r. fst (handle_command E Pins s) = Done r \<and>
    send_command_output (response_line r) = (case pins s of
        [] \<Rightarrow> Inl (InvalidCommand (str ''Invalid response: data: '' @ [10]))
      | p # _ \<Rightarrow> Inr (p @ [10]))"
proof (cases "pins s")
  case Nil
  have "trim (str ''data: '' @ [10]) = str ''data:''"
  proof -
    have "trim ((str ''data:'' @ [32]) @ [10]) = str ''data:''"
      by (simp only: trim_snoc_whitespace newline_whitespace)
        (subst trim_snoc_whitespace, simp add: is_whitespace_def, rule trim_no_whitespace,
          auto simp: str_def is_whitespace_def)
    then show ?thesis by (simp add: str_def)
  qed
  then have "parse_response (str ''data: '' @ [10]) = Inl (InvalidCommand (str ''Invalid response: data: '' @ [10]))"
    by (simp add: parse_response_def Let_def) (simp add: str_def strip_prefix_def starts_with_def)
  moreover have "read_line (str ''data: '' @ [10]) = str ''data: '' @ [10]"
    by (rule read_line_line) (simp add: str_def)
  ultimately show ?thesis
    by (simp add: Nil gets_def response_line_def send_command_output_def client_response_def)
next
  case (Cons p ps)
  obtain q where q: "q \<in> set (pinned s)" "p = show_pattern q"
    using Cons by (cases "pinned s") (auto simp: pins_def intro: that)
  have p: "10 \<notin> set p" "\<not> is_whitespace (last p)" "p \<noteq> []"
    using assms q by (auto, cases q, simp_all add: str_def)
  let ?r = "RespData p"
  obtain t where "response_line (RespData (join [10] (p # ps))) = show_response ?r @ 10 # t"
    by (cases ps) (auto simp: response_line_def)
  moreover have "read_line (show_response ?r @ 10 # t) = show_response ?r @ [10]"
    by (rule read_line_line) (simp add: payload_newline p(1) str_def)
  moreover have "parse_response (show_response ?r @ [10]) = Inr ?r"
    using parse_response_trim [OF trim_snoc_whitespace [OF newline_whitespace]] parse_show_response [of ?r] p
    by (simp del: show_response.simps)
  ultimately have "client_response (response_line (RespData (join [10] (p # ps)))) = Inr ?r"
    by (simp only: client_response_def)
  then show ?thesis by (simp add: Cons gets_def send_command_output_def)
qed

theorem pins_output_first_only_witness:
  "send_command_output (response_line (RespData (join [10] [str ''class:a'', str ''class:b'']))) =
     Inr (str ''class:a'' @ [10])"
proof -
  let ?s = "example_state\<lparr>pinned := [PClass (str ''a''), PClass (str ''b'')]\<rparr>"
  have "\<forall>p\<in>set (pinned ?s). 10 \<notin> set (show_pattern p) \<and> \<not> is_whitespace (last (show_pattern p))"
    by (simp add: str_def is_whitespace_def)
  from pins_output_first_only [OF this, of "example_env example_world"] show ?thesis
    by (simp add: gets_def pins_def str_def)
qed

text \<open>C22: No value can break out of the Lua literal it is put into: whatever follows it, Lua reads
  the literal of \<open>lua_string\<close> back as the value and goes on behind it.  And the text of a request
  determines the request, so no monitor name or window address makes one command look like
  another.\<close>

theorem lua_literals_are_safe:
  "(\<exists>body. lua_string v @ rest = 34 # body \<and> lua_read body = Some (v, rest)) \<and>
   (request_text r = request_text q \<longleftrightarrow> r = q)"
  using lua_read_body [of v rest] request_text_inj by (simp add: lua_string_def)

section \<open>What the operations do\<close>

text \<open>C15: When Hyprland answers and the focused monitor has a neighbour in the given direction, a
  swap succeeds and its requests exchange the windows of the current virtual workspace on the
  two monitors and leave every other window where it was; no window stays in the buffer.\<close>

theorem swap_exchanges_windows:
  assumes "answers E w" and "2 \<le> length (w_monitors w)" and "find mon_focused (w_monitors w) = Some f"
    and "position (\<lambda>m. mon_id m = mon_id f) (sort_key mon_x (w_monitors w)) = Some i"
    and "swap_target d i (length (w_monitors w)) = Some j"
    and "vw_from_id (mon_active f) = Some v"
    and "distinct (map cl_address (w_clients w))"
    and "\<forall>c\<in>set (w_clients w). p (cl_address c) = cl_workspace c"
  shows "\<exists>t rs. swap_monitor E d s = (Done (), t) \<and> sent t = sent s @ rs \<and>
    (let a = hyprland_id v (slot_for (layout s) (mon_id f));
         b = hyprland_id v (slot_for (layout s) (mon_id (sort_key mon_x (w_monitors w) ! j))) in
     \<forall>c\<in>set (w_clients w). place rs p (cl_address c) =
       (if cl_workspace c = a then b else if cl_workspace c = b then a else cl_workspace c))"
  using doesD [OF does_swap_monitor [OF assms(1-6), of s]] place_swap [OF assms(7,8)]
  by (auto simp: slot_of_monitor_def Let_def)

theorem swap_exchanges_windows_witness:
  "\<exists>t. swap_monitor (example_env example_world) Next example_state = (Done (), t) \<and>
     place (sent t) (\<lambda>a. if a = str ''0x1'' then 3 else if a = str ''0x2'' then 13 else 5) (str ''0x1'') = 13 \<and>
     place (sent t) (\<lambda>a. if a = str ''0x1'' then 3 else if a = str ''0x2'' then 13 else 5) (str ''0x3'') = 5"
proof -
  let ?p = "\<lambda>a. if a = str ''0x1'' then 3 else if a = str ''0x2'' then 13 else (5 :: int)"
  have order: "sort_key mon_x example_monitors = example_monitors"
    by (simp add: example_monitors_def)
  have pos: "position (\<lambda>m. mon_id m = mon_id (example_monitors ! 0)) example_monitors = Some 0"
    by (simp add: example_monitors_def)
  have v: "vw_from_id 3 = Some (VW 3)" by (simp add: vw_from_id_def)
  have w: "\<forall>c\<in>set (w_clients example_world). ?p (cl_address c) = cl_workspace c"
      "distinct (map cl_address (w_clients example_world))"
    by (simp_all add: example_world_def example_client_def)
  have m: "length example_monitors = 2" "find mon_focused example_monitors = Some (example_monitors ! 0)"
      "mon_active (example_monitors ! 0) = 3" "mon_id (example_monitors ! 0) = 0"
      "mon_id (example_monitors ! Suc 0) = 1" "w_monitors example_world = example_monitors"
    by (simp_all add: example_monitors_def example_world_def)
  have l: "slot_for (layout example_state) 0 = Slot 0" "slot_for (layout example_state) 1 = Slot 1"
    by (simp_all add: slot_for_def example_state_def)
  obtain t rs where "swap_monitor (example_env example_world) Next example_state = (Done (), t)"
      "sent t = sent example_state @ rs"
      "\<forall>c\<in>set (w_clients example_world). place rs ?p (cl_address c) =
         (if cl_workspace c = 3 then 13 else if cl_workspace c = 13 then 3 else cl_workspace c)"
    using swap_exchanges_windows [OF example_answers, of example_world "example_monitors ! 0" 0 Next 1 "VW 3" ?p
        example_state] w pos
    by (auto simp: order v m l swap_target_def Let_def)
  moreover have "sent example_state = []" by (simp add: sent_def example_state_def List.map_filter_def)
  ultimately show ?thesis by (simp add: example_world_def example_client_def)
qed




text \<open>C17: Whatever Hyprland answers, and wherever it fails, a synchronisation triggered by a
  workspace names in its requests only workspaces of the same virtual workspace, and changes
  neither the layout nor the pins.\<close>

theorem sync_stays_in_virtual_workspace:
  assumes "vw_from_id trigger = Some v" and "sync_monitors E trigger s = (r, t)"
  shows "\<exists>new. sent t = sent s @ new \<and> layout t = layout s \<and> pinned t = pinned s \<and>
    (\<forall>q\<in>set new. \<forall>i. request_workspace q = Some i \<longrightarrow> vw_from_id i = Some v)"
  using keepsD [OF keeps_sync_monitors [OF assms(1)] only_start assms(2)]
  by (auto simp: only_def stays_in_def)

theorem sync_stays_in_virtual_workspace_witness:
  "\<exists>new. sent (snd (sync_monitors (example_env example_world) 3 example_state)) = sent example_state @ new \<and>
     FocusWorkspace 4 \<notin> set new"
proof -
  obtain r t where rt: "sync_monitors (example_env example_world) 3 example_state = (r, t)" by force
  have "vw_from_id 3 = Some (VW 3)" and "vw_from_id 4 = Some (VW 4)" by (simp_all add: vw_from_id_def)
  with sync_stays_in_virtual_workspace [OF _ rt, of "VW 3"] rt show ?thesis by force
qed

text \<open>When Hyprland answers, collapsing all windows moves exactly those of the current virtual
  workspace that are on another of its workspaces to the current workspace, and collapsing the
  invisible ones moves exactly those on a positive workspace that is a multiple of 10 or whose
  slot number is not below the number of connected monitors.\<close>

theorem collapse_moves_exactly:
  assumes "answers E w" and "vw_from_id (ws_id (w_active w)) = Some v"
  shows "\<exists>t. collapse E mode s = (Done (), t) \<and>
    sent t = sent s @ map (\<lambda>c. MoveWindow (cl_address c) (ws_id (w_active w)))
      (filter (\<lambda>c. case mode of
           All \<Rightarrow> 0 < cl_workspace c \<and> cl_workspace c mod 10 = ws_id (w_active w) mod 10 \<and>
                  cl_workspace c \<noteq> ws_id (w_active w)
         | Invisible \<Rightarrow> 0 < cl_workspace c \<and> (cl_workspace c mod 10 = 0 \<or>
                  int (length (w_monitors w)) \<le> cl_workspace c div 10 mod 256)) (w_clients w))"
proof -
  have valid: "is_valid_workspace i n \<longleftrightarrow> i mod 10 \<noteq> 0 \<and> i div 10 mod 256 < int n" if "0 < i" for i n
  proof -
    have "uint (slot_index (slot_from_id i)) = i div 10 mod 256"
      using that by (cases "i < 10") (simp_all add: slot_from_id_def uint_byte_mod)
    then have "unat (slot_index (slot_from_id i)) < n \<longleftrightarrow> i div 10 mod 256 < int n"
      by (subst of_nat_less_iff [symmetric, where 'a = int]) simp
    then show ?thesis using that by (auto simp: is_valid_workspace_def vw_from_id_def)
  qed
  have same: "(case vw_from_id i of Some w \<Rightarrow> w = v \<and> i \<noteq> a | None \<Rightarrow> False) \<longleftrightarrow> i mod 10 = a mod 10 \<and> i \<noteq> a"
    if "0 < i" and "vw_from_id a = Some v" for i a
  proof -
    have a: "a mod 10 \<noteq> 0" "uint (vw_number v) = a mod 10"
      using that(2) vw_from_id_uint [of a v] by (auto simp: vw_from_id_def split: if_splits)
    show ?thesis
    proof (cases "vw_from_id i")
      case None
      with that(1) a show ?thesis by (auto simp: vw_from_id_def split: if_splits)
    next
      case (Some u)
      with vw_from_id_uint [OF Some] a vw_number_inj [of u v] show ?thesis by auto
    qed
  qed
  have "(0 < i \<and> should_move mode v (ws_id (w_active w)) (length (w_monitors w)) i) =
      (case mode of
           All \<Rightarrow> 0 < i \<and> i mod 10 = ws_id (w_active w) mod 10 \<and> i \<noteq> ws_id (w_active w)
         | Invisible \<Rightarrow> 0 < i \<and> (i mod 10 = 0 \<or> int (length (w_monitors w)) \<le> i div 10 mod 256))" for i
    using valid [of i] same [OF _ assms(2), of i]
    by (cases mode) (auto simp: should_move_def not_less)
  with doesD [OF does_collapse [OF assms, of s mode]] show ?thesis by auto
qed

theorem collapse_moves_exactly_witness:
  "\<exists>t. collapse (example_env example_world) All example_state = (Done (), t) \<and>
     sent t = sent example_state @ [MoveWindow (str ''0x2'') 3]"
proof -
  have "vw_from_id (ws_id (w_active example_world)) = Some (VW 3)"
    by (simp add: vw_from_id_def example_world_def)
  from collapse_moves_exactly [OF example_answers this, of All example_state] show ?thesis
    by (simp add: example_world_def example_client_def)
qed

text \<open>Collapsing the invisible windows also moves windows that a connected monitor can show: the
  slot of a monitor is its line in the registry, which counts monitors that are not connected,
  so every window on a workspace of a connected monitor whose slot is not below the number of
  connected monitors is moved to the current workspace.\<close>

theorem collapse_invisible_moves_shown_windows:
  assumes "answers E w" and "vw_from_id (ws_id (w_active w)) = Some v"
    and "m \<in> set (w_monitors w)" and "c \<in> set (w_clients w)" and "vw_ok u"
    and "cl_workspace c = hyprland_id u (slot_for (layout s) (mon_id m))"
    and "length (w_monitors w) \<le> unat (slot_index (slot_for (layout s) (mon_id m)))"
  shows "\<exists>t new. collapse E Invisible s = (Done (), t) \<and> sent t = sent s @ new \<and>
    MoveWindow (cl_address c) (ws_id (w_active w)) \<in> set new"
proof -
  have "0 < cl_workspace c" using hyprland_id_pos [OF assms(5)] by (simp add: assms(6))
  moreover have "\<not> is_valid_workspace (cl_workspace c) (length (w_monitors w))"
    using assms(7) by (simp add: is_valid_workspace_def assms(6) ids.slot_of_id [OF assms(5)] ids.vw_of_id [OF assms(5)])
  ultimately show ?thesis
    using doesD [OF does_collapse [OF assms(1,2), of s Invisible]] assms(4)
    by (auto simp: should_move_def)
qed

theorem collapse_invisible_moves_shown_windows_witness:
  "\<exists>t new. collapse (example_env (example_world\<lparr>w_monitors := [example_monitors ! 1]\<rparr>)) Invisible example_state = (Done (), t) \<and>
     sent t = sent example_state @ new \<and> MoveWindow (str ''0x2'') 3 \<in> set new"
proof -
  let ?w = "example_world\<lparr>w_monitors := [example_monitors ! 1]\<rparr>"
  have "vw_from_id (ws_id (w_active ?w)) = Some (VW 3)"
    by (simp add: vw_from_id_def example_world_def)
  moreover have "vw_ok (VW 3)" by (simp add: vw_ok_def)
  ultimately show ?thesis
    using collapse_invisible_moves_shown_windows [OF example_answers, of ?w "VW 3" "example_monitors ! 1"
        "example_client (str ''0x2'') 13" "VW 3" example_state]
    by (simp add: example_world_def example_client_def example_monitors_def slot_for_def example_state_def)
qed


section \<open>The loop\<close>

lemma on_event_rest:
  "dm_sync (on_event E e st) = dm_sync st" "dm_changed (on_event E e st) = dm_changed st"
  "dm_last_generation (on_event E e st) = dm_last_generation st"
  "dm_changes (on_event E e st) = dm_changes st" "dm_queue (on_event E e st) = dm_queue st"
  "dm_last_vspace (on_event E e st) \<in> {dm_last_vspace st, None}"
  by (auto simp: on_event_def reply_def split: loop_event.splits prod.splits outcome.splits)

lemma pins_after:
  assumes "pins_ok (pinned s)"
  shows "handle_command E c s = (r, t) \<Longrightarrow> pins_ok (pinned t)"
    and "attempt (assign_workspaces E) s = (r1, t) \<Longrightarrow> pins_ok (pinned t)"
    and "ignore (assign_workspaces E) s = (r2, t) \<Longrightarrow> pins_ok (pinned t)"
    and "sync_monitors E i s = (r2, t) \<Longrightarrow> pins_ok (pinned t)"
    and "pins_ok (pinned (snd (ignore (prime_focus E) s)))"
  using assms keepsD [OF keeps_pins_command] keepsD [OF keeps_attempt [OF keeps_pins_assign]]
    keepsD [OF keeps_ignore [OF keeps_pins_assign]] keepsD [OF keeps_pins_sync]
    keeps_ignore [OF keeps_pins_prime, unfolded keeps_def]
  by blast+

lemma on_event_pins:
  "pins_ok (pinned (dm_manager st)) \<Longrightarrow> pins_ok (pinned (dm_manager (on_event E e st)))"
  by (auto simp: on_event_def reply_def intro: pins_after split: loop_event.splits prod.splits outcome.splits)

lemma on_sync_rest:
  "dm_sync (on_sync E st) = dm_sync st" "\<not> dm_changed (on_sync E st)"
  "dm_last_generation (on_sync E st) = max (dm_last_generation st) (snd (dm_sync st))"
  "dm_changes (on_sync E st) = dm_changes st" "dm_queue (on_sync E st) = dm_queue st"
  "dm_last_vspace (on_sync E st) \<in> {dm_last_vspace st, vw_from_id (fst (dm_sync st))}"
  by (auto simp: on_sync_def Let_def max_def split: prod.splits outcome.splits option.splits)

lemma on_sync_pins:
  "pins_ok (pinned (dm_manager st)) \<Longrightarrow> pins_ok (pinned (dm_manager (on_sync E st)))"
  by (auto simp: on_sync_def Let_def intro: pins_after split: prod.splits outcome.splits option.splits)

definition daemon_inv :: "daemon_state \<Rightarrow> bool" where
  "daemon_inv st \<longleftrightarrow>
     pins_ok (pinned (dm_manager st)) \<and>
     (\<forall>i c. CommandFrom i c \<in> set (dm_queue st) \<longrightarrow> command_ok c) \<and>
     (\<forall>v. dm_last_vspace st = Some v \<longrightarrow> vw_ok v) \<and>
     (dm_changes st < 2 ^ 64 \<longrightarrow>
        unat (snd (dm_sync st)) = dm_changes st \<and> dm_last_generation st \<le> snd (dm_sync st) \<and>
        (\<not> dm_changed st \<longrightarrow> dm_last_generation st = snd (dm_sync st)))"

lemma daemon_inv_step: "daemon_step E st st' \<Longrightarrow> daemon_inv st \<Longrightarrow> daemon_inv st'"
proof (induction rule: daemon_step.induct)
  case (client st i written)
  then show ?case
    using parse_command_ok by (auto simp: daemon_inv_def handle_client_def reply_def split: sum.splits)
next
  case (monitor st)
  then show ?case by (auto simp: daemon_inv_def)
next
  case (changed st i)
  have incr: "unat (g + 1) = Suc (unat g) \<and> g \<le> g + 1" if "Suc (unat g) < 2 ^ 64" for g :: "64 word"
  proof -
    have "unat (g + 1) = Suc (unat g)" using that by (simp add: unat_word_ariths)
    then show ?thesis by (simp add: word_le_nat_alt)
  qed
  from changed show ?case
    using incr [of "snd (dm_sync st)"] by (auto simp: daemon_inv_def workspace_changed_def)
next
  case (event st e q)
  let ?st = "st\<lparr>dm_queue := q\<rparr>"
  have "dm_last_vspace (on_event E e ?st) \<in> {dm_last_vspace ?st, None}"
    and "pins_ok (pinned (dm_manager (on_event E e ?st)))"
    using event on_event_pins [of ?st E e] by (simp_all only: on_event_rest) (simp add: daemon_inv_def)
  with event show ?case by (auto simp: daemon_inv_def on_event_rest(1-5))
next
  case (sync st)
  have "dm_last_vspace (on_sync E st) \<in> {dm_last_vspace st, vw_from_id (fst (dm_sync st))}"
    and "pins_ok (pinned (dm_manager (on_sync E st)))"
    using sync on_sync_pins [of st E] by (simp_all only: on_sync_rest) (simp add: daemon_inv_def)
  with sync show ?case by (auto simp: daemon_inv_def on_sync_rest(1-5) max_def dest: vw_from_id_ok)
qed

lemma daemon_inv_start: "pins_ok (pinned s) \<Longrightarrow> daemon_inv (daemon_start E s)"
  by (auto simp: daemon_inv_def daemon_start_def intro!: pins_after(5) intro: pins_after(3)
      split: prod.splits outcome.splits)

lemma daemon_inv_reachable: "daemon_reachable E s st \<Longrightarrow> pins_ok (pinned s) \<Longrightarrow> daemon_inv st"
  by (induction rule: daemon_reachable.induct) (auto intro: daemon_inv_start daemon_inv_step)



text \<open>C18: The daemon does not react to its own switches: after a synchronisation of workspace \<open>i\<close>
  succeeded, every workspace it focused while synchronising belongs to the virtual workspace it
  remembers, and a change to any such workspace sends nothing to Hyprland.\<close>

theorem sync_has_no_feedback:
  assumes "vw_from_id i = Some v" and "dm_last_generation st < snd (dm_sync st)" and "fst (dm_sync st) = i"
    and "dm_last_vspace st \<noteq> Some v" and "sync_monitors E i (dm_manager st) = (Done (), t)"
  shows "\<exists>new. sent t = sent (dm_manager st) @ new \<and> dm_manager (on_sync E st) = t \<and>
    (\<forall>j. FocusWorkspace j \<in> set new \<longrightarrow>
       dm_manager (on_sync E (workspace_changed j (on_sync E st))) = t)"
proof -
  have after: "dm_manager (on_sync E st) = t" "dm_last_vspace (on_sync E st) = Some v"
    using assms by (cases "dm_sync st"; simp add: on_sync_def Let_def not_le)+
  obtain new where new: "sent t = sent (dm_manager st) @ new"
      "\<forall>r\<in>set new. stays_in v r"
    using keepsD [OF keeps_sync_monitors [OF assms(1)] only_start assms(5)] by (auto simp: only_def)
  have "dm_manager (on_sync E (workspace_changed j st')) = dm_manager st'"
    if "dm_last_vspace st' = Some v" and "vw_from_id j = Some v" for j st'
    using that by (simp add: on_sync_def workspace_changed_def Let_def)
  with after new show ?thesis by (auto simp: stays_in_def)
qed


theorem sync_has_no_feedback_witness:
  "\<exists>t. sync_monitors (example_env example_world) 3 example_state = (Done (), t) \<and>
     (FocusWorkspace 13 \<in> set (sent t) \<longrightarrow>
       dm_manager (on_sync (example_env example_world) (workspace_changed 13
         (on_sync (example_env example_world)
           ((daemon_start (example_env example_world) example_state)\<lparr>dm_manager := example_state, dm_sync := (3, 1)\<rparr>)))) = t)"
proof -
  let ?E = "example_env example_world"
  let ?st = "(daemon_start ?E example_state)\<lparr>dm_manager := example_state, dm_sync := (3, 1)\<rparr>"
  have v: "vw_from_id 3 = Some (VW 3)" by (simp add: vw_from_id_def)
  have "1 < length (w_monitors example_world)" by (simp add: example_world_def example_monitors_def)
  with does_sync_monitors [OF example_answers v] obtain rs where
    "does example_state (sync_monitors ?E 3) () rs" by blast
  from doesD [OF this] obtain t where t: "sync_monitors ?E 3 example_state = (Done (), t)" by blast
  have "dm_last_generation ?st < snd (dm_sync ?st)" "fst (dm_sync ?st) = 3" "dm_last_vspace ?st \<noteq> Some (VW 3)"
    by (simp_all add: daemon_start_def split: prod.splits)
  from sync_has_no_feedback [OF v this, of ?E t] t show ?thesis
    by (auto simp: sent_def example_state_def List.map_filter_def)
qed

end
