(* ===== verification/Oidc.thy ===== *)
theory Oidc
  imports Rust_Bytes
begin

text \<open>
  oidc-credential-validator, \<open>packages/oidc-credential-validator/src/main.rs\<close>: the validator
  that proves OIDC client credentials good, bad or undecidable.

  The HTTP client is the environment: it answers a GET by its URL and a POST by the whole
  request, with a transport error or a status and a body (or the error of reading it), and is
  asked with the number of requests made before, so the same request may be answered
  differently.  The state is the list of requests made, newest first.  The JSON parser is a
  function from a text to an error or a \<open>json\<close> value; of an object only \<open>get\<close> is used.
  A \<open>return\<close> of a verdict from the middle of a function is a failure of the program that
  carries it.
\<close>

section \<open>Data\<close>

datatype json =
    JNull | JBool bool | JNumber rstr | JString rstr | JArray "json list" | JObject "(rstr \<times> json) list"

datatype oidc_verdict = OValid message | OInvalid message | OError message

record oidc_args =
  o_issuer :: rstr
  o_client_id_field :: rstr
  o_client_secret_field :: rstr
  o_scope :: "rstr option"
  o_timeout :: nat
  o_allow_insecure_http :: bool

datatype auth_method = Basic | Post

record http_post =
  post_url :: rstr
  post_form :: "(rstr \<times> rstr) list"
  post_authorization :: "rstr option"

datatype http_call = GetCall rstr | PostCall http_post

record http_env =
  http_get :: "nat \<Rightarrow> rstr \<Rightarrow> message + nat \<times> (message + rstr)"
  http_post :: "nat \<Rightarrow> http_post \<Rightarrow> message + nat \<times> (message + rstr)"
  parse_json :: "rstr \<Rightarrow> message + json"

type_synonym 'a oidc = "(http_call list, oidc_verdict, 'a) prog"

fun json_get :: "rstr \<Rightarrow> json \<Rightarrow> json option" where
  "json_get k (JObject fs) = map_of fs k"
| "json_get k _ = None"

fun as_str :: "json \<Rightarrow> rstr option" where
  "as_str (JString s) = Some s"
| "as_str _ = None"

fun as_bool :: "json \<Rightarrow> bool option" where
  "as_bool (JBool b) = Some b"
| "as_bool _ = None"

fun as_array :: "json \<Rightarrow> json list option" where
  "as_array (JArray xs) = Some xs"
| "as_array _ = None"

definition json_ok :: "http_env \<Rightarrow> rstr \<Rightarrow> json option" where
  "json_ok E body = (case parse_json E body of Inl _ \<Rightarrow> None | Inr v \<Rightarrow> Some v)"

section \<open>The command line\<close>

datatype args_result = Args oidc_args | Usage | BadArgs message

text \<open>\<open>parse_args\<close> on the arguments behind the program name, with the values read so far.\<close>

fun parse_args :: "rstr option \<Rightarrow> oidc_args \<Rightarrow> rstr list \<Rightarrow> args_result" where
  "parse_args issuer a [] = (case issuer of
      None \<Rightarrow> BadArgs (lit ''--issuer is required'')
    | Some i \<Rightarrow> Args (a\<lparr>o_issuer := i\<rparr>))"
| "parse_args issuer a (arg # argv) =
     (if arg = str ''--issuer'' then
        (case argv of [] \<Rightarrow> BadArgs (lit ''--issuer needs a value'') | v # r \<Rightarrow> parse_args (Some v) a r)
      else if arg = str ''--client-id-field'' then
        (case argv of [] \<Rightarrow> BadArgs (lit ''--client-id-field needs a value'')
         | v # r \<Rightarrow> parse_args issuer (a\<lparr>o_client_id_field := v\<rparr>) r)
      else if arg = str ''--client-secret-field'' then
        (case argv of [] \<Rightarrow> BadArgs (lit ''--client-secret-field needs a value'')
         | v # r \<Rightarrow> parse_args issuer (a\<lparr>o_client_secret_field := v\<rparr>) r)
      else if arg = str ''--scope'' then
        (case argv of [] \<Rightarrow> BadArgs (lit ''--scope needs a value'')
         | v # r \<Rightarrow> parse_args issuer (a\<lparr>o_scope := Some v\<rparr>) r)
      else if arg = str ''--timeout-secs'' then
        (case argv of [] \<Rightarrow> BadArgs (lit ''--timeout-secs needs a value'')
         | v # r \<Rightarrow> (case parse_uint (2 ^ 64 - 1) v of
              None \<Rightarrow> BadArgs (Fmt ''--timeout-secs {:?} is not a number'' [Dbg v])
            | Some n \<Rightarrow> parse_args issuer (a\<lparr>o_timeout := n\<rparr>) r))
      else if arg = str ''--allow-insecure-http'' then parse_args issuer (a\<lparr>o_allow_insecure_http := True\<rparr>) argv
      else if arg = str ''-h'' \<or> arg = str ''--help'' then Usage
      else BadArgs (Fmt ''unknown argument {:?}'' [Dbg arg]))"

definition default_args :: oidc_args where
  "default_args = \<lparr>o_issuer = [], o_client_id_field = str ''CLIENT_ID'',
     o_client_secret_field = str ''CLIENT_SECRET'', o_scope = None, o_timeout = 15,
     o_allow_insecure_http = False\<rparr>"

section \<open>Requests\<close>

definition get_call :: "http_env \<Rightarrow> rstr \<Rightarrow> (message + nat \<times> (message + rstr)) oidc" where
  "get_call E url = (\<lambda>cs. (Done (http_get E (length cs) url), GetCall url # cs))"

definition send_form :: "http_env \<Rightarrow> http_post \<Rightarrow> (message + nat \<times> (message + rstr)) oidc" where
  "send_form E p = (\<lambda>cs. (Done (http_post E (length cs) p), PostCall p # cs))"

definition basic_credentials :: "rstr \<Rightarrow> rstr \<Rightarrow> rstr" where
  "basic_credentials client_id client_secret =
     str ''Basic '' @ base64 (utf8 (form_urlencode client_id @ ch CHR '':'' # form_urlencode client_secret))"

definition success :: "nat \<Rightarrow> bool" where
  "success status \<longleftrightarrow> 200 \<le> status \<and> status < 300"

definition body_text :: "message + rstr \<Rightarrow> rstr" where
  "body_text b = (case b of Inl _ \<Rightarrow> [] | Inr t \<Rightarrow> t)"

definition oauth_error :: "http_env \<Rightarrow> rstr \<Rightarrow> rstr option" where
  "oauth_error E body = (case json_ok E body of
      None \<Rightarrow> None
    | Some v \<Rightarrow> (case json_get (str ''error'') v of None \<Rightarrow> None | Some e \<Rightarrow> as_str e))"

definition error_described :: "nat \<Rightarrow> rstr option \<Rightarrow> message" where
  "error_described status err = (case err of Some e \<Rightarrow> Str e | None \<Rightarrow> Fmt ''HTTP {}'' [Num status])"

definition classify_introspection :: "http_env \<Rightarrow> nat \<Rightarrow> rstr \<Rightarrow> oidc_verdict" where
  "classify_introspection E status body =
     (if success status then
        (case (case json_ok E body of None \<Rightarrow> None
               | Some v \<Rightarrow> (case json_get (str ''active'') v of None \<Rightarrow> None | Some a \<Rightarrow> as_bool a)) of
           Some _ \<Rightarrow> OValid (lit ''introspection endpoint authenticated the client (RFC 7662 probe)'')
         | None \<Rightarrow> OError (Fmt ''introspection endpoint answered HTTP {} without an `active` field; cannot decide''
                     [Num status]))
      else if 500 \<le> status \<or> status = 429 then
        OError (Fmt ''introspection endpoint returned HTTP {}; cannot decide'' [Num status])
      else
        (let err = oauth_error E body; d = error_described status err in
         if err = Some (str ''invalid_client'') \<or> err = None \<and> (status = 401 \<or> status = 403)
         then OInvalid (Fmt ''introspection endpoint rejected the credentials ({})'' [d])
         else OError (Fmt ''introspection endpoint answered HTTP {} ({}); cannot decide'' [Num status, d])))"

definition introspection_post :: "rstr \<Rightarrow> rstr \<Rightarrow> rstr \<Rightarrow> auth_method \<Rightarrow> http_post" where
  "introspection_post endpoint client_id client_secret method =
     \<lparr>post_url = endpoint,
      post_form = (str ''token'', str ''operator-secrets-liveness-probe'') #
        (if method = Post then [(str ''client_id'', client_id), (str ''client_secret'', client_secret)] else []),
      post_authorization = (if method = Basic then Some (basic_credentials client_id client_secret) else None)\<rparr>"

definition introspection_request :: "http_env \<Rightarrow> rstr \<Rightarrow> rstr \<Rightarrow> rstr \<Rightarrow> auth_method \<Rightarrow> oidc_verdict oidc" where
  "introspection_request E endpoint client_id client_secret method =
     bnd (send_form E (introspection_post endpoint client_id client_secret method)) (\<lambda>r. case r of
       Inr (status, body) \<Rightarrow> ret (classify_introspection E status (body_text body))
     | Inl e \<Rightarrow> ret (OError (Fmt ''introspection request to {}: {}'' [Str endpoint, e])))"

definition refused_grants :: "rstr list" where
  "refused_grants = [str ''unsupported_grant_type'', str ''unauthorized_client'', str ''invalid_scope'',
     str ''invalid_grant'', str ''invalid_request'']"

definition classify_token :: "http_env \<Rightarrow> nat \<Rightarrow> rstr \<Rightarrow> oidc_verdict" where
  "classify_token E status body =
     (if success status then
        OValid (Fmt ''token endpoint accepted the credentials (HTTP {})'' [Num status])
      else if 500 \<le> status \<or> status = 429 then
        OError (Fmt ''token endpoint returned HTTP {}; cannot decide'' [Num status])
      else
        (let err = oauth_error E body; d = error_described status err in
         if err = Some (str ''invalid_client'')
         then OInvalid (Fmt ''token endpoint rejected the credentials ({})'' [d])
         else if err \<in> set (map Some refused_grants)
         then OError (Fmt ''token endpoint refused the client_credentials grant ({}) without judging the credentials - this client cannot be validated this way; enable the client_credentials grant for it, or use a different validator'' [d])
         else if err = None \<and> (status = 401 \<or> status = 403)
         then OInvalid (Fmt ''token endpoint rejected the credentials ({})'' [d])
         else OError (Fmt ''token endpoint answered HTTP {} ({}); cannot decide'' [Num status, d])))"

definition token_post :: "oidc_args \<Rightarrow> rstr \<Rightarrow> rstr \<Rightarrow> rstr \<Rightarrow> auth_method \<Rightarrow> http_post" where
  "token_post a endpoint client_id client_secret method =
     \<lparr>post_url = endpoint,
      post_form = (str ''grant_type'', str ''client_credentials'') #
        (case o_scope a of Some s \<Rightarrow> [(str ''scope'', s)] | None \<Rightarrow> []) @
        [(str ''client_id'', client_id)] @
        (if method = Post then [(str ''client_secret'', client_secret)] else []),
      post_authorization = (if method = Basic then Some (basic_credentials client_id client_secret) else None)\<rparr>"

definition token_request :: "http_env \<Rightarrow> oidc_args \<Rightarrow> rstr \<Rightarrow> rstr \<Rightarrow> rstr \<Rightarrow> auth_method \<Rightarrow> oidc_verdict oidc" where
  "token_request E a endpoint client_id client_secret method =
     bnd (send_form E (token_post a endpoint client_id client_secret method)) (\<lambda>r. case r of
       Inr (status, body) \<Rightarrow> ret (classify_token E status (body_text body))
     | Inl e \<Rightarrow> ret (OError (Fmt ''token request to {}: {}'' [Str endpoint, e])))"

section \<open>The check\<close>

fun try_methods :: "auth_method list \<Rightarrow> (auth_method \<Rightarrow> oidc_verdict oidc) \<Rightarrow> message option \<Rightarrow> oidc_verdict oidc" where
  "try_methods [] req last_invalid =
     ret (OInvalid (case last_invalid of Some m \<Rightarrow> m | None \<Rightarrow> lit ''credentials rejected''))"
| "try_methods (m # ms) req last_invalid =
     bnd (req m) (\<lambda>v. case v of
       OInvalid e \<Rightarrow> try_methods ms req (Some e)
     | other \<Rightarrow> ret other)"

definition negotiated_methods :: "json \<Rightarrow> string \<Rightarrow> message + auth_method list" where
  "negotiated_methods doc key =
     (let supported = (case json_get (str key) doc of
            Some v \<Rightarrow> (case as_array v of Some xs \<Rightarrow> List.map_filter as_str xs | None \<Rightarrow> [])
          | None \<Rightarrow> []);
          methods = (if str ''client_secret_basic'' \<in> set supported then [Basic] else []) @
                    (if str ''client_secret_post'' \<in> set supported then [Post] else []) in
      if supported = [] then Inr [Basic, Post]
      else if methods = [] then
        Inl (Fmt ''{} lists none of client_secret_basic/client_secret_post (advertises {:?})''
               (Str (str key) # map Dbg supported))
      else Inr methods)"

definition trim_end_slashes :: "rstr \<Rightarrow> rstr" where
  "trim_end_slashes s = rev (dropWhile (\<lambda>c. c = ch CHR ''/'') (rev s))"

definition may_send_to :: "oidc_args \<Rightarrow> rstr \<Rightarrow> bool" where
  "may_send_to a url \<longleftrightarrow> starts_with url (str ''https://'') \<or> o_allow_insecure_http a"

definition discover :: "http_env \<Rightarrow> rstr \<Rightarrow> json oidc" where
  "discover E url =
     bnd (get_call E url) (\<lambda>r. case r of
       Inl e \<Rightarrow> fail (OError (Fmt ''fetching {}: {}'' [Str url, e]))
     | Inr (status, body) \<Rightarrow>
         if \<not> success status then fail (OError (Fmt ''{} returned HTTP {}'' [Str url, Num status]))
         else (case body of
           Inl e \<Rightarrow> fail (OError (Fmt ''reading {}: {}'' [Str url, e]))
         | Inr t \<Rightarrow> (case parse_json E t of
             Inl e \<Rightarrow> fail (OError (Fmt ''{} is not JSON: {}'' [Str url, e]))
           | Inr v \<Rightarrow> ret v)))"

definition endpoint_of :: "json \<Rightarrow> string \<Rightarrow> rstr option" where
  "endpoint_of doc key = (case json_get (str key) doc of None \<Rightarrow> None | Some v \<Rightarrow> as_str v)"

definition probe_endpoint :: "oidc_args \<Rightarrow> json \<Rightarrow> string \<Rightarrow> string \<Rightarrow> rstr \<Rightarrow>
    (auth_method \<Rightarrow> oidc_verdict oidc) \<Rightarrow> oidc_verdict oidc" where
  "probe_endpoint a doc name key endpoint req =
     (if \<not> may_send_to a endpoint then
        ret (OError (Fmt (name @ '' {:?} is not https; refusing to send credentials in the clear'') [Dbg endpoint]))
      else case negotiated_methods doc key of
        Inl e \<Rightarrow> ret (OError e)
      | Inr methods \<Rightarrow> try_methods methods req None)"

definition check :: "http_env \<Rightarrow> oidc_args \<Rightarrow> rstr \<Rightarrow> rstr \<Rightarrow> oidc_verdict oidc" where
  "check E a client_id client_secret =
     (let issuer = trim_end_slashes (o_issuer a);
          discovery_url = issuer @ str ''/.well-known/openid-configuration'' in
      if \<not> may_send_to a issuer then
        ret (OError (Fmt ''issuer {:?} is not https; refusing to send credentials in the clear'' [Dbg issuer]))
      else
        bnd (discover E discovery_url) (\<lambda>doc.
        case endpoint_of doc ''introspection_endpoint'' of
          Some endpoint \<Rightarrow>
            probe_endpoint a doc ''introspection_endpoint'' ''introspection_endpoint_auth_methods_supported'' endpoint
              (introspection_request E endpoint client_id client_secret)
        | None \<Rightarrow>
            (case endpoint_of doc ''token_endpoint'' of
               None \<Rightarrow> ret (OError (Fmt ''{} declares neither introspection_endpoint nor token_endpoint''
                          [Str discovery_url]))
             | Some endpoint \<Rightarrow>
                 probe_endpoint a doc ''token_endpoint'' ''token_endpoint_auth_methods_supported'' endpoint
                   (token_request E a endpoint client_id client_secret))))"

definition verdict_of :: "(oidc_verdict, oidc_verdict) outcome \<Rightarrow> oidc_verdict" where
  "verdict_of r = (case r of Done v \<Rightarrow> v | Failed v \<Rightarrow> v | _ \<Rightarrow> OError (Str []))"

text \<open>
  \<open>main\<close>: \<open>None\<close> is the usage text.  The request on standard input is read by \<open>read_request\<close>,
  \<open>serde\<close>'s reading of it, from the text or the error of reading it.
\<close>

definition run_validator :: "http_env \<Rightarrow> (rstr \<Rightarrow> message + (rstr \<rightharpoonup> rstr)) \<Rightarrow> rstr list \<Rightarrow>
    message + rstr \<Rightarrow> oidc_verdict option \<times> http_call list" where
  "run_validator E read_request argv stdin =
     (case parse_args None default_args argv of
        Usage \<Rightarrow> (None, [])
      | BadArgs e \<Rightarrow> (Some (OError (Fmt ''bad invocation: {}'' [e])), [])
      | Args a \<Rightarrow>
          (case stdin of
             Inl e \<Rightarrow> (Some (OError (Fmt ''reading stdin: {}'' [e])), [])
           | Inr t \<Rightarrow>
               (case read_request t of
                  Inl e \<Rightarrow> (Some (OError (Fmt ''stdin is not a validator request: {}'' [e])), [])
                | Inr fs \<Rightarrow>
                    (case fs (o_client_id_field a) of
                       None \<Rightarrow> (Some (OError (Fmt ''stdin has no {} field'' [Str (o_client_id_field a)])), [])
                     | Some i \<Rightarrow>
                         (case fs (o_client_secret_field a) of
                            None \<Rightarrow> (Some (OError (Fmt ''stdin has no {} field'' [Str (o_client_secret_field a)])), [])
                          | Some s \<Rightarrow>
                              (let (r, cs) = check E a i s [] in (Some (verdict_of r), cs)))))))"

text \<open>The answer \<open>emit\<close> prints, as its status and optional message.\<close>

definition emitted :: "oidc_verdict \<Rightarrow> string \<times> message option" where
  "emitted v = (let (s, m) = (case v of
       OValid m \<Rightarrow> (''valid'', m) | OInvalid m \<Rightarrow> (''invalid'', m) | OError m \<Rightarrow> (''error'', m)) in
     (s, if message_is_empty m then None else Some m))"

end
