(* ===== verification/Oidc_Claims.thy ===== *)
theory Oidc_Claims
  imports Oidc
begin

text \<open>
  The properties of oidc-credential-validator: where it sends credentials, what its verdicts
  rest on, and the header it sends them in.  \<open>probe\<close> is the contract of a request that proves
  credentials with one POST; the two probes of the code are its interpretations.
\<close>

section \<open>What an answer proves\<close>

definition rejection :: "http_env \<Rightarrow> message + nat \<times> (message + rstr) \<Rightarrow> bool" where
  "rejection E r \<longleftrightarrow> (case r of
     Inl _ \<Rightarrow> False
   | Inr (status, body) \<Rightarrow> \<not> success status \<and> status < 500 \<and> status \<noteq> 429 \<and>
       (oauth_error E (body_text body) = Some (str ''invalid_client'') \<or>
        oauth_error E (body_text body) = None \<and> (status = 401 \<or> status = 403)))"

text \<open>An introspection answer counts only with a boolean \<open>active\<close> in it.\<close>

definition introspects :: "http_post \<Rightarrow> bool" where
  "introspects p \<longleftrightarrow> str ''token'' \<in> set (map fst (post_form p))"

definition acceptance :: "http_env \<Rightarrow> http_post \<Rightarrow> message + nat \<times> (message + rstr) \<Rightarrow> bool" where
  "acceptance E p r \<longleftrightarrow> (case r of
     Inl _ \<Rightarrow> False
   | Inr (status, body) \<Rightarrow> success status \<and>
       (introspects p \<longrightarrow> (case json_ok E (body_text body) of
          None \<Rightarrow> False
        | Some v \<Rightarrow> (case json_get (str ''active'') v of None \<Rightarrow> False | Some x \<Rightarrow> as_bool x \<noteq> None))))"

text \<open>The POSTs of a run with their answers, newest first.\<close>

fun post_answers :: "http_env \<Rightarrow> http_call list \<Rightarrow> (http_post \<times> (message + nat \<times> (message + rstr))) list" where
  "post_answers E [] = []"
| "post_answers E (GetCall _ # cs) = post_answers E cs"
| "post_answers E (PostCall p # cs) = (p, http_post E (length cs) p) # post_answers E cs"

fun justified :: "http_env \<Rightarrow> oidc_verdict \<Rightarrow> (http_post \<times> (message + nat \<times> (message + rstr))) list \<Rightarrow> bool" where
  "justified E (OInvalid _) rs \<longleftrightarrow> rs \<noteq> [] \<and> (\<forall>(p, r)\<in>set rs. rejection E r)"
| "justified E (OValid _) rs \<longleftrightarrow> (case rs of
      [] \<Rightarrow> False
    | (p, r) # old \<Rightarrow> acceptance E p r \<and> (\<forall>(q, s)\<in>set old. rejection E s))"
| "justified E (OError _) rs \<longleftrightarrow> True"

locale probe =
  fixes E :: http_env
    and post :: "auth_method \<Rightarrow> http_post"
    and req :: "auth_method \<Rightarrow> oidc_verdict oidc"
  assumes one_post: "snd (req m cs) = PostCall (post m) # cs"
    and returns: "\<exists>v. fst (req m cs) = Done v \<and>
        justified E v [(post m, http_post E (length cs) (post m))]"
begin

lemma req_step:
  obtains v where "req m cs = (Done v, PostCall (post m) # cs)"
    and "justified E v [(post m, http_post E (length cs) (post m))]"
  using one_post [of m cs] returns [of m cs] by (metis prod.collapse)

lemma try_methods_justified:
  assumes "\<forall>(p, r)\<in>set (post_answers E cs). rejection E r" and "ms \<noteq> [] \<or> post_answers E cs \<noteq> []"
  shows "\<exists>v cs'. try_methods ms req e cs = (Done v, cs') \<and> justified E v (post_answers E cs')"
  using assms
proof (induction ms arbitrary: cs e)
  case Nil
  then show ?case by (simp add: ret_def)
next
  case (Cons m ms)
  obtain v where v: "req m cs = (Done v, PostCall (post m) # cs)"
    "justified E v [(post m, http_post E (length cs) (post m))]"
    by (rule req_step)
  show ?case
  proof (cases v)
    case (OInvalid msg)
    with v Cons.prems Cons.IH [of "PostCall (post m) # cs" "Some msg"] show ?thesis
      by (auto simp: bnd_def)
  qed (use v Cons.prems in \<open>auto simp: bnd_def ret_def\<close>)
qed

lemma try_methods_posts:
  "set (snd (try_methods ms req e cs)) \<subseteq> set cs \<union> (PostCall \<circ> post) ` set ms"
proof (induction ms arbitrary: cs e)
  case Nil
  then show ?case by (simp add: ret_def)
next
  case (Cons m ms)
  obtain v where v: "req m cs = (Done v, PostCall (post m) # cs)" by (rule req_step)
  show ?case
  proof (cases v)
    case (OInvalid msg)
    with v Cons.IH [of "Some msg" "PostCall (post m) # cs"] show ?thesis by (auto simp: bnd_def)
  qed (auto simp: v bnd_def ret_def)
qed

end

lemma token_introspects: "\<not> introspects (token_post a endpoint i s m)"
  by (auto simp: introspects_def token_post_def str_def split: option.splits)

interpretation introspection: probe E "introspection_post endpoint i s" "introspection_request E endpoint i s"
  for E endpoint i s
proof unfold_locales
  show "snd (introspection_request E endpoint i s m cs) = PostCall (introspection_post endpoint i s m) # cs" for m cs
    by (simp add: introspection_request_def bnd_def send_form_def ret_def split: sum.splits)
  show "\<exists>v. fst (introspection_request E endpoint i s m cs) = Done v \<and>
      justified E v [(introspection_post endpoint i s m, http_post E (length cs) (introspection_post endpoint i s m))]" for m cs
    by (auto simp: introspection_request_def bnd_def send_form_def ret_def classify_introspection_def
        rejection_def acceptance_def Let_def split: sum.splits option.splits)
qed

interpretation token: probe E "token_post a endpoint i s" "token_request E a endpoint i s"
  for E a endpoint i s
proof unfold_locales
  show "snd (token_request E a endpoint i s m cs) = PostCall (token_post a endpoint i s m) # cs" for m cs
    by (simp add: token_request_def bnd_def send_form_def ret_def split: sum.splits)
  show "\<exists>v. fst (token_request E a endpoint i s m cs) = Done v \<and>
      justified E v [(token_post a endpoint i s m, http_post E (length cs) (token_post a endpoint i s m))]" for m cs
    by (auto simp: token_request_def bnd_def send_form_def ret_def classify_token_def
        rejection_def acceptance_def token_introspects Let_def split: sum.splits)
qed

lemma negotiated_nonempty: "negotiated_methods doc key = Inr ms \<Longrightarrow> ms \<noteq> []"
  by (auto simp: negotiated_methods_def Let_def split: if_splits)

lemma probe_endpoint_justified:
  assumes "probe E post req" and "post_answers E cs = []"
  shows "\<exists>v cs'. probe_endpoint a doc name key endpoint req cs = (Done v, cs') \<and> justified E v (post_answers E cs')"
  using assms probe.try_methods_justified [OF assms(1)] negotiated_nonempty
  by (auto simp: probe_endpoint_def ret_def split: sum.splits)

lemma discover_cases:
  obtains (failed) v where "discover E url cs = (Failed (OError v), GetCall url # cs)"
    | (found) doc where "discover E url cs = (Done doc, GetCall url # cs)"
proof (cases "http_get E (length cs) url")
  case (Inl e)
  then show ?thesis by (intro failed) (simp add: discover_def bnd_def get_call_def fail_def)
next
  case (Inr r)
  obtain status body where r: "r = (status, body)" by (cases r)
  show ?thesis
  proof (cases "success status")
    case False
    with Inr r show ?thesis by (intro failed) (simp add: discover_def bnd_def get_call_def fail_def)
  next
    case ok: True
    show ?thesis
    proof (cases body)
      case (Inl e)
      with Inr r ok show ?thesis by (intro failed) (simp add: discover_def bnd_def get_call_def fail_def)
    next
      case body: (Inr t)
      show ?thesis
      proof (cases "parse_json E t")
        case (Inl e)
        with Inr r ok body show ?thesis
          by (intro failed) (simp add: discover_def bnd_def get_call_def fail_def)
      next
        case (Inr v)
        with \<open>http_get E (length cs) url = Inr r\<close> r ok body show ?thesis
          by (intro found) (simp add: discover_def bnd_def get_call_def ret_def)
      qed
    qed
  qed
qed

lemma check_justified:
  "check E a i s [] = (r, cs) \<Longrightarrow> justified E (verdict_of r) (post_answers E cs)"
proof -
  assume run: "check E a i s [] = (r, cs)"
  let ?issuer = "trim_end_slashes (o_issuer a)"
  let ?url = "?issuer @ str ''/.well-known/openid-configuration''"
  show ?thesis
  proof (cases "may_send_to a ?issuer")
    case False
    with run show ?thesis by (auto simp: check_def Let_def ret_def verdict_of_def)
  next
    case True
    show ?thesis
    proof (cases rule: discover_cases [of E ?url "[]"])
      case (failed v)
      with run True show ?thesis by (auto simp: check_def Let_def bnd_def verdict_of_def)
    next
      case (found doc)
      note ended = probe_endpoint_justified [OF introspection.probe_axioms, of E "[GetCall ?url]"]
        probe_endpoint_justified [OF token.probe_axioms, of E "[GetCall ?url]"]
      from run True found show ?thesis
        using ended(1) [of a doc "''introspection_endpoint''" "''introspection_endpoint_auth_methods_supported''"
            "the (endpoint_of doc ''introspection_endpoint'')" "the (endpoint_of doc ''introspection_endpoint'')" i s]
          ended(2) [of a doc "''token_endpoint''" "''token_endpoint_auth_methods_supported''"
            "the (endpoint_of doc ''token_endpoint'')" a "the (endpoint_of doc ''token_endpoint'')" i s]
        by (auto simp: check_def Let_def bnd_def ret_def verdict_of_def split: option.splits)
    qed
  qed
qed

section \<open>Where credentials are sent\<close>

lemma probe_endpoint_posts:
  assumes "probe E post req"
  shows "set (snd (probe_endpoint a doc name key endpoint req cs)) \<subseteq> set cs \<union> range (PostCall \<circ> post)"
    and "\<not> may_send_to a endpoint \<Longrightarrow> snd (probe_endpoint a doc name key endpoint req cs) = cs"
proof -
  show "set (snd (probe_endpoint a doc name key endpoint req cs)) \<subseteq> set cs \<union> range (PostCall \<circ> post)"
  proof (cases "may_send_to a endpoint")
    case True
    then show ?thesis
      using probe.try_methods_posts [OF assms, of "projr (negotiated_methods doc key)" None cs]
      by (cases "negotiated_methods doc key") (auto simp: probe_endpoint_def ret_def)
  qed (auto simp: probe_endpoint_def ret_def)
qed (simp add: probe_endpoint_def ret_def)

definition issuer_of :: "oidc_args \<Rightarrow> rstr" where
  "issuer_of a = trim_end_slashes (o_issuer a)"

definition call_allowed :: "oidc_args \<Rightarrow> http_call \<Rightarrow> bool" where
  "call_allowed a c \<longleftrightarrow> (case c of
     GetCall url \<Rightarrow> may_send_to a (issuer_of a) \<and> url = issuer_of a @ str ''/.well-known/openid-configuration''
   | PostCall p \<Rightarrow> may_send_to a (issuer_of a) \<and> may_send_to a (post_url p))"

lemma allowed_range:
  assumes "may_send_to a (issuer_of a)" and "may_send_to a endpoint" and "\<And>m. post_url (post m) = endpoint"
  shows "range (PostCall \<circ> post) \<subseteq> Collect (call_allowed a)"
  using assms by (auto simp: call_allowed_def)

lemma probe_endpoint_allowed:
  assumes "probe E post req" and "\<And>m. post_url (post m) = endpoint" and "may_send_to a (issuer_of a)"
    and "set cs \<subseteq> Collect (call_allowed a)"
  shows "set (snd (probe_endpoint a doc name key endpoint req cs)) \<subseteq> Collect (call_allowed a)"
proof (cases "may_send_to a endpoint")
  case True
  show ?thesis
    using subset_trans [OF probe_endpoint_posts(1) [OF assms(1)] Un_mono [OF assms(4) allowed_range [OF assms(3) True assms(2)]]]
    by simp
qed (use probe_endpoint_posts(2) [OF assms(1)] assms(4) in simp)

lemma check_allowed: "set (snd (check E a i s [])) \<subseteq> Collect (call_allowed a)"
proof (cases "may_send_to a (issuer_of a)")
  case False
  then show ?thesis by (simp add: check_def issuer_of_def Let_def ret_def)
next
  case True
  let ?url = "issuer_of a @ str ''/.well-known/openid-configuration''"
  have get: "set [GetCall ?url] \<subseteq> Collect (call_allowed a)"
    using True by (simp add: call_allowed_def)
  have url: "post_url (introspection_post e i s m) = e" "post_url (token_post a e i s m) = e" for e m
    by (simp_all add: introspection_post_def token_post_def)
  show ?thesis
  proof (cases rule: discover_cases [of E ?url "[]"])
    case (failed v)
    with True get show ?thesis by (simp add: check_def issuer_of_def Let_def bnd_def)
  next
    case (found doc)
    note allowed = probe_endpoint_allowed [OF introspection.probe_axioms url(1) True get]
      probe_endpoint_allowed [OF token.probe_axioms url(2) True get]
    show ?thesis
    proof (cases "endpoint_of doc ''introspection_endpoint''")
      case (Some e)
      with True found allowed(1) show ?thesis by (simp add: check_def issuer_of_def Let_def bnd_def)
    next
      case None
      with True found get allowed(2) show ?thesis
        by (simp add: check_def issuer_of_def Let_def bnd_def ret_def split: option.splits)
    qed
  qed
qed

lemma parse_args_insecure:
  "parse_args issuer a argv = Args b \<Longrightarrow> o_allow_insecure_http b \<Longrightarrow>
     o_allow_insecure_http a \<or> str ''--allow-insecure-http'' \<in> set argv"
proof (induction issuer a argv rule: parse_args.induct)
  case (1 issuer a)
  then show ?case by (auto split: option.splits)
next
  case (2 issuer a arg argv)
  then show ?case by (auto split: if_splits list.splits option.splits)
qed

lemma run_validator_check:
  assumes "run_validator E rr argv stdin = (Some v, cs)"
  obtains "\<exists>m. v = OError m" and "cs = []"
    | a i s r where "parse_args None default_args argv = Args a" and "check E a i s [] = (r, cs)"
      and "v = verdict_of r"
  using assms
  by (auto simp: run_validator_def split: args_result.splits sum.splits option.splits prod.splits)

lemma run_validator_usage: "run_validator E rr argv stdin = (None, cs) \<Longrightarrow> cs = []"
  by (auto simp: run_validator_def split: args_result.splits sum.splits option.splits prod.splits)

section \<open>The header\<close>

lemma form_urlencode_utf8: "utf8 (form_urlencode i @ 58 # form_urlencode s) =
    map word_of_nat (form_urlencode i @ 58 # form_urlencode s)"
  using form_urlencode_chars by (subst utf8_ascii) auto

lemma unat_58: "unat (58 :: byte) = 58"
  by simp

lemma basic_credentials_halves:
  fixes i s :: rstr
  defines "bs \<equiv> map word_of_nat (form_urlencode i @ 58 # form_urlencode s) :: byte list"
  shows "base64_decode (drop 6 (basic_credentials i s)) = Some bs"
    and "map unat (takeWhile (\<lambda>b. b \<noteq> 58) bs) = form_urlencode i"
    and "map unat (tl (dropWhile (\<lambda>b. b \<noteq> 58) bs)) = form_urlencode s"
proof -
  have ascii: "word_of_nat c \<noteq> (58 :: byte)" "unat (word_of_nat c :: byte) = c"
    if "c \<in> set (form_urlencode x)" for c x
  proof -
    have "c < 128" "c \<noteq> 58" using form_urlencode_chars [OF that] by auto
    then show "unat (word_of_nat c :: byte) = c" by simp
    with \<open>c \<noteq> 58\<close> show "word_of_nat c \<noteq> (58 :: byte)" by (metis unat_58)
  qed
  have restored: "map (unat \<circ> (word_of_nat :: nat \<Rightarrow> byte)) (form_urlencode x) = form_urlencode x" for x
    using ascii(2) by (intro map_idI) simp
  show "base64_decode (drop 6 (basic_credentials i s)) = Some bs"
    by (simp add: basic_credentials_def form_urlencode_utf8 base64_decode_encode bs_def str_def del: map_append list.map)
  have take: "takeWhile (\<lambda>b. b \<noteq> 58) bs = map word_of_nat (form_urlencode i)"
    and drop: "dropWhile (\<lambda>b. b \<noteq> 58) bs = map word_of_nat (58 # form_urlencode s)"
    unfolding bs_def map_append
    by (subst takeWhile_append2 dropWhile_append2; use ascii(1) in force)+
  show "map unat (takeWhile (\<lambda>b. b \<noteq> 58) bs) = form_urlencode i" by (simp add: take restored)
  show "map unat (tl (dropWhile (\<lambda>b. b \<noteq> 58) bs)) = form_urlencode s" by (simp add: drop restored)
qed

section \<open>Properties\<close>

text \<open>
  An issuer that announces introspection, refuses the header and accepts the form.
\<close>

definition demo_issuer :: http_env where
  "demo_issuer = \<lparr>
     http_get = (\<lambda>n url. Inr (200, Inr (str ''doc''))),
     http_post = (\<lambda>n p. if post_authorization p = None then Inr (200, Inr (str ''answer'')) else Inr (401, Inr [])),
     parse_json = (\<lambda>t.
       if t = str ''doc'' then Inr (JObject [(str ''introspection_endpoint'', JString (str ''https://i/in''))])
       else if t = str ''answer'' then Inr (JObject [(str ''active'', JBool False)])
       else Inl (lit ''not JSON''))\<rparr>"

definition demo_request :: "rstr \<Rightarrow> message + (rstr \<rightharpoonup> rstr)" where
  "demo_request t = Inr [str ''CLIENT_ID'' \<mapsto> str ''me'', str ''CLIENT_SECRET'' \<mapsto> str ''pw'']"

definition demo_run :: "oidc_verdict option \<times> http_call list" where
  "demo_run = run_validator demo_issuer demo_request [str ''--issuer'', str ''https://i/''] (Inr [])"

lemma demo_run_eq:
  "demo_run = (Some (OValid (lit ''introspection endpoint authenticated the client (RFC 7662 probe)'')),
     [PostCall (introspection_post (str ''https://i/in'') (str ''me'') (str ''pw'') Post),
      PostCall (introspection_post (str ''https://i/in'') (str ''me'') (str ''pw'') Basic),
      GetCall (str ''https://i/.well-known/openid-configuration'')])"
  by code_simp

text \<open>C23: Unless it is started with --allow-insecure-http, the validator sends the credentials to
  https URLs only, and only when the issuer's URL is https itself, whatever the issuer's
  discovery document says; the one other request it makes fetches that document from under
  the issuer's URL.\<close>

theorem credentials_only_over_https:
  assumes "run_validator E read_request argv stdin = (v, cs)"
    and "str ''--allow-insecure-http'' \<notin> set argv" and "c \<in> set cs"
  shows "\<exists>a. parse_args None default_args argv = Args a \<and>
     starts_with (trim_end_slashes (o_issuer a)) (str ''https://'') \<and>
     (case c of
        PostCall p \<Rightarrow> starts_with (post_url p) (str ''https://'')
      | GetCall url \<Rightarrow> url = trim_end_slashes (o_issuer a) @ str ''/.well-known/openid-configuration'')"
proof (cases v)
  case None
  with assms(1,3) run_validator_usage [of E read_request argv stdin cs] show ?thesis by simp
next
  case (Some verdict)
  show ?thesis
  proof (rule run_validator_check [OF assms(1) [unfolded Some]])
    fix a i s r
    assume a: "parse_args None default_args argv = Args a" and run: "check E a i s [] = (r, cs)"
    have "call_allowed a c" using check_allowed [of E a i s] run assms(3) by auto
    moreover have "\<not> o_allow_insecure_http a"
      using parse_args_insecure [OF a] assms(2) by (auto simp: default_args_def)
    ultimately show ?thesis
      using a by (auto simp: call_allowed_def may_send_to_def issuer_of_def split: http_call.splits)
  qed (use assms(3) in simp)
qed

theorem credentials_only_over_https_witness:
  "\<exists>a. parse_args None default_args [str ''--issuer'', str ''https://i/''] = Args a \<and>
     starts_with (post_url (introspection_post (str ''https://i/in'') (str ''me'') (str ''pw'') Basic)) (str ''https://'')"
proof -
  have run: "run_validator demo_issuer demo_request [str ''--issuer'', str ''https://i/''] (Inr []) =
      (fst demo_run, snd demo_run)"
    by (simp add: demo_run_def)
  have plain: "str ''--allow-insecure-http'' \<notin> set [str ''--issuer'', str ''https://i/'']"
    by (simp add: str_def)
  have sent: "PostCall (introspection_post (str ''https://i/in'') (str ''me'') (str ''pw'') Basic) \<in> set (snd demo_run)"
    by (simp add: demo_run_eq)
  show ?thesis using credentials_only_over_https [OF run plain sent] by auto
qed

text \<open>C24: A verdict rests on what the server answered.  The validator answers invalid only after
  at least one probe, when every probe it sent was rejected: an HTTP answer that is neither a
  server error nor a throttle, with the error invalid_client or, without an error, status 401
  or 403.  It answers valid only when the last probe was accepted (2xx, and for an
  introspection a boolean active field) and every earlier one rejected.\<close>

theorem verdict_is_justified:
  assumes "run_validator E read_request argv stdin = (Some v, cs)"
  shows "justified E v (post_answers E cs)"
  using assms check_justified by (auto elim!: run_validator_check)

theorem verdict_is_justified_witness:
  "justified demo_issuer (the (fst demo_run)) (post_answers demo_issuer (snd demo_run))"
  using verdict_is_justified [of demo_issuer demo_request "[str ''--issuer'', str ''https://i/'']" "Inr []"]
  by (simp add: demo_run_def [symmetric] demo_run_eq)

text \<open>C25: The Basic header decodes back: its base64 gives bytes whose part before the first colon
  form-decodes to the client id and whose part behind it to the secret.  Neither can move the
  boundary, so headers of different credentials differ.\<close>

theorem basic_credentials_decode:
  "(\<exists>bs. base64_decode (drop 6 (basic_credentials i s)) = Some bs \<and>
      form_urldecode (map unat (takeWhile (\<lambda>b. b \<noteq> 58) bs)) = Some (utf8 i) \<and>
      form_urldecode (map unat (tl (dropWhile (\<lambda>b. b \<noteq> 58) bs))) = Some (utf8 s)) \<and>
   (scalar_values i \<and> scalar_values s \<and> scalar_values j \<and> scalar_values t \<longrightarrow>
      basic_credentials i s = basic_credentials j t \<longrightarrow> i = j \<and> s = t)"
proof (intro conjI impI)
  show "\<exists>bs. base64_decode (drop 6 (basic_credentials i s)) = Some bs \<and>
      form_urldecode (map unat (takeWhile (\<lambda>b. b \<noteq> 58) bs)) = Some (utf8 i) \<and>
      form_urldecode (map unat (tl (dropWhile (\<lambda>b. b \<noteq> 58) bs))) = Some (utf8 s)"
    by (simp add: basic_credentials_halves form_urldecode_urlencode del: list.map map_append)
next
  assume sv: "scalar_values i \<and> scalar_values s \<and> scalar_values j \<and> scalar_values t"
    and eq: "basic_credentials i s = basic_credentials j t"
  have "form_urlencode i = form_urlencode j \<and> form_urlencode s = form_urlencode t"
    using basic_credentials_halves(2,3) [of i s] basic_credentials_halves(2,3) [of j t]
      basic_credentials_halves(1) [of i s] basic_credentials_halves(1) [of j t] unfolding eq by simp
  then have "utf8 i = utf8 j \<and> utf8 s = utf8 t" by (metis form_urldecode_urlencode option.inject)
  then show "i = j" "s = t" using sv utf8_inj by blast+
qed

theorem basic_credentials_decode_witness:
  "basic_credentials (str ''a:'') (str ''b'') \<noteq> basic_credentials (str ''a'') (str '':b'')"
  using basic_credentials_decode [of "str ''a:''" "str ''b''" "str ''a''" "str '':b''"]
  by (auto simp: scalar_values_def str_def)

end
