(* ===== verification/Nsw2_Report.thy ===== *)
theory Nsw2_Report
  imports Complex_Main Rust_Bytes
begin

text \<open>
  The data of nsw2-service: the input report of the controller
  (\<open>packages/nsw2-service/src/report.rs\<close>), the events it becomes (\<open>emit_state\<close> of
  \<open>bridge.rs\<close>) and the rumble frames (\<open>rumble.rs\<close>).  \<open>u8\<close>, \<open>u16\<close> and \<open>i16\<close> are words of
  their width, a signed one read by \<open>sint\<close>; the \<open>i32\<close> of \<open>axis_from_12bit\<close> is an \<open>int\<close>, as
  its values stay far below the bounds.
\<close>

unbundle bit_operations_syntax

section \<open>Reports\<close>

record controller_state =
  buttons :: "byte list"
  stick_l :: "16 word \<times> 16 word"
  stick_r :: "16 word \<times> 16 word"
  trigger_l :: byte
  trigger_r :: byte

definition default_state :: controller_state where
  "default_state = \<lparr>buttons = [0, 0, 0], stick_l = (0, 0), stick_r = (0, 0), trigger_l = 0, trigger_r = 0\<rparr>"

definition unpack_12bit :: "byte list \<Rightarrow> 16 word \<times> 16 word" where
  "unpack_12bit t =
     (ucast (t ! 0) OR push_bit 8 (ucast (t ! 1) AND 0x0F),
      drop_bit 4 (ucast (t ! 1)) OR push_bit 4 (ucast (t ! 2)))"

definition axis_from_12bit :: "16 word \<Rightarrow> 16 word" where
  "axis_from_12bit v = (let centered = uint v - 2048 in
     word_of_int (max (- 32768) (min 32767 (centered * 16))))"

definition saturating_neg :: "16 word \<Rightarrow> 16 word" where
  "saturating_neg w = (if sint w = - 32768 then 32767 else - w)"

definition parse_report :: "byte list \<Rightarrow> controller_state option" where
  "parse_report report =
     (if length report < 0x0F then None
      else
        (let payload = drop 1 report;
             (lx, ly) = unpack_12bit (take 3 (drop 5 payload));
             (rx, ry) = unpack_12bit (take 3 (drop 8 payload)) in
         Some \<lparr>buttons = [payload ! 2, payload ! 3, payload ! 4],
               stick_l = (saturating_neg (axis_from_12bit lx), saturating_neg (axis_from_12bit ly)),
               stick_r = (axis_from_12bit rx, saturating_neg (axis_from_12bit ry)),
               trigger_l = payload ! 12, trigger_r = payload ! 13\<rparr>))"

datatype key_code =
    BTN_EAST | BTN_SOUTH | BTN_WEST | BTN_NORTH | BTN_TR | BTN_TR2 | BTN_START
  | BTN_DPAD_DOWN | BTN_DPAD_RIGHT | BTN_DPAD_LEFT | BTN_DPAD_UP | BTN_TL | BTN_TL2
  | BTN_MODE | BTN_C | BTN_Z

definition KEY_MAP :: "(nat \<times> byte \<times> key_code) list" where
  "KEY_MAP = [
     (0, 0x01, BTN_EAST), (0, 0x02, BTN_SOUTH), (0, 0x04, BTN_WEST), (0, 0x08, BTN_NORTH),
     (0, 0x10, BTN_TR), (0, 0x20, BTN_TR2), (0, 0x40, BTN_START),
     (1, 0x01, BTN_DPAD_DOWN), (1, 0x02, BTN_DPAD_RIGHT), (1, 0x04, BTN_DPAD_LEFT),
     (1, 0x08, BTN_DPAD_UP), (1, 0x10, BTN_TL), (1, 0x20, BTN_TL2),
     (2, 0x01, BTN_MODE), (2, 0x02, BTN_C), (2, 0x10, BTN_Z)]"

section \<open>Events\<close>

datatype abs_axis = ABS_X | ABS_Y | ABS_RX | ABS_RY | ABS_Z | ABS_RZ

datatype input_event = KeyEvent key_code int | AbsEvent abs_axis int

definition abs_event :: "abs_axis \<Rightarrow> 16 word \<Rightarrow> input_event" where
  "abs_event code value = AbsEvent code (sint value)"

definition pressed :: "controller_state \<Rightarrow> nat \<times> byte \<times> key_code \<Rightarrow> bool" where
  "pressed state e = (case e of (i, m, _) \<Rightarrow> buttons state ! i AND m \<noteq> 0)"

definition key_event :: "controller_state \<Rightarrow> controller_state \<Rightarrow> nat \<times> byte \<times> key_code \<Rightarrow> input_event list" where
  "key_event state prev e =
     (let now = pressed state e; before = pressed prev e in
      if now \<noteq> before then [KeyEvent (snd (snd e)) (of_bool now)] else [])"

definition axis_event :: "abs_axis \<Rightarrow> 16 word \<Rightarrow> 16 word \<Rightarrow> input_event list" where
  "axis_event code now prev = (if now \<noteq> prev then [abs_event code now] else [])"

definition emit_events :: "controller_state \<Rightarrow> controller_state \<Rightarrow> input_event list" where
  "emit_events state prev =
     concat (map (key_event state prev) KEY_MAP)
     @ axis_event ABS_X (fst (stick_l state)) (fst (stick_l prev))
     @ axis_event ABS_Y (snd (stick_l state)) (snd (stick_l prev))
     @ axis_event ABS_RX (fst (stick_r state)) (fst (stick_r prev))
     @ axis_event ABS_RY (snd (stick_r state)) (snd (stick_r prev))
     @ axis_event ABS_Z (ucast (trigger_l state)) (ucast (trigger_l prev))
     @ axis_event ABS_RZ (ucast (trigger_r state)) (ucast (trigger_r prev))"

section \<open>Rumble frames\<close>

datatype rumble_cmd = Play "16 word" "16 word" | Stop

definition build_frame :: "bool \<Rightarrow> byte list" where
  "build_frame motor_on =
     [0x0A, 0x91, 0x00, 0x02, 0x00, 0x04, 0x00, 0x00, if motor_on then 0x01 else 0x00, 0x00, 0x00, 0x00]"

definition neutral_frame :: "byte list" where
  "neutral_frame = build_frame False"

text \<open>
  The amplitudes are quotients of a magnitude and 65535; the rounding of \<open>f32\<close> leaves a
  positive quotient of this size positive.
\<close>

definition rumble_frame :: "rat \<Rightarrow> rat \<Rightarrow> byte list" where
  "rumble_frame left_amp right_amp = build_frame (left_amp > 0 \<or> right_amp > 0)"

fun command_frame :: "rumble_cmd \<Rightarrow> byte list" where
  "command_frame Stop = neutral_frame"
| "command_frame (Play strong weak) =
     rumble_frame (of_nat (unat strong) / 65535) (of_nat (unat weak) / 65535)"

section \<open>What the device shows\<close>

record device_view =
  key_of :: "key_code \<Rightarrow> int"
  axis_of :: "abs_axis \<Rightarrow> int"

fun apply_event :: "input_event \<Rightarrow> device_view \<Rightarrow> device_view" where
  "apply_event (KeyEvent k v) d = d\<lparr>key_of := (key_of d)(k := v)\<rparr>"
| "apply_event (AbsEvent a v) d = d\<lparr>axis_of := (axis_of d)(a := v)\<rparr>"

fun axis_value :: "controller_state \<Rightarrow> abs_axis \<Rightarrow> int" where
  "axis_value s ABS_X = sint (fst (stick_l s))"
| "axis_value s ABS_Y = sint (snd (stick_l s))"
| "axis_value s ABS_RX = sint (fst (stick_r s))"
| "axis_value s ABS_RY = sint (snd (stick_r s))"
| "axis_value s ABS_Z = uint (trigger_l s)"
| "axis_value s ABS_RZ = uint (trigger_r s)"

definition key_value :: "controller_state \<Rightarrow> key_code \<Rightarrow> int" where
  "key_value s k = of_bool (list_ex (\<lambda>e. snd (snd e) = k \<and> pressed s e) KEY_MAP)"

definition view_of :: "controller_state \<Rightarrow> device_view" where
  "view_of s = \<lparr>key_of = key_value s, axis_of = axis_value s\<rparr>"

lemma sint_ucast_byte [simp]: "sint (ucast (b :: byte) :: 16 word) = uint b"
proof -
  have u: "uint (ucast b :: 16 word) = uint b"
    by (simp add: unsigned_ucast_eq take_bit_int_eq_self uint_lt2p [THEN order.strict_trans])
  have "uint b < 2 ^ 8" using uint_lt2p [of b] by simp
  then have "signed_take_bit 15 (uint b) = uint b"
    by (intro signed_take_bit_int_eq_self) (simp_all add: order_trans [OF _ uint_ge_0])
  then show ?thesis by (simp add: sint_uint u)
qed

lemma ucast_byte_eq [simp]: "(ucast (a :: byte) :: 16 word) = ucast b \<longleftrightarrow> a = b"
  by (metis sint_ucast_byte word_uint_eq_iff)

lemma key_of_key_event:
  "key_of (fold apply_event (key_event s l e) d) k =
     (if snd (snd e) = k \<and> pressed s e \<noteq> pressed l e then of_bool (pressed s e) else key_of d k)"
  by (auto simp: key_event_def Let_def)

lemma key_of_key_events:
  "distinct (map (snd \<circ> snd) m) \<Longrightarrow>
   key_of (fold apply_event (concat (map (key_event s l) m)) d) k =
     (case find (\<lambda>e. snd (snd e) = k) m of
        None \<Rightarrow> key_of d k
      | Some e \<Rightarrow> if pressed s e \<noteq> pressed l e then of_bool (pressed s e) else key_of d k)"
proof (induction m arbitrary: d)
  case Nil
  then show ?case by simp
next
  case (Cons e m)
  have absent: "find (\<lambda>e'. snd (snd e') = snd (snd e)) m = None"
    using Cons.prems by (auto simp: find_None_iff) (metis image_eqI snd_conv)
  have "key_of (fold apply_event (concat (map (key_event s l) m)) (fold apply_event (key_event s l e) d)) k =
      (case find (\<lambda>e. snd (snd e) = k) m of
        None \<Rightarrow> key_of (fold apply_event (key_event s l e) d) k
      | Some x \<Rightarrow> if pressed s x \<noteq> pressed l x then of_bool (pressed s x)
          else key_of (fold apply_event (key_event s l e) d) k)"
    by (rule Cons.IH) (use Cons.prems in simp)
  then show ?case
    by (cases "snd (snd e) = k") (auto simp: key_of_key_event absent cong: option.case_cong split: option.split)
qed

lemma axis_of_key_events: "axis_of (fold apply_event (concat (map (key_event s l) m)) d) = axis_of d"
  by (induction m arbitrary: d) (simp_all add: key_event_def Let_def)

lemma fold_axis_event:
  "key_of (fold apply_event (axis_event a x y) d) = key_of d"
  "axis_of (fold apply_event (axis_event a x y) d) = (if x = y then axis_of d else (axis_of d)(a := sint x))"
  by (simp_all add: axis_event_def abs_event_def)

lemma key_map_keys: "map (snd \<circ> snd) KEY_MAP = [BTN_EAST, BTN_SOUTH, BTN_WEST, BTN_NORTH, BTN_TR, BTN_TR2,
    BTN_START, BTN_DPAD_DOWN, BTN_DPAD_RIGHT, BTN_DPAD_LEFT, BTN_DPAD_UP, BTN_TL, BTN_TL2, BTN_MODE, BTN_C, BTN_Z]"
  by (simp add: KEY_MAP_def)

lemma emit_events_view: "fold apply_event (emit_events s l) (view_of l) = view_of s"
proof (rule device_view.equality)
  show "key_of (fold apply_event (emit_events s l) (view_of l)) = key_of (view_of s)"
  proof
    fix k
    have "key_of (fold apply_event (emit_events s l) (view_of l)) k =
        key_of (fold apply_event (concat (map (key_event s l) KEY_MAP)) (view_of l)) k"
      by (simp add: emit_events_def fold_axis_event)
    also have "\<dots> = key_value s k"
      by (subst key_of_key_events, simp add: key_map_keys)
        (cases k; simp add: KEY_MAP_def view_of_def key_value_def)
    finally show "key_of (fold apply_event (emit_events s l) (view_of l)) k = key_of (view_of s) k"
      by (simp add: view_of_def)
  qed
  show "axis_of (fold apply_event (emit_events s l) (view_of l)) = axis_of (view_of s)"
  proof
    fix a
    show "axis_of (fold apply_event (emit_events s l) (view_of l)) a = axis_of (view_of s) a"
      by (cases a) (simp_all add: emit_events_def fold_axis_event axis_of_key_events view_of_def)
  qed
qed simp

section \<open>Sticks\<close>

text \<open>How the controller packs two values of twelve bits into three bytes.\<close>

definition pack_12bit :: "nat \<Rightarrow> nat \<Rightarrow> byte list" where
  "pack_12bit x y = [word_of_nat (x mod 256), word_of_nat (x div 256 + 16 * (y mod 16)), word_of_nat (y div 16)]"

lemma unat_ucast_byte [simp]: "unat (ucast (b :: byte) :: 16 word) = unat b"
  using unat_byte_le [of b] by (simp add: unsigned_ucast_eq take_bit_nat_eq_self)

lemma unat_unpack_12bit:
  "unat (fst (unpack_12bit [a, b, c])) = unat a + 256 * (unat b mod 16)"
  "unat (snd (unpack_12bit [a, b, c])) = unat b div 16 + 16 * unat c"
proof -
  let ?a = "ucast a :: 16 word" and ?b = "ucast b :: 16 word" and ?c = "ucast c :: 16 word"
  have le: "unat a \<le> 255" "unat b \<le> 255" "unat c \<le> 255" by (rule unat_byte_le)+
  have m: "(0x0F :: 16 word) = mask 4" by (simp add: mask_eq_exp_minus_1)
  have low: "unat (?b AND 0x0F) = unat b mod 16"
    unfolding m take_bit_eq_mask [symmetric] unsigned_take_bit_eq by (simp add: take_bit_eq_mod)
  have high: "unat (drop_bit 4 ?b) = unat b div 16"
    unfolding unsigned_drop_bit_eq using unat_byte_le [of b]
    by (simp add: drop_bit_eq_div take_bit_eq_mod div_mult2_eq [symmetric])
  have "?a OR push_bit 8 (?b AND 0x0F) = ?a + push_bit 8 (?b AND 0x0F)"
    by (rule disjunctive_add [symmetric]) (auto simp: bit_simps dest: bit_imp_le_length)
  moreover have "unat b mod 16 < 16" by simp
  ultimately show "unat (fst (unpack_12bit [a, b, c])) = unat a + 256 * (unat b mod 16)"
    using le by (simp add: unpack_12bit_def push_bit_eq_mult unat_word_ariths low)
  have "drop_bit 4 ?b OR push_bit 4 ?c = drop_bit 4 ?b + push_bit 4 ?c"
    by (rule disjunctive_add [symmetric]) (auto simp: bit_simps dest: bit_imp_le_length)
  then show "unat (snd (unpack_12bit [a, b, c])) = unat b div 16 + 16 * unat c"
    using le by (simp add: unpack_12bit_def push_bit_eq_mult unat_word_ariths high)
qed

lemma unpack_pack_12bit:
  assumes "x < 4096" and "y < 4096"
  shows "unat (fst (unpack_12bit (pack_12bit x y))) = x" and "unat (snd (unpack_12bit (pack_12bit x y))) = y"
proof -
  have "x div 256 < 16" "y div 16 < 256" "y mod 16 < 16" using assms by (simp_all add: div_less_iff_less_mult)
  then have "unat (word_of_nat (x mod 256) :: byte) = x mod 256"
    "unat (word_of_nat (x div 256 + 16 * (y mod 16)) :: byte) = x div 256 + 16 * (y mod 16)"
    "unat (word_of_nat (y div 16) :: byte) = y div 16"
    by (simp_all add: unat_byte del: of_nat_add of_nat_mult)
  then show "unat (fst (unpack_12bit (pack_12bit x y))) = x" "unat (snd (unpack_12bit (pack_12bit x y))) = y"
    unfolding pack_12bit_def unat_unpack_12bit using \<open>x div 256 < 16\<close> by simp_all
qed

lemma unpack_12bit_less:
  "unat (fst (unpack_12bit [a, b, c])) < 4096" "unat (snd (unpack_12bit [a, b, c])) < 4096"
  using unat_byte_le [of a] unat_byte_le [of b] unat_byte_le [of c]
  by (simp_all add: unat_unpack_12bit)

lemma sint_axis:
  assumes "unat v < 4096" shows "sint (axis_from_12bit v) = (int (unat v) - 2048) * 16"
proof -
  define n where "n = uint v"
  have n: "0 \<le> n" "n \<le> 4095"
    using assms by (simp_all add: n_def uint_nat del: of_nat_unat unat_eq_nat_uint)
  then have range: "- 32768 \<le> (n - 2048) * 16" "(n - 2048) * 16 \<le> 32752" by simp_all
  then have "signed_take_bit 15 ((n - 2048) * 16) = (n - 2048) * 16"
    by (intro signed_take_bit_int_eq_self) simp_all
  moreover have "max (- 32768) (min 32767 ((n - 2048) * 16)) = (n - 2048) * 16" using range by linarith
  ultimately have "sint (axis_from_12bit v) = (n - 2048) * 16"
    unfolding axis_from_12bit_def Let_def n_def [symmetric] sint_sbintrunc' by simp
  then show ?thesis by (simp add: n_def)
qed

lemma sint_saturating_neg: "sint (saturating_neg w) = min 32767 (- sint w)"
proof (cases "sint w = - 32768")
  case False
  have "- 32768 \<le> sint w" "sint w < 32768" using sint_ge [of w] sint_lt [of w] by simp_all
  with False have range: "- 32768 < - sint w" "- sint w \<le> 32767" by linarith+
  then have "signed_take_bit 15 (- sint w) = - sint w"
    by (intro signed_take_bit_int_eq_self) simp_all
  with False range show ?thesis by (simp add: saturating_neg_def sint_word_minus)
qed (simp add: saturating_neg_def)

lemma parse_report_sticks:
  assumes "x < 4096" and "y < 4096" and "u < 4096" and "v < 4096"
    and "take 3 (drop 6 report) = pack_12bit x y" and "take 3 (drop 9 report) = pack_12bit u v"
    and "parse_report report = Some st"
  shows "sint (fst (stick_l st)) = min 32767 ((2048 - int x) * 16) \<and>
     sint (snd (stick_l st)) = min 32767 ((2048 - int y) * 16) \<and>
     sint (fst (stick_r st)) = (int u - 2048) * 16 \<and>
     sint (snd (stick_r st)) = min 32767 ((2048 - int v) * 16)"
proof -
  have axis: "sint (axis_from_12bit w) = (int n - 2048) * 16" if "unat w = n" "n < 4096" for w n
    using sint_axis [of w] that by simp
  obtain l1 l2 r1 r2 where l: "unpack_12bit (pack_12bit x y) = (l1, l2)" and r: "unpack_12bit (pack_12bit u v) = (r1, r2)"
    by fastforce
  have "stick_l st = (saturating_neg (axis_from_12bit l1), saturating_neg (axis_from_12bit l2))"
    and "stick_r st = (axis_from_12bit r1, saturating_neg (axis_from_12bit r2))"
    using assms(7) unfolding parse_report_def by (auto simp: assms(5,6) l r drop_drop split: if_splits)
  moreover have "sint (axis_from_12bit l1) = (int x - 2048) * 16" "sint (axis_from_12bit l2) = (int y - 2048) * 16"
    "sint (axis_from_12bit r1) = (int u - 2048) * 16" "sint (axis_from_12bit r2) = (int v - 2048) * 16"
    using axis [OF unpack_pack_12bit(1) [OF assms(1,2)] assms(1)] axis [OF unpack_pack_12bit(2) [OF assms(1,2)] assms(2)]
      axis [OF unpack_pack_12bit(1) [OF assms(3,4)] assms(3)] axis [OF unpack_pack_12bit(2) [OF assms(3,4)] assms(4)]
    unfolding l r fst_conv snd_conv .
  ultimately show ?thesis by (simp add: sint_saturating_neg)
qed

lemma parse_report_None_iff: "parse_report report = None \<longleftrightarrow> length report < 15"
  by (simp add: parse_report_def split: prod.split)

end
