(* ===== verification/Nsw2_Init.thy ===== *)
theory Nsw2_Init
  imports Nsw2_Report
begin

text \<open>
  \<open>packages/nsw2-service/src/init.rs\<close>: finding the controller on the USB bus and sending the
  handshake that puts it into HID mode, and \<open>parse_sysfs_path\<close> of \<open>main.rs\<close>.

  libusb is the environment: it lists the devices and answers every call, told the calls made
  before.  The state is the list of calls, newest first; sleeps change nothing and are left
  out.
\<close>

section \<open>The bus\<close>

record usb_endpoint =
  ep_bulk :: bool
  ep_out :: bool
  ep_address :: byte

text \<open>
  An interface has a number and its alternate settings, each a list of endpoints; a device
  whose descriptor cannot be read has no ids.
\<close>

record usb_device =
  usb_ids :: "(16 word \<times> 16 word) option"
  usb_bus :: byte
  usb_address :: byte
  usb_interfaces :: "message + (byte \<times> usb_endpoint list list) list"

datatype usb_call =
    OpenUsb byte byte
  | ClaimInterface byte
  | WriteBulk byte "byte list"
  | ReadBulk byte

record usb_env =
  usb_devices :: "message + usb_device list"
  usb_error :: "nat \<Rightarrow> usb_call \<Rightarrow> message option"

type_synonym 'a usb = "(usb_call list, message, 'a) prog"

definition VENDOR_ID :: "16 word" where
  "VENDOR_ID = 0x057E"

definition PRODUCT_ID :: "16 word" where
  "PRODUCT_ID = 0x2073"

definition INTERFACE :: byte where
  "INTERFACE = 1"

definition INIT_SEQUENCE :: "byte list list" where
  "INIT_SEQUENCE = [
     [0x03, 0x91, 0x00, 0x0D, 0x00, 0x08, 0x00, 0x00, 0x01, 0x00, 0xFF, 0xFF, 0xFF, 0xFF,
      0xFF, 0xFF],
     [0x07, 0x91, 0x00, 0x01, 0x00, 0x00, 0x00, 0x00],
     [0x16, 0x91, 0x00, 0x01, 0x00, 0x00, 0x00, 0x00],
     [0x15, 0x91, 0x00, 0x01, 0x00, 0x0E, 0x00, 0x00, 0x00, 0x02, 0xFF, 0xFF, 0xFF, 0xFF,
      0xFF, 0xFF, 0xFF, 0xFF, 0xFF, 0xFF, 0xFF, 0xFF],
     [0x15, 0x91, 0x00, 0x02, 0x00, 0x11, 0x00, 0x00, 0x00, 0xFF, 0xFF, 0xFF, 0xFF, 0xFF,
      0xFF, 0xFF, 0xFF, 0xFF, 0xFF, 0xFF, 0xFF, 0xFF, 0xFF, 0xFF, 0xFF, 0xFF],
     [0x15, 0x91, 0x00, 0x03, 0x00, 0x01, 0x00, 0x00, 0x00],
     [0x09, 0x91, 0x00, 0x07, 0x00, 0x08, 0x00, 0x00, 0x00, 0x00, 0x00, 0x00, 0x00, 0x00,
      0x00, 0x00],
     [0x0C, 0x91, 0x00, 0x02, 0x00, 0x04, 0x00, 0x00, 0x27, 0x00, 0x00, 0x00],
     [0x11, 0x91, 0x00, 0x03, 0x00, 0x00, 0x00, 0x00],
     [0x0A, 0x91, 0x00, 0x08, 0x00, 0x14, 0x00, 0x00, 0x01, 0xFF, 0xFF, 0xFF, 0xFF, 0xFF,
      0xFF, 0xFF, 0xFF, 0x35, 0x00, 0x46, 0x00, 0x00, 0x00, 0x00, 0x00, 0x00, 0x00, 0x00],
     [0x0C, 0x91, 0x00, 0x04, 0x00, 0x04, 0x00, 0x00, 0x27, 0x00, 0x00, 0x00],
     [0x03, 0x91, 0x00, 0x0A, 0x00, 0x04, 0x00, 0x00, 0x09, 0x00, 0x00, 0x00],
     [0x10, 0x91, 0x00, 0x01, 0x00, 0x00, 0x00, 0x00],
     [0x01, 0x91, 0x00, 0x0C, 0x00, 0x00, 0x00, 0x00],
     [0x03, 0x91, 0x00, 0x01, 0x00, 0x00, 0x00],
     [0x0A, 0x91, 0x00, 0x02, 0x00, 0x04, 0x00, 0x00, 0x03, 0x00, 0x00],
     [0x09, 0x91, 0x00, 0x07, 0x00, 0x08, 0x00, 0x00, 0x01, 0x00, 0x00, 0x00, 0x00, 0x00,
      0x00, 0x00]]"

section \<open>Finding the controller\<close>

definition find_endpoints :: "usb_device \<Rightarrow> byte \<Rightarrow> message + byte \<times> byte option" where
  "find_endpoints device interface =
     (case usb_interfaces device of
        Inl e \<Rightarrow> Inl (Fmt ''read active configuration descriptor: {}'' [e])
      | Inr is \<Rightarrow>
          (case find (\<lambda>(n, _). n = interface) is of
             None \<Rightarrow> Inl (Fmt ''interface {} not present'' [Num (unat interface)])
           | Some (_, []) \<Rightarrow> Inl (Fmt ''interface {} has no alternate setting'' [Num (unat interface)])
           | Some (_, alt # _) \<Rightarrow>
               (let bulk_out = map_option ep_address (find (\<lambda>ep. ep_bulk ep \<and> ep_out ep) alt);
                    bulk_in = map_option ep_address (find (\<lambda>ep. ep_bulk ep \<and> \<not> ep_out ep) alt) in
                case bulk_out of
                  None \<Rightarrow> Inl (Fmt ''no bulk OUT endpoint on interface {}'' [Num (unat interface)])
                | Some a \<Rightarrow> Inr (a, bulk_in))))"

definition is_controller :: "usb_device \<Rightarrow> bool" where
  "is_controller d \<longleftrightarrow> usb_ids d = Some (VENDOR_ID, PRODUCT_ID)"

definition find_device :: "usb_device list \<Rightarrow> (byte \<times> byte) option \<Rightarrow> message + usb_device" where
  "find_device ds target = (case target of
     Some (bus, addr) \<Rightarrow>
       (case find (\<lambda>d. is_controller d \<and> usb_bus d = bus \<and> usb_address d = addr) ds of
          Some d \<Rightarrow> Inr d
        | None \<Rightarrow> Inl (Fmt ''device 057E:2073 at USB {}:{} not found'' [Num (unat bus), Num (unat addr)]))
   | None \<Rightarrow>
       (case find is_controller ds of
          Some d \<Rightarrow> Inr d
        | None \<Rightarrow> Inl (lit ''device 057E:2073 (NS2 GameCube Controller) not found'')))"

text \<open>\<open>parse_sysfs_path\<close>, on what reading the two files gives.\<close>

definition parse_sysfs_path :: "message + rstr \<Rightarrow> message + rstr \<Rightarrow> message + byte \<times> byte" where
  "parse_sysfs_path busnum devnum =
     (case busnum of
        Inl e \<Rightarrow> Inl (Fmt ''read busnum: {}'' [e])
      | Inr b \<Rightarrow>
          (case parse_uint 255 (trim b) of
             None \<Rightarrow> Inl (lit ''parse busnum'')
           | Some bus \<Rightarrow>
               (case devnum of
                  Inl e \<Rightarrow> Inl (Fmt ''read devnum: {}'' [e])
                | Inr d \<Rightarrow>
                    (case parse_uint 255 (trim d) of
                       None \<Rightarrow> Inl (lit ''parse devnum'')
                     | Some dev \<Rightarrow> Inr (word_of_nat bus, word_of_nat dev)))))"

section \<open>The handshake\<close>

definition usb_do :: "usb_env \<Rightarrow> usb_call \<Rightarrow> unit usb" where
  "usb_do U c = (\<lambda>cs. (case usb_error U (length cs) c of None \<Rightarrow> Done () | Some e \<Rightarrow> Failed e, c # cs))"

definition send_packet :: "usb_env \<Rightarrow> byte \<times> byte option \<Rightarrow> byte list \<Rightarrow> unit usb" where
  "send_packet U eps packet =
     bnd (map_err (\<lambda>e. Fmt ''write init packet: {}'' [e]) (usb_do U (WriteBulk (fst eps) packet))) (\<lambda>_.
     case snd eps of
       Some ep_in \<Rightarrow> ignore (usb_do U (ReadBulk ep_in))
     | None \<Rightarrow> ret ())"

text \<open>\<open>init::run\<close>; the channel it returns is the address of the endpoint commands go to.\<close>

definition init_run :: "usb_env \<Rightarrow> (byte \<times> byte) option \<Rightarrow> byte usb" where
  "init_run U target =
     (case usb_devices U of
        Inl e \<Rightarrow> fail e
      | Inr ds \<Rightarrow>
          (case find_device ds target of
             Inl e \<Rightarrow> fail e
           | Inr device \<Rightarrow>
               (case find_endpoints device INTERFACE of
                  Inl e \<Rightarrow> fail e
                | Inr eps \<Rightarrow>
                    bnd (map_err (\<lambda>e. Fmt ''open device: {}'' [e])
                          (usb_do U (OpenUsb (usb_bus device) (usb_address device)))) (\<lambda>_.
                    bnd (map_err (\<lambda>e. Fmt ''claim interface: {}'' [e])
                          (usb_do U (ClaimInterface INTERFACE))) (\<lambda>_.
                    bnd (each (send_packet U eps) INIT_SEQUENCE) (\<lambda>_.
                    ret (fst eps)))))))"

text \<open>The \<open>Drop\<close> of the channel.\<close>

definition drop_channel :: "usb_env \<Rightarrow> byte \<Rightarrow> unit usb" where
  "drop_channel U bulk_out = ignore (usb_do U (WriteBulk bulk_out neutral_frame))"

end
