(* ===== verification/Nsw2_Poll.thy ===== *)
theory Nsw2_Poll
  imports Main
begin

text \<open>
  \<open>packages/nsw2-service/src/poll.rs\<close>: an \<open>mpsc\<close> channel with an eventfd that makes it
  pollable.  First the operations, each atomic for the other thread; then the two ends as a
  step relation that interleaves them, where \<open>send\<close> and \<open>drain\<close> are several steps each.
\<close>

section \<open>Operations\<close>

text \<open>An eventfd is its counter; a write that would pass the maximum fails.\<close>

definition efd_notify :: "nat \<Rightarrow> nat option" where
  "efd_notify n = (if n < 2 ^ 64 - 2 then Some (Suc n) else None)"

definition efd_drain :: "nat \<Rightarrow> nat \<times> nat option" where
  "efd_drain n = (if n = 0 then (0, None) else (0, Some n))"

definition notified :: "nat \<Rightarrow> nat" where
  "notified n = (case efd_notify n of Some m \<Rightarrow> m | None \<Rightarrow> n)"

lemma notified_pos [simp]: "0 < notified n"
  by (simp add: notified_def efd_notify_def)

record 'a channel =
  queue :: "'a list"
  wakeups :: nat
  sender_gone :: bool
  receiver_gone :: bool

definition pollable_channel :: "'a channel" where
  "pollable_channel = \<lparr>queue = [], wakeups = 0, sender_gone = False, receiver_gone = False\<rparr>"

definition tx_send :: "'a \<Rightarrow> 'a channel \<Rightarrow> 'a channel option" where
  "tx_send v c = (if receiver_gone c then None else Some (c\<lparr>queue := queue c @ [v]\<rparr>))"

definition chan_notify :: "'a channel \<Rightarrow> 'a channel" where
  "chan_notify c = c\<lparr>wakeups := notified (wakeups c)\<rparr>"

text \<open>\<open>PollableSender::send\<close>: \<open>None\<close> when the receiver is gone.\<close>

definition chan_send :: "'a \<Rightarrow> 'a channel \<Rightarrow> 'a channel option" where
  "chan_send v c = map_option chan_notify (tx_send v c)"

datatype 'a received = Item 'a | Empty | Disconnected

fun try_recv :: "'a channel \<Rightarrow> 'a received \<times> 'a channel" where
  "try_recv c = (case queue c of
      x # xs \<Rightarrow> (Item x, c\<lparr>queue := xs\<rparr>)
    | [] \<Rightarrow> (if sender_gone c then Disconnected else Empty, c))"

definition chan_reset :: "'a channel \<Rightarrow> 'a channel" where
  "chan_reset c = c\<lparr>wakeups := fst (efd_drain (wakeups c))\<rparr>"

text \<open>
  \<open>PollableReceiver::drain\<close> while the sender does nothing: the items, whether the sender is
  gone, and the channel.
\<close>

function recv_all :: "'a channel \<Rightarrow> 'a list \<times> bool \<times> 'a channel" where
  "recv_all c = (case try_recv c of
      (Item x, c') \<Rightarrow> (let (xs, d, c'') = recv_all c' in (x # xs, d, c''))
    | (Empty, c') \<Rightarrow> ([], False, c')
    | (Disconnected, c') \<Rightarrow> ([], True, c'))"
  by pat_completeness auto
termination
  by (relation "measure (\<lambda>c. length (queue c))") (auto split: list.splits if_splits)

declare recv_all.simps [simp del]

definition chan_drain :: "'a channel \<Rightarrow> 'a list \<times> bool \<times> 'a channel" where
  "chan_drain c = (let (xs, d, c') = recv_all c in (xs, d, chan_reset c'))"

lemma recv_all_eq: "recv_all c = (queue c, sender_gone c, c\<lparr>queue := []\<rparr>)"
proof (induction "queue c" arbitrary: c)
  case Nil
  then show ?case by (simp add: recv_all.simps)
next
  case (Cons x xs)
  then have "recv_all (c\<lparr>queue := xs\<rparr>) = (xs, sender_gone c, c\<lparr>queue := []\<rparr>)" by simp
  with Cons.hyps(2) [symmetric] show ?case by (subst recv_all.simps) simp
qed

lemma chan_drain_eq: "chan_drain c = (queue c, sender_gone c, c\<lparr>queue := [], wakeups := 0\<rparr>)"
  by (simp add: chan_drain_def recv_all_eq chan_reset_def efd_drain_def)

section \<open>The two ends together\<close>

text \<open>
  Where each end is: the sender between \<open>tx.send\<close> and \<open>efd.notify\<close>, the receiver at the
  poll, taking items, or before the reset of the eventfd.  \<open>sent\<close> and \<open>taken\<close> are histories.
\<close>

datatype sender_at = SReady | SQueued | SGone
datatype receiver_at = RPoll | RTaking | RReset bool | RReturned

record 'a chan_sys =
  chan :: "'a channel"
  sender :: sender_at
  receiver :: receiver_at
  sent :: "'a list"
  taken :: "'a list"

definition chan_start :: "'a chan_sys" where
  "chan_start = \<lparr>chan = pollable_channel, sender = SReady, receiver = RPoll, sent = [], taken = []\<rparr>"

inductive chan_step :: "'a chan_sys \<Rightarrow> 'a chan_sys \<Rightarrow> bool" where
  send: "sender s = SReady \<Longrightarrow> tx_send v (chan s) = Some c \<Longrightarrow>
     chan_step s (s\<lparr>chan := c, sender := SQueued, sent := sent s @ [v]\<rparr>)"
| notify: "sender s = SQueued \<Longrightarrow>
     chan_step s (s\<lparr>chan := chan_notify (chan s), sender := SReady\<rparr>)"
| hang_up: "sender s = SReady \<Longrightarrow>
     chan_step s (s\<lparr>chan := (chan s)\<lparr>sender_gone := True\<rparr>, sender := SGone\<rparr>)"
| wake: "receiver s = RPoll \<Longrightarrow> 0 < wakeups (chan s) \<Longrightarrow>
     chan_step s (s\<lparr>receiver := RTaking\<rparr>)"
| item: "receiver s = RTaking \<Longrightarrow> try_recv (chan s) = (Item x, c) \<Longrightarrow>
     chan_step s (s\<lparr>chan := c, taken := taken s @ [x]\<rparr>)"
| no_item: "receiver s = RTaking \<Longrightarrow> try_recv (chan s) = (Empty, c) \<Longrightarrow>
     chan_step s (s\<lparr>receiver := RReset False\<rparr>)"
| disconnected: "receiver s = RTaking \<Longrightarrow> try_recv (chan s) = (Disconnected, c) \<Longrightarrow>
     chan_step s (s\<lparr>receiver := RReset True\<rparr>)"
| reset: "receiver s = RReset d \<Longrightarrow>
     chan_step s (s\<lparr>chan := chan_reset (chan s), receiver := if d then RReturned else RPoll\<rparr>)"

inductive chan_reachable :: "'a chan_sys \<Rightarrow> bool" where
  start: "chan_reachable chan_start"
| step: "chan_reachable s \<Longrightarrow> chan_step s t \<Longrightarrow> chan_reachable t"

inductive_cases chan_stepE: "chan_step s t"

definition chan_inv :: "'a chan_sys \<Rightarrow> bool" where
  "chan_inv s \<longleftrightarrow> sent s = taken s @ queue (chan s) \<and>
     (sender_gone (chan s) \<longleftrightarrow> sender s = SGone) \<and>
     (receiver s \<in> {RReset True, RReturned} \<longrightarrow> sender s = SGone \<and> queue (chan s) = [])"

lemma chan_inv_step: "chan_step s t \<Longrightarrow> chan_inv s \<Longrightarrow> chan_inv t"
  by (induction rule: chan_step.induct)
    (auto simp: chan_inv_def tx_send_def chan_notify_def chan_reset_def split: list.splits if_splits)

lemma chan_inv_reachable: "chan_reachable s \<Longrightarrow> chan_inv s"
proof (induction rule: chan_reachable.induct)
  case start
  then show ?case by (simp add: chan_inv_def chan_start_def pollable_channel_def)
qed (rule chan_inv_step)

text \<open>A step of the receiver at the poll needs a wakeup.\<close>

definition asleep :: "'a chan_sys \<Rightarrow> bool" where
  "asleep s \<longleftrightarrow> receiver s = RPoll \<and> wakeups (chan s) = 0"

lemma asleep_step: "asleep s \<Longrightarrow> chan_step s t \<Longrightarrow> sender s = SReady \<Longrightarrow> asleep t \<and> taken t = taken s"
  by (erule chan_stepE) (auto simp: asleep_def tx_send_def split: if_splits)

text \<open>
  The race: the second send lands between the receiver's last look at the queue and its reset
  of the eventfd, which takes the wakeup of that send with it.
\<close>

definition chan_at :: "sender_at \<Rightarrow> receiver_at \<Rightarrow> nat \<Rightarrow> 'a list \<Rightarrow> 'a list \<Rightarrow> 'a chan_sys" where
  "chan_at snd_at rcv_at n old new = \<lparr>chan = \<lparr>queue = new, wakeups = n, sender_gone = False, receiver_gone = False\<rparr>,
     sender = snd_at, receiver = rcv_at, sent = old @ new, taken = old\<rparr>"

lemma chan_at_start: "chan_reachable (chan_at SReady RPoll 0 [] [])"
  using chan_reachable.start by (simp add: chan_at_def chan_start_def pollable_channel_def)

lemma chan_at_steps:
  "chan_step (chan_at SReady r n old new) (chan_at SQueued r n old (new @ [v]))"
  "n < 2 ^ 64 - 2 \<Longrightarrow> chan_step (chan_at SQueued r n old new) (chan_at SReady r (Suc n) old new)"
  "0 < n \<Longrightarrow> chan_step (chan_at s RPoll n old new) (chan_at s RTaking n old new)"
  "chan_step (chan_at s RTaking n old (x # new)) (chan_at s RTaking n (old @ [x]) new)"
  "chan_step (chan_at s RTaking n old []) (chan_at s (RReset False) n old [])"
  "chan_step (chan_at s (RReset False) n old new) (chan_at s RPoll 0 old new)"
  using chan_step.send [of "chan_at SReady r n old new" v] chan_step.notify [of "chan_at SQueued r n old new"]
    chan_step.wake [of "chan_at s RPoll n old new"] chan_step.item [of "chan_at s RTaking n old (x # new)"]
    chan_step.no_item [of "chan_at s RTaking n old []"] chan_step.reset [of "chan_at s (RReset False) n old new" False]
  by (simp_all add: chan_at_def tx_send_def chan_notify_def notified_def efd_notify_def chan_reset_def efd_drain_def split: option.splits if_splits)

lemma raced_reachable: "chan_reachable (chan_at SReady RPoll 0 [v] [w])"
proof -
  note then_step = chan_reachable.step
  have sent: "chan_reachable (chan_at SReady r (Suc n) old (new @ [x]))"
    if "chan_reachable (chan_at SReady r n old new)" "n < 2 ^ 64 - 2" for r n old new and x :: 'a
    using then_step [OF then_step [OF that(1) chan_at_steps(1)] chan_at_steps(2) [OF that(2)]] .
  have "chan_reachable (chan_at SReady RPoll 1 [] [v])"
    using sent [OF chan_at_start] by simp
  then have "chan_reachable (chan_at SReady RTaking 1 [] [v])"
    by (rule then_step) (rule chan_at_steps(3), simp)
  then have "chan_reachable (chan_at SReady RTaking 1 ([] @ [v]) [])"
    by (rule then_step) (rule chan_at_steps(4))
  then have "chan_reachable (chan_at SReady (RReset False) 1 [v] [])"
    by (simp add: then_step [OF _ chan_at_steps(5)])
  then have "chan_reachable (chan_at SReady (RReset False) (Suc 1) [v] ([] @ [w]))"
    by (rule sent) simp
  then show ?thesis using then_step [OF _ chan_at_steps(6)] by fastforce
qed

end
