(* ===== verification/Nsw2_Bridge.thy ===== *)
theory Nsw2_Bridge
  imports Nsw2_Init Nsw2_Poll
begin

text \<open>
  \<open>packages/nsw2-service/src/bridge.rs\<close>: the two threads between the controller and the
  virtual gamepad, and the lookup of the controller's hidraw node.

  A turn of a thread's loop is a \<open>prog\<close> over the state both threads share; what its \<open>poll\<close>
  and its reads return is the turn's input.  \<open>service_step\<close> interleaves the turns of the two
  threads; the interleaving inside a \<open>send\<close> or a \<open>drain\<close> is \<open>Nsw2_Poll\<close>'s.
\<close>

section \<open>State\<close>

datatype ff_kind = Rumble "16 word" "16 word" | OtherEffect

text \<open>
  \<open>device_log\<close> holds the batches given to uinput and whether it took them, \<open>ff_replies\<close> the
  answers to effect uploads, both newest first; \<open>reports\<close> what was read from hidraw, oldest
  first.  The set of free effect ids is a \<open>BTreeSet\<close>: an ascending list.
\<close>

record bridge =
  states :: "controller_state channel"
  rumbles :: "rumble_cmd channel"
  shutdown :: nat
  usb_calls :: "usb_call list"
  reports :: "byte list list"
  last_state :: controller_state
  effects :: "16 word \<rightharpoonup> ff_kind"
  available_ids :: "16 word list"
  device_log :: "(input_event list \<times> bool) list"
  ff_replies :: "16 word option list"

type_synonym 'a bridge_prog = "(bridge, message, 'a) prog"

definition MAX_FF_EFFECTS :: nat where
  "MAX_FF_EFFECTS = 16"

text \<open>The state \<open>run\<close> starts both threads in, after the calls the handshake made.\<close>

definition bridge_start :: "usb_call list \<Rightarrow> bridge" where
  "bridge_start cs = \<lparr>states = pollable_channel, rumbles = pollable_channel, shutdown = 0, usb_calls = cs,
     reports = [], last_state = default_state, effects = (\<lambda>_. None),
     available_ids = map word_of_nat [0..<MAX_FF_EFFECTS], device_log = [], ff_replies = []\<rparr>"

section \<open>Force feedback\<close>

text \<open>
  What the kernel asks of the device: an upload carries the id and the kind of the effect, an
  erase its id, and a force-feedback event the id of an effect and a value.
\<close>

datatype ff_event =
    UiUpload "message + 16 word \<times> ff_kind"
  | UiErase "message + 32 word"
  | ForceFeedback "16 word" int
  | OtherEvent

definition STOPPED :: int where
  "STOPPED = 0"

definition PLAYING :: int where
  "PLAYING = 1"

definition insert_id :: "16 word \<Rightarrow> 16 word list \<Rightarrow> 16 word list" where
  "insert_id i ids = (if i \<in> set ids then ids else insort i ids)"

definition send_rumble :: "rumble_cmd \<Rightarrow> unit bridge_prog" where
  "send_rumble cmd = update_state (\<lambda>b. case chan_send cmd (rumbles b) of
     Some c \<Rightarrow> b\<lparr>rumbles := c\<rparr> | None \<Rightarrow> b)"

definition upload :: "ff_kind \<Rightarrow> bridge \<Rightarrow> bridge" where
  "upload kind b = (case available_ids b of
      i # ids \<Rightarrow> b\<lparr>available_ids := ids, ff_replies := Some i # ff_replies b, effects := (effects b)(i \<mapsto> kind)\<rparr>
    | [] \<Rightarrow> b\<lparr>ff_replies := None # ff_replies b\<rparr>)"

definition erase :: "16 word \<Rightarrow> bridge \<Rightarrow> bridge" where
  "erase i b = b\<lparr>effects := (effects b)(i := None), available_ids := insert_id i (available_ids b)\<rparr>"

fun handle_ff :: "ff_event \<Rightarrow> unit bridge_prog" where
  "handle_ff (UiUpload (Inl e)) = fail (Fmt ''process FF upload: {}'' [e])"
| "handle_ff (UiUpload (Inr (_, kind))) = update_state (upload kind)"
| "handle_ff (UiErase (Inl e)) = fail (Fmt ''process FF erase: {}'' [e])"
| "handle_ff (UiErase (Inr i)) = update_state (erase (ucast i))"
| "handle_ff (ForceFeedback i v) =
     (if v = PLAYING then
        bnd (gets effects) (\<lambda>es. case es i of
          Some (Rumble strong weak) \<Rightarrow> send_rumble (Play strong weak)
        | _ \<Rightarrow> ret ())
      else if v = STOPPED then send_rumble Stop
      else ret ())"
| "handle_ff OtherEvent = ret ()"

datatype fetched = Fetched "ff_event list" | FetchWouldBlock | FetchError message

fun process_ff :: "fetched \<Rightarrow> unit bridge_prog" where
  "process_ff FetchWouldBlock = ret ()"
| "process_ff (FetchError e) = fail (Fmt ''vdev.fetch_events: {}'' [e])"
| "process_ff (Fetched events) = each handle_ff events"

section \<open>The main thread\<close>

text \<open>uinput answers a batch of events by its position in the log.\<close>

type_synonym uinput = "nat \<Rightarrow> input_event list \<Rightarrow> message option"

definition emit_state :: "uinput \<Rightarrow> controller_state \<Rightarrow> controller_state \<Rightarrow> unit bridge_prog" where
  "emit_state V state prev =
     (let events = emit_events state prev in
      if events = [] then ret ()
      else (\<lambda>b. let r = V (length (device_log b)) events in
        (case r of None \<Rightarrow> Done () | Some e \<Rightarrow> Failed (Fmt ''emit uinput events: {}'' [e]),
         b\<lparr>device_log := (events, r = None) # device_log b\<rparr>)))"

definition handle_state :: "uinput \<Rightarrow> controller_state \<Rightarrow> unit bridge_prog" where
  "handle_state V state =
     bnd (gets last_state) (\<lambda>prev.
     bnd (ignore (emit_state V state prev)) (\<lambda>_.
     update_state (\<lambda>b. b\<lparr>last_state := state\<rparr>)))"

definition drain_states :: "uinput \<Rightarrow> bool bridge_prog" where
  "drain_states V =
     bnd (gets (\<lambda>b. chan_drain (states b))) (\<lambda>(items, disconnected, c).
     bnd (update_state (\<lambda>b. b\<lparr>states := c\<rparr>)) (\<lambda>_.
     bnd (each (handle_state V) items) (\<lambda>_.
     ret disconnected)))"

text \<open>
  What a poll of the main thread returns: an error, or readiness; an interrupted poll sees
  nothing.  An eventfd is readable when its counter is positive.
\<close>

record main_input =
  m_poll_error :: "message option"
  m_interrupted :: bool
  vdev_ready :: bool
  vdev_events :: fetched

definition main_turn :: "uinput \<Rightarrow> main_input \<Rightarrow> (unit + unit) bridge_prog" where
  "main_turn V i = (case m_poll_error i of
      Some e \<Rightarrow> fail (Fmt ''main_loop poll: {}'' [e])
    | None \<Rightarrow>
        bnd (gets (\<lambda>b. (\<not> m_interrupted i \<and> 0 < wakeups (states b), \<not> m_interrupted i \<and> 0 < shutdown b)))
          (\<lambda>(state_ready, shutdown_ready).
        bnd (if state_ready then drain_states V else ret False) (\<lambda>disconnected.
        if disconnected then ret (Inl ())
        else
          bnd (if \<not> m_interrupted i \<and> vdev_ready i then process_ff (vdev_events i) else ret ()) (\<lambda>_.
          if shutdown_ready then
            bnd (update_state (\<lambda>b. b\<lparr>shutdown := fst (efd_drain (shutdown b))\<rparr>)) (\<lambda>_. ret (Inl ()))
          else ret (Inr ())))))"

section \<open>The HID thread\<close>

datatype read_result = ReadBytes "byte list" | ReadEof | ReadWouldBlock | ReadError message

record hid_input =
  h_poll_error :: "message option"
  h_interrupted :: bool
  raw_readable :: bool
  raw_error :: bool
  raw_reads :: "read_result list"

definition notify_shutdown :: "unit bridge_prog" where
  "notify_shutdown = update_state (\<lambda>b. b\<lparr>shutdown := notified (shutdown b)\<rparr>)"

definition send_state :: "controller_state \<Rightarrow> bool bridge_prog" where
  "send_state state = (\<lambda>b. case chan_send state (states b) of
      Some c \<Rightarrow> (Done True, b\<lparr>states := c\<rparr>)
    | None \<Rightarrow> (Done False, b))"

text \<open>
  The inner loop over reads, \<open>Inl\<close> when the thread returns from it.  An answer list that ends
  is a read that would block.
\<close>

fun read_reports :: "read_result list \<Rightarrow> (unit + unit) bridge_prog" where
  "read_reports [] = ret (Inr ())"
| "read_reports (ReadEof # rs) = ret (Inr ())"
| "read_reports (ReadWouldBlock # rs) = ret (Inr ())"
| "read_reports (ReadError e # rs) = bnd notify_shutdown (\<lambda>_. ret (Inl ()))"
| "read_reports (ReadBytes bs # rs) =
     bnd (update_state (\<lambda>b. b\<lparr>reports := reports b @ [bs]\<rparr>)) (\<lambda>_.
     case parse_report bs of
       Some state \<Rightarrow> bnd (send_state state) (\<lambda>ok.
         if ok then read_reports rs else bnd notify_shutdown (\<lambda>_. ret (Inl ())))
     | None \<Rightarrow> read_reports rs)"

definition on_usb :: "'a usb \<Rightarrow> 'a bridge_prog" where
  "on_usb m = (\<lambda>b. let (r, cs) = m (usb_calls b) in (r, b\<lparr>usb_calls := cs\<rparr>))"

definition write_latest :: "usb_env \<Rightarrow> byte \<Rightarrow> unit bridge_prog" where
  "write_latest U bulk_out =
     bnd (gets (\<lambda>b. chan_drain (rumbles b))) (\<lambda>(cmds, _, c).
     bnd (update_state (\<lambda>b. b\<lparr>rumbles := c\<rparr>)) (\<lambda>_.
     if cmds = [] then ret ()
     else map_err (\<lambda>e. Fmt ''write rumble bulk frame: {}'' [e])
            (on_usb (usb_do U (WriteBulk bulk_out (command_frame (last cmds)))))))"

definition hid_turn :: "usb_env \<Rightarrow> byte \<Rightarrow> hid_input \<Rightarrow> (unit + unit) bridge_prog" where
  "hid_turn U bulk_out i = (case h_poll_error i of
      Some e \<Rightarrow> fail (Fmt ''hid_loop poll: {}'' [e])
    | None \<Rightarrow>
        bnd (gets (\<lambda>b. \<not> h_interrupted i \<and> 0 < wakeups (rumbles b))) (\<lambda>rumble_ready.
        bnd (if rumble_ready then write_latest U bulk_out else ret ()) (\<lambda>_.
        if \<not> h_interrupted i \<and> raw_error i then bnd notify_shutdown (\<lambda>_. ret (Inl ()))
        else if \<not> h_interrupted i \<and> raw_readable i then read_reports (raw_reads i)
        else ret (Inr ()))))"

section \<open>The service\<close>

text \<open>What a thread drops when it ends.\<close>

definition hid_exit :: "usb_env \<Rightarrow> byte \<Rightarrow> bridge \<Rightarrow> bridge" where
  "hid_exit U bulk_out b =
     snd (on_usb (drop_channel U bulk_out)
       (b\<lparr>states := (states b)\<lparr>sender_gone := True\<rparr>, rumbles := (rumbles b)\<lparr>receiver_gone := True\<rparr>\<rparr>))"

definition main_exit :: "bridge \<Rightarrow> bridge" where
  "main_exit b = b\<lparr>states := (states b)\<lparr>receiver_gone := True\<rparr>, rumbles := (rumbles b)\<lparr>sender_gone := True\<rparr>\<rparr>"

text \<open>\<open>run\<close>'s result from the results of the two threads.\<close>

fun run_result :: "message + unit \<Rightarrow> message + unit \<Rightarrow> message + unit" where
  "run_result (Inl e) _ = Inl e"
| "run_result (Inr ()) (Inl e) = Inl e"
| "run_result (Inr ()) (Inr ()) = Inr ()"

record service =
  world :: bridge
  hid_end :: "(message + unit) option"
  main_end :: "(message + unit) option"

text \<open>A poll returns when it failed, was interrupted, or one of its descriptors is ready.\<close>

definition hid_wakes :: "bridge \<Rightarrow> hid_input \<Rightarrow> bool" where
  "hid_wakes b i \<longleftrightarrow> h_poll_error i \<noteq> None \<or> h_interrupted i \<or> raw_readable i \<or> raw_error i \<or> 0 < wakeups (rumbles b)"

definition main_wakes :: "bridge \<Rightarrow> main_input \<Rightarrow> bool" where
  "main_wakes b i \<longleftrightarrow> m_poll_error i \<noteq> None \<or> m_interrupted i \<or> vdev_ready i \<or> 0 < wakeups (states b) \<or> 0 < shutdown b"

inductive service_step :: "usb_env \<Rightarrow> byte \<Rightarrow> uinput \<Rightarrow> service \<Rightarrow> service \<Rightarrow> bool" for U bulk_out V where
  hid_goes_on: "hid_end s = None \<Longrightarrow> hid_wakes (world s) i \<Longrightarrow>
     hid_turn U bulk_out i (world s) = (Done (Inr ()), b) \<Longrightarrow> service_step U bulk_out V s (s\<lparr>world := b\<rparr>)"
| hid_returns: "hid_end s = None \<Longrightarrow> hid_wakes (world s) i \<Longrightarrow>
     hid_turn U bulk_out i (world s) = (Done (Inl ()), b) \<Longrightarrow>
     service_step U bulk_out V s (s\<lparr>world := hid_exit U bulk_out b, hid_end := Some (Inr ())\<rparr>)"
| hid_fails: "hid_end s = None \<Longrightarrow> hid_wakes (world s) i \<Longrightarrow>
     hid_turn U bulk_out i (world s) = (Failed e, b) \<Longrightarrow>
     service_step U bulk_out V s (s\<lparr>world := hid_exit U bulk_out b, hid_end := Some (Inl e)\<rparr>)"
| main_goes_on: "main_end s = None \<Longrightarrow> main_wakes (world s) j \<Longrightarrow>
     main_turn V j (world s) = (Done (Inr ()), b) \<Longrightarrow> service_step U bulk_out V s (s\<lparr>world := b\<rparr>)"
| main_returns: "main_end s = None \<Longrightarrow> main_wakes (world s) j \<Longrightarrow>
     main_turn V j (world s) = (Done (Inl ()), b) \<Longrightarrow>
     service_step U bulk_out V s (s\<lparr>world := main_exit b, main_end := Some (Inr ())\<rparr>)"
| main_fails: "main_end s = None \<Longrightarrow> main_wakes (world s) j \<Longrightarrow>
     main_turn V j (world s) = (Failed e, b) \<Longrightarrow>
     service_step U bulk_out V s (s\<lparr>world := main_exit b, main_end := Some (Inl e)\<rparr>)"

inductive service_reachable :: "usb_env \<Rightarrow> byte \<Rightarrow> uinput \<Rightarrow> usb_call list \<Rightarrow> service \<Rightarrow> bool"
  for U bulk_out V cs where
  start: "service_reachable U bulk_out V cs \<lparr>world = bridge_start cs, hid_end = None, main_end = None\<rparr>"
| step: "service_reachable U bulk_out V cs s \<Longrightarrow> service_step U bulk_out V s t \<Longrightarrow> service_reachable U bulk_out V cs t"

inductive_cases service_stepE: "service_step U bulk_out V s t"

section \<open>The hidraw node\<close>

text \<open>A scan of the HID devices: vendor, product and path of each, and whether the deadline had passed.\<close>

type_synonym hid_scan = "(16 word \<times> 16 word \<times> rstr) list \<times> bool"

fun find_hidraw_path :: "hid_scan list \<Rightarrow> (message + rstr) option" where
  "find_hidraw_path [] = None"
| "find_hidraw_path ((ds, expired) # scans) =
     (case find (\<lambda>(v, p, _). v = VENDOR_ID \<and> p = PRODUCT_ID) ds of
        Some (_, _, path) \<Rightarrow> Some (Inr path)
      | None \<Rightarrow> if expired then Some (Inl (lit ''could not find HID device 057E:2073 within 3s''))
                else find_hidraw_path scans)"

text \<open>
  sysfs, as far as it is read: links resolved to their components, the outermost last, and
  the contents of files by the components of their path.
\<close>

record sysfs =
  canonicalize :: "rstr \<Rightarrow> rstr list option"
  sysfs_file :: "rstr list \<Rightarrow> rstr option option"

fun usb_ids_above :: "sysfs \<Rightarrow> rstr list \<Rightarrow> (byte \<times> byte) option" where
  "usb_ids_above F [] = None"
| "usb_ids_above F (_ # parent) =
     (case (sysfs_file F (str ''busnum'' # parent), sysfs_file F (str ''devnum'' # parent)) of
        (Some bus, Some dev) \<Rightarrow>
          (case map_option (parse_uint 255 \<circ> trim) bus of
             Some (Some b) \<Rightarrow>
               (case map_option (parse_uint 255 \<circ> trim) dev of
                  Some (Some d) \<Rightarrow> Some (word_of_nat b, word_of_nat d)
                | _ \<Rightarrow> None)
           | _ \<Rightarrow> None)
      | _ \<Rightarrow> usb_ids_above F parent)"

definition get_hidraw_usb_ids :: "sysfs \<Rightarrow> rstr \<Rightarrow> (byte \<times> byte) option" where
  "get_hidraw_usb_ids F hidraw_name =
     (case canonicalize F (str ''/sys/class/hidraw/'' @ hidraw_name @ str ''/device'') of
        None \<Rightarrow> None
      | Some resolved \<Rightarrow> usb_ids_above F resolved)"

fun find_specific_hidraw_path :: "sysfs \<Rightarrow> (rstr \<Rightarrow> rstr option) \<Rightarrow> byte \<times> byte \<Rightarrow> hid_scan list \<Rightarrow>
    (message + rstr) option" where
  "find_specific_hidraw_path F file_name target [] = None"
| "find_specific_hidraw_path F file_name target ((ds, expired) # scans) =
     (case find (\<lambda>(v, p, path). v = VENDOR_ID \<and> p = PRODUCT_ID \<and>
              Option.bind (file_name path) (get_hidraw_usb_ids F) = Some target) ds of
        Some (_, _, path) \<Rightarrow> Some (Inr path)
      | None \<Rightarrow> if expired then Some (Inl (Fmt ''could not find HID device 057E:2073 at USB {}:{} within 3s''
                    [Num (unat (fst target)), Num (unat (snd target))]))
                else find_specific_hidraw_path F file_name target scans)"

end
