(* ===== verification/Nsw2_Claims.thy ===== *)
theory Nsw2_Claims
  imports Nsw2_Bridge
begin

text \<open>
  The properties of nsw2-service.  \<open>path_inv\<close> follows the input reports through the channel to
  the virtual gamepad, \<open>ff_inv\<close> keeps the ids of the force-feedback effects; both hold in every
  reachable state of the two threads.
\<close>

section \<open>The path of the input\<close>

text \<open>What the gamepad shows after the batches uinput took.\<close>

fun shown :: "(input_event list \<times> bool) list \<Rightarrow> device_view" where
  "shown [] = view_of default_state"
| "shown ((es, ok) # batches) = (if ok then fold apply_event es (shown batches) else shown batches)"

definition view_inv :: "controller_state \<Rightarrow> (input_event list \<times> bool) list \<Rightarrow> bool" where
  "view_inv l batches \<longleftrightarrow> (list_all snd batches \<longrightarrow> shown batches = view_of l)"

definition path_inv :: "bridge \<Rightarrow> bool" where
  "path_inv b \<longleftrightarrow> view_inv (last_state b) (device_log b) \<and>
     (receiver_gone (states b) \<or>
      (\<exists>handled. List.map_filter parse_report (reports b) = handled @ queue (states b) \<and>
         last_state b = last (default_state # handled)))"

lemma handle_state_eff:
  obtains batches where "handle_state V st b = (Done (), b\<lparr>last_state := st, device_log := batches\<rparr>)"
    and "view_inv (last_state b) (device_log b) \<Longrightarrow> view_inv st batches"
proof (cases "emit_events st (last_state b) = []")
  case True
  show ?thesis
  proof
    show "handle_state V st b = (Done (), b\<lparr>last_state := st, device_log := device_log b\<rparr>)"
      by (simp add: handle_state_def emit_state_def True bnd_def gets_def ignore_def attempt_def ret_def update_state_def)
    show "view_inv st (device_log b)" if "view_inv (last_state b) (device_log b)"
      using that emit_events_view [of st "last_state b"] True by (simp add: view_inv_def)
  qed
next
  case False
  let ?es = "emit_events st (last_state b)"
  let ?ok = "V (length (device_log b)) ?es = None"
  show ?thesis
  proof
    show "handle_state V st b = (Done (), b\<lparr>last_state := st, device_log := (?es, ?ok) # device_log b\<rparr>)"
      using False
      by (cases "V (length (device_log b)) ?es")
        (simp_all add: handle_state_def emit_state_def bnd_def gets_def ignore_def attempt_def ret_def
          update_state_def Let_def)
    show "view_inv st ((?es, ?ok) # device_log b)" if "view_inv (last_state b) (device_log b)"
      using that emit_events_view [of st "last_state b"] by (simp add: view_inv_def)
  qed
qed

lemma each_handle_state:
  "\<exists>batches. each (handle_state V) sts b = (Done (), b\<lparr>last_state := last (last_state b # sts), device_log := batches\<rparr>) \<and>
     (view_inv (last_state b) (device_log b) \<longrightarrow> view_inv (last (last_state b # sts)) batches)"
proof (induction sts arbitrary: b)
  case Nil
  then show ?case by (auto simp: ret_def intro: exI [of _ "device_log b"])
next
  case (Cons st sts)
  obtain batches where batches: "handle_state V st b = (Done (), b\<lparr>last_state := st, device_log := batches\<rparr>)"
    "view_inv (last_state b) (device_log b) \<Longrightarrow> view_inv st batches"
    by (rule handle_state_eff [where V = V and st = st and b = b]) blast
  let ?b = "b\<lparr>last_state := st, device_log := batches\<rparr>"
  obtain batches' where "each (handle_state V) sts ?b = (Done (), ?b\<lparr>last_state := last (st # sts), device_log := batches'\<rparr>)"
    "view_inv st batches \<Longrightarrow> view_inv (last (st # sts)) batches'"
    using Cons.IH [of ?b] by auto
  with batches show ?case by (intro exI [of _ batches']) (simp add: bnd_def)
qed

lemma drain_states_eff:
  "\<exists>batches. drain_states V b = (Done (sender_gone (states b)),
       b\<lparr>states := (states b)\<lparr>queue := [], wakeups := 0\<rparr>,
         last_state := last (last_state b # queue (states b)), device_log := batches\<rparr>) \<and>
     (view_inv (last_state b) (device_log b) \<longrightarrow> view_inv (last (last_state b # queue (states b))) batches)"
  using each_handle_state [of V "queue (states b)" "b\<lparr>states := (states b)\<lparr>queue := [], wakeups := 0\<rparr>\<rparr>"]
  by (auto simp: drain_states_def bnd_def gets_def update_state_def ret_def chan_drain_eq simp del: last.simps)

lemma path_inv_drain: "path_inv b \<Longrightarrow> path_inv (snd (drain_states V b))"
proof -
  assume inv: "path_inv b"
  obtain batches where eff: "drain_states V b = (Done (sender_gone (states b)),
       b\<lparr>states := (states b)\<lparr>queue := [], wakeups := 0\<rparr>,
         last_state := last (last_state b # queue (states b)), device_log := batches\<rparr>)"
    and view: "view_inv (last_state b) (device_log b) \<longrightarrow> view_inv (last (last_state b # queue (states b))) batches"
    using drain_states_eff by blast
  show ?thesis
  proof (cases "receiver_gone (states b)")
    case False
    with inv obtain handled where h: "List.map_filter parse_report (reports b) = handled @ queue (states b)"
      "last_state b = last (default_state # handled)"
      by (auto simp: path_inv_def)
    have "last (last_state b # queue (states b)) = last (default_state # handled @ queue (states b))"
      by (simp add: h(2))
    with inv view h show ?thesis
      by (simp add: eff path_inv_def del: last.simps)
  qed (use inv view in \<open>simp add: eff path_inv_def del: last.simps\<close>)
qed

lemma map_filter_snoc:
  "List.map_filter f (xs @ [x]) = List.map_filter f xs @ (case f x of None \<Rightarrow> [] | Some y \<Rightarrow> [y])"
  by (simp add: List.map_filter_def split: option.split)

lemma path_inv_send:
  assumes "path_inv b" and "parse_report bs = Some st"
  shows "path_inv (snd (send_state st (b\<lparr>reports := reports b @ [bs]\<rparr>)))"
proof (cases "receiver_gone (states b)")
  case True
  with assms show ?thesis by (simp add: path_inv_def send_state_def chan_send_def tx_send_def)
next
  case False
  with assms obtain handled where "List.map_filter parse_report (reports b) = handled @ queue (states b)"
    "last_state b = last (default_state # handled)"
    by (auto simp: path_inv_def)
  with assms False show ?thesis
    by (simp add: path_inv_def send_state_def chan_send_def chan_notify_def tx_send_def map_filter_snoc)
qed

section \<open>Invariants of the turns\<close>

text \<open>
  What a property of the shared state has to survive for the main thread's work to keep it, and
  what more for whole turns of both threads.
\<close>

locale work_invariant =
  fixes V :: uinput and I :: "bridge \<Rightarrow> bool"
  assumes drained: "I b \<Longrightarrow> I (snd (drain_states V b))"
    and rumbled: "I b \<Longrightarrow> sender_gone c = sender_gone (rumbles b) \<Longrightarrow>
      receiver_gone c = receiver_gone (rumbles b) \<Longrightarrow> I (b\<lparr>rumbles := c\<rparr>)"
    and uploaded: "I b \<Longrightarrow> I (upload kind b)"
    and erased: "I b \<Longrightarrow> I (erase i b)"
begin

lemma keeps_drain: "keeps I (drain_states V)"
  by (simp add: keeps_def drained)

lemma keeps_send_rumble: "keeps I (send_rumble cmd)"
  by (auto simp: keeps_def send_rumble_def update_state_def chan_send_def chan_notify_def tx_send_def
      split: option.splits intro: rumbled)

lemma keeps_handle_ff: "keeps I (handle_ff ev)"
proof (cases ev rule: handle_ff.cases)
  case (5 i v)
  then show ?thesis
    by (auto intro!: keeps_intros keeps_send_rumble split: option.splits ff_kind.splits)
qed (auto simp: keeps_def update_state_def ret_def fail_def uploaded erased)

lemma keeps_process_ff: "keeps I (process_ff f)"
  by (cases f) (auto intro!: keeps_intros keeps_handle_ff)

end

locale turn_invariant = work_invariant +
  assumes dropped: "I b \<Longrightarrow> parse_report bs = None \<Longrightarrow> I (b\<lparr>reports := reports b @ [bs]\<rparr>)"
    and passed: "I b \<Longrightarrow> parse_report bs = Some st \<Longrightarrow>
      I (snd (send_state st (b\<lparr>reports := reports b @ [bs]\<rparr>)))"
    and called: "I b \<Longrightarrow> I (b\<lparr>usb_calls := cs\<rparr>)"
    and announced: "I b \<Longrightarrow> I (b\<lparr>shutdown := n\<rparr>)"
begin

lemma keeps_main_turn: "keeps I (main_turn V i)"
proof -
  have "keeps I (update_state (\<lambda>b. b\<lparr>shutdown := fst (efd_drain (shutdown b))\<rparr>))"
    by (simp add: keeps_def update_state_def announced)
  then show ?thesis
    unfolding main_turn_def
    by (auto intro!: keeps_intros keeps_drain keeps_process_ff split: option.splits)
qed

lemma keeps_notify: "keeps I (bnd notify_shutdown (\<lambda>_. ret (Inl () :: unit + unit)))"
  by (simp add: keeps_def notify_shutdown_def bnd_def ret_def update_state_def announced)

lemma keeps_reads: "I b \<Longrightarrow> I (snd (read_reports rs b))"
proof (induction rs arbitrary: b rule: read_reports.induct)
  case (4 e rs)
  then show ?case using keeps_notify by (simp add: keeps_def)
next
  case (5 bs rs)
  let ?b = "b\<lparr>reports := reports b @ [bs]\<rparr>"
  show ?case
  proof (cases "parse_report bs")
    case None
    then have "I ?b" using 5 by (simp add: dropped)
    then show ?thesis using 5 None by (simp add: bnd_def update_state_def)
  next
    case (Some st)
    obtain ok b' where sent: "send_state st ?b = (Done ok, b')"
      by (cases "chan_send st (states ?b)") (auto simp: send_state_def)
    then have inv: "I b'" using passed [OF 5(3) Some] by simp
    have "read_reports (ReadBytes bs # rs) b =
        (if ok then read_reports rs b' else bnd notify_shutdown (\<lambda>_. ret (Inl ())) b')"
      by (simp add: Some bnd_def update_state_def sent)
    then show ?thesis using inv 5(2) [OF Some] keeps_notify by (simp add: keeps_def)
  qed
qed (simp_all add: ret_def)

lemma keeps_on_usb: "keeps I (on_usb m)"
  by (auto simp: keeps_def on_usb_def called split: prod.split)

lemma keeps_write_latest: "keeps I (write_latest U out)"
proof (rule wp_keeps)
  fix b assume I: "I b"
  have "I (b\<lparr>rumbles := (rumbles b)\<lparr>queue := [], wakeups := 0\<rparr>\<rparr>)" using I by (rule rumbled) simp_all
  then show "wp (write_latest U out) (\<lambda>_. I) I b"
    by (auto simp: write_latest_def wp_simps chan_drain_eq intro!: keeps_wp keeps_map_err keeps_on_usb)
qed

lemma keeps_hid_turn: "keeps I (hid_turn U out i)"
proof -
  have "keeps I (read_reports rs)" for rs by (simp add: keeps_def keeps_reads)
  then show ?thesis
    unfolding hid_turn_def
    by (auto intro!: keeps_intros keeps_write_latest keeps_notify split: option.splits)
qed

lemma hid_exit_kept:
  assumes "I b" and "\<And>b. I b \<Longrightarrow>
      I (b\<lparr>states := (states b)\<lparr>sender_gone := True\<rparr>, rumbles := (rumbles b)\<lparr>receiver_gone := True\<rparr>\<rparr>)"
  shows "I (hid_exit U out b)"
  using assms keeps_on_usb [of "drop_channel U out"] by (simp add: hid_exit_def keeps_def)

end

interpretation path: turn_invariant V path_inv for V
proof unfold_locales
  show "path_inv (upload kind b)" if "path_inv b" for kind b
    using that by (cases "available_ids b") (simp_all add: upload_def path_inv_def del: last.simps)
  show "path_inv (snd (send_state st (b\<lparr>reports := reports b @ [bs]\<rparr>)))"
    if "path_inv b" "parse_report bs = Some st" for st b bs
    using that by (rule path_inv_send)
  show "path_inv (b\<lparr>reports := reports b @ [bs]\<rparr>)" if "path_inv b" "parse_report bs = None" for b bs
    using that by (simp add: path_inv_def map_filter_snoc)
qed (simp_all add: path_inv_drain, simp_all add: path_inv_def erase_def)

section \<open>Effect ids\<close>

definition ff_inv :: "bridge \<Rightarrow> bool" where
  "ff_inv b \<longleftrightarrow> sorted (available_ids b) \<and> distinct (available_ids b) \<and>
     dom (effects b) \<inter> set (available_ids b) = {} \<and> {i. i < 16} \<subseteq> dom (effects b) \<union> set (available_ids b)"

lemma ff_inv_drain: "ff_inv b \<Longrightarrow> ff_inv (snd (drain_states V b))"
  using drain_states_eff [of V b] by (elim exE conjE) (simp add: ff_inv_def)

interpretation ff: turn_invariant V ff_inv for V
proof unfold_locales
  show "ff_inv (snd (drain_states V b))" if "ff_inv b" for V b using that by (rule ff_inv_drain)
  show "ff_inv (upload kind b)" if "ff_inv b" for kind b
    using that by (cases "available_ids b") (auto simp: upload_def ff_inv_def)
  show "ff_inv (erase i b)" if "ff_inv b" for i b
    using that by (auto simp: erase_def ff_inv_def insert_id_def set_insort_key distinct_insort sorted_insort)
  show "ff_inv (snd (send_state st (b\<lparr>reports := reports b @ [bs]\<rparr>)))" if "ff_inv b" for st b bs
    using that by (auto simp: ff_inv_def send_state_def split: option.split)
qed (simp_all add: ff_inv_def)

section \<open>The ends of the threads\<close>

interpretation listening: turn_invariant V "\<lambda>b. \<not> receiver_gone (states b)" for V
proof unfold_locales
  show "\<not> receiver_gone (states (snd (drain_states V b)))" if "\<not> receiver_gone (states b)" for V b
    using that drain_states_eff [of V b] by auto
  show "\<not> receiver_gone (states (upload kind b))" if "\<not> receiver_gone (states b)" for kind b
    using that by (simp add: upload_def split: list.split)
  show "\<not> receiver_gone (states (snd (send_state st (b\<lparr>reports := reports b @ [bs]\<rparr>))))"
    if "\<not> receiver_gone (states b)" for st b bs
    using that by (simp add: send_state_def chan_send_def tx_send_def chan_notify_def)
qed (simp_all add: erase_def)

interpretation quiet: work_invariant V "\<lambda>b. shutdown b = n" for V n
proof unfold_locales
  show "shutdown (snd (drain_states V b)) = n" if "shutdown b = n" for V b
    using that drain_states_eff [of V b] by auto
  show "shutdown (upload kind b) = n" if "shutdown b = n" for kind b
    using that by (simp add: upload_def split: list.split)
qed (simp_all add: erase_def)

lemma wp_send_state [wp_simps]:
  "wp (send_state st) Q E b = (case chan_send st (states b) of
     Some c \<Rightarrow> Q True (b\<lparr>states := c\<rparr>) | None \<Rightarrow> Q False b)"
  by (simp add: wp_def send_state_def split: option.split)

lemma wp_option [wp_simps]:
  "wp (case x of None \<Rightarrow> m | Some a \<Rightarrow> f a) Q E s = (case x of None \<Rightarrow> wp m Q E s | Some a \<Rightarrow> wp (f a) Q E s)"
  by (cases x) simp_all

lemma reads_return: "wp (read_reports rs) (\<lambda>r b'. r = Inl () \<longrightarrow> 0 < shutdown b') (\<lambda>_. True) b"
  by (induction rs arbitrary: b rule: read_reports.induct)
    (auto simp: wp_simps notify_shutdown_def split: option.split)

lemma hid_turn_returns:
  assumes "hid_turn U out i b = (Done (Inl ()), b')" shows "0 < shutdown b'"
proof -
  have "wp m (\<lambda>_ _. True) (\<lambda>_. True) b" for m :: "unit bridge_prog" and b
    by (simp add: wp_def split: prod.split outcome.split)
  note first = wp_seq [where A = "\<lambda>_. True", OF this]
  have "wp (hid_turn U out i) (\<lambda>r b'. r = Inl () \<longrightarrow> 0 < shutdown b') (\<lambda>_. True) b"
  proof (cases "h_poll_error i")
    case None
    show ?thesis
      unfolding hid_turn_def None option.case wp_bnd [of "gets _"] wp_gets
      by (rule first) (simp add: wp_simps notify_shutdown_def reads_return)
  qed (simp add: hid_turn_def wp_simps)
  then show ?thesis using assms by (simp add: wp_def)
qed

lemma main_turn_goes_on:
  assumes "main_turn V j b = (Done (Inr ()), b')" shows "shutdown b' = shutdown b"
proof -
  define n where "n = shutdown b"
  have ff: "wp (process_ff f) (\<lambda>_ b'. shutdown b' = n) (\<lambda>_. True) b" if "shutdown b = n" for f b
    by (rule wp_mono [OF keeps_wp [OF quiet.keeps_process_ff that]]) simp_all
  have rest: "wp (if d then ret (Inl ())
      else bnd (if \<not> m_interrupted j \<and> vdev_ready j then process_ff (vdev_events j) else ret ()) (\<lambda>_.
        if down then bnd (update_state (\<lambda>b. b\<lparr>shutdown := fst (efd_drain (shutdown b))\<rparr>)) (\<lambda>_. ret (Inl ()))
        else ret (Inr ())))
      (\<lambda>r b'. r = Inr () \<longrightarrow> shutdown b' = n) (\<lambda>_. True) b" if "shutdown b = n" for d down b
    using that by (auto simp: wp_simps intro: wp_mono [OF ff])
  have drain: "wp (if c then drain_states V else ret False) (\<lambda>_ b. shutdown b = n) (\<lambda>_. True) b" for c
    using wp_mono [OF keeps_wp [OF quiet.keeps_drain [of n V], of b]] by (simp add: wp_simps n_def)
  have "wp (main_turn V j) (\<lambda>r b'. r = Inr () \<longrightarrow> shutdown b' = n) (\<lambda>_. True) b"
  proof (cases "m_poll_error j")
    case None
    show ?thesis
      unfolding main_turn_def None option.case wp_bnd [of "gets _"] wp_gets prod.case
      by (rule wp_seq [OF drain rest])
  qed (simp add: main_turn_def wp_simps)
  then show ?thesis using assms by (simp add: wp_def n_def)
qed

definition service_inv :: "service \<Rightarrow> bool" where
  "service_inv s \<longleftrightarrow> path_inv (world s) \<and> ff_inv (world s) \<and>
     (main_end s = None \<longrightarrow> \<not> receiver_gone (states (world s)) \<and>
        (hid_end s = Some (Inr ()) \<longrightarrow> 0 < shutdown (world s)))"

lemma exits:
  "path_inv b \<Longrightarrow> path_inv (hid_exit U out b)" "ff_inv b \<Longrightarrow> ff_inv (hid_exit U out b)"
  "\<not> receiver_gone (states b) \<Longrightarrow> \<not> receiver_gone (states (hid_exit U out b))"
  "shutdown (hid_exit U out b) = shutdown b"
  "path_inv b \<Longrightarrow> path_inv (main_exit b)" "ff_inv b \<Longrightarrow> ff_inv (main_exit b)"
  by (simp_all add: path_inv_def ff_inv_def hid_exit_def main_exit_def on_usb_def del: last.simps split: prod.split)

lemma service_inv_step: "service_step U out V s t \<Longrightarrow> service_inv s \<Longrightarrow> service_inv t"
proof (induction rule: service_step.induct)
  case (hid_goes_on s i b)
  then show ?case
    using keepsD [OF path.keeps_hid_turn] keepsD [OF ff.keeps_hid_turn] keepsD [OF listening.keeps_hid_turn]
    by (auto simp: service_inv_def)
next
  case (hid_returns s i b)
  then show ?case
    using keepsD [OF path.keeps_hid_turn] keepsD [OF ff.keeps_hid_turn] keepsD [OF listening.keeps_hid_turn]
      hid_turn_returns
    by (fastforce simp: service_inv_def exits)
next
  case (hid_fails s i e b)
  then show ?case
    using keepsD [OF path.keeps_hid_turn] keepsD [OF ff.keeps_hid_turn] keepsD [OF listening.keeps_hid_turn]
    by (auto simp: service_inv_def exits)
next
  case (main_goes_on s j b)
  then show ?case
    using keepsD [OF path.keeps_main_turn] keepsD [OF ff.keeps_main_turn] keepsD [OF listening.keeps_main_turn]
      main_turn_goes_on
    by (fastforce simp: service_inv_def)
qed (use keepsD [OF path.keeps_main_turn] keepsD [OF ff.keeps_main_turn] in \<open>auto simp: service_inv_def exits\<close>)

lemma all_ids_free: "{i. i < 16} \<subseteq> set (map word_of_nat [0..<MAX_FF_EFFECTS] :: 16 word list)"
proof
  fix i :: "16 word" assume "i \<in> {i. i < 16}"
  then have "unat i \<in> set [0..<MAX_FF_EFFECTS]" by (simp add: word_less_nat_alt MAX_FF_EFFECTS_def)
  then have "word_of_nat (unat i) \<in> set (map word_of_nat [0..<MAX_FF_EFFECTS] :: 16 word list)"
    unfolding set_map by (rule imageI)
  then show "i \<in> set (map word_of_nat [0..<MAX_FF_EFFECTS])" by simp
qed

lemma service_inv_start: "service_inv \<lparr>world = bridge_start cs, hid_end = None, main_end = None\<rparr>"
proof -
  have "ff_inv (bridge_start cs)"
    using all_ids_free by (simp add: ff_inv_def bridge_start_def) (simp add: MAX_FF_EFFECTS_def upt_rec)
  then show ?thesis
    by (simp add: service_inv_def path_inv_def view_inv_def bridge_start_def pollable_channel_def List.map_filter_def)
qed

lemma service_inv: "service_reachable U out V cs s \<Longrightarrow> service_inv s"
  by (induction rule: service_reachable.induct) (blast intro: service_inv_start service_inv_step)+

section \<open>The main thread without the HID thread\<close>

definition stranded :: "service \<Rightarrow> bool" where
  "stranded s \<longleftrightarrow> (\<exists>e. hid_end s = Some (Inl e)) \<and> main_end s = None \<and>
     wakeups (states (world s)) = 0 \<and> shutdown (world s) = 0"

interpretation still: work_invariant V "\<lambda>b. wakeups (states b) = 0 \<and> shutdown b = 0" for V
proof unfold_locales
  show "wakeups (states (snd (drain_states V b))) = 0 \<and> shutdown (snd (drain_states V b)) = 0"
    if "wakeups (states b) = 0 \<and> shutdown b = 0" for V b
    using that drain_states_eff [of V b] by auto
  show "wakeups (states (upload kind b)) = 0 \<and> shutdown (upload kind b) = 0"
    if "wakeups (states b) = 0 \<and> shutdown b = 0" for kind b
    using that by (simp add: upload_def split: list.split)
qed (simp_all add: erase_def)

lemma main_turn_still:
  assumes "wakeups (states b) = 0" and "shutdown b = 0" and "main_turn V j b = (r, b')"
  shows "wakeups (states b') = 0 \<and> shutdown b' = 0 \<and> r \<noteq> Done (Inl ())"
proof -
  have ff: "wp (process_ff f) (\<lambda>_ b'. wakeups (states b') = 0 \<and> shutdown b' = 0)
      (\<lambda>b'. wakeups (states b') = 0 \<and> shutdown b' = 0) b" for f
    using keeps_wp [OF still.keeps_process_ff] assms by blast
  have "wp (main_turn V j) (\<lambda>r b'. wakeups (states b') = 0 \<and> shutdown b' = 0 \<and> r \<noteq> Inl ())
      (\<lambda>b'. wakeups (states b') = 0 \<and> shutdown b' = 0) b"
    unfolding main_turn_def using assms
    by (auto simp: wp_simps split: option.split intro: wp_mono [OF ff])
  then show ?thesis using assms(3) by (auto simp: wp_def split: outcome.splits)
qed

lemma stranded_step: "service_step U out V s t \<Longrightarrow> stranded s \<Longrightarrow> stranded t \<or> (\<exists>e. main_end t = Some (Inl e))"
proof (induction rule: service_step.induct)
  case (main_goes_on s j b)
  then show ?case using main_turn_still [of "world s" V j _ b] by (simp add: stranded_def)
next
  case (main_returns s j b)
  then show ?case using main_turn_still [of "world s" V j _ b] by (simp add: stranded_def)
qed (simp_all add: stranded_def)

section \<open>The handshake\<close>

text \<open>The bulk writes of a list of calls, oldest first.\<close>

definition bulk_writes :: "usb_call list \<Rightarrow> (byte \<times> byte list) list" where
  "bulk_writes cs = List.map_filter (\<lambda>c. case c of WriteBulk a bs \<Rightarrow> Some (a, bs) | _ \<Rightarrow> None) (rev cs)"

lemma bulk_writes_Cons: "bulk_writes (c # cs) =
    bulk_writes cs @ (case c of WriteBulk a bs \<Rightarrow> [(a, bs)] | _ \<Rightarrow> [])"
  by (simp add: bulk_writes_def map_filter_snoc split: usb_call.split)

lemma wp_usb_do [wp_simps]:
  "wp (usb_do U c) Q E cs = (case usb_error U (length cs) c of None \<Rightarrow> Q () (c # cs) | Some e \<Rightarrow> E (c # cs))"
  by (simp add: wp_def usb_do_def split: option.split)

lemma send_packet_writes:
  "wp (send_packet U eps p) (\<lambda>_ cs'. bulk_writes cs' = bulk_writes cs @ [(fst eps, p)])
     (\<lambda>cs'. bulk_writes cs' = bulk_writes cs @ [(fst eps, p)]) cs"
proof -
  have read: "wp (case snd eps of Some a \<Rightarrow> ignore (usb_do U (ReadBulk a)) | None \<Rightarrow> ret ())
      (\<lambda>_ cs'. bulk_writes cs' = ws) (\<lambda>cs'. bulk_writes cs' = ws) cs'" if "bulk_writes cs' = ws" for ws cs'
    using that by (auto simp: wp_simps bulk_writes_Cons split: option.split intro!: wp_ignore)
  show ?thesis
    unfolding send_packet_def wp_bnd
    by (rule wp_map_err) (simp add: wp_usb_do read bulk_writes_Cons split: option.split)
qed

lemma each_packet_writes:
  "wp (each (send_packet U eps) ps) (\<lambda>_ cs'. bulk_writes cs' = bulk_writes cs @ map (Pair (fst eps)) ps)
     (\<lambda>cs'. \<exists>n\<le>length ps. bulk_writes cs' = bulk_writes cs @ map (Pair (fst eps)) (take n ps)) cs"
proof (induction ps arbitrary: cs)
  case Nil
  then show ?case by (simp add: wp_simps)
next
  case (Cons p ps)
  show ?case
    unfolding each.simps wp_bnd
  proof (rule wp_mono [OF send_packet_writes])
    fix a cs1 assume one: "bulk_writes cs1 = bulk_writes cs @ [(fst eps, p)]"
    show "wp (each (send_packet U eps) ps)
        (\<lambda>_ cs'. bulk_writes cs' = bulk_writes cs @ map (Pair (fst eps)) (p # ps))
        (\<lambda>cs'. \<exists>n\<le>length (p # ps). bulk_writes cs' = bulk_writes cs @ map (Pair (fst eps)) (take n (p # ps))) cs1"
    proof (rule wp_mono [OF Cons.IH])
      fix cs' assume "\<exists>n\<le>length ps. bulk_writes cs' = bulk_writes cs1 @ map (Pair (fst eps)) (take n ps)"
      then obtain n where "n \<le> length ps" "bulk_writes cs' = bulk_writes cs1 @ map (Pair (fst eps)) (take n ps)"
        by blast
      then show "\<exists>n\<le>length (p # ps). bulk_writes cs' = bulk_writes cs @ map (Pair (fst eps)) (take n (p # ps))"
        by (intro exI [of _ "Suc n"]) (simp add: one)
    qed (simp add: one)
  next
    fix cs1 assume "bulk_writes cs1 = bulk_writes cs @ [(fst eps, p)]"
    then show "\<exists>n\<le>length (p # ps). bulk_writes cs1 = bulk_writes cs @ map (Pair (fst eps)) (take n (p # ps))"
      by (intro exI [of _ 1]) simp
  qed
qed

lemma wp_init_run:
  "wp (init_run U target) (\<lambda>out cs. bulk_writes cs = map (Pair out) INIT_SEQUENCE)
     (\<lambda>cs. \<exists>out n. bulk_writes cs = map (Pair out) (take n INIT_SEQUENCE)) []"
proof -
  have none: "\<exists>out n. bulk_writes cs = map (Pair out) (take n INIT_SEQUENCE)" if "bulk_writes cs = []" for cs
    using that by (intro exI [of _ 0]) simp
  have empty: "bulk_writes [] = []" "bulk_writes [OpenUsb a b] = []" "bulk_writes [ClaimInterface i, OpenUsb a b] = []"
    for a b i by (simp_all add: bulk_writes_Cons) (simp_all add: bulk_writes_def)
  have packets: "wp (each (send_packet U (out, ep)) INIT_SEQUENCE)
      (\<lambda>_. wp (ret out) (\<lambda>out cs. bulk_writes cs = map (Pair out) INIT_SEQUENCE)
         (\<lambda>cs. \<exists>out n. bulk_writes cs = map (Pair out) (take n INIT_SEQUENCE)))
      (\<lambda>cs. \<exists>out n. bulk_writes cs = map (Pair out) (take n INIT_SEQUENCE)) [ClaimInterface i, OpenUsb a b]"
    for out ep a b i
    by (rule wp_mono [OF each_packet_writes]) (auto simp: empty wp_ret)
  show ?thesis
    unfolding init_run_def
    by (auto simp: wp_simps none empty packets split: sum.split option.split intro!: wp_map_err)
qed

section \<open>A run\<close>

text \<open>A report with the B button down and the left stick pushed, from a controller that answers.\<close>

definition demo_report :: "byte list" where
  "demo_report = [9, 0, 0, 1, 0, 0] @ pack_12bit 4095 2048 @ pack_12bit 0 2048 @ [0, 36, 36]"

definition demo_usb :: usb_env where
  "demo_usb = \<lparr>usb_devices = Inr [\<lparr>usb_ids = Some (0x057E, 0x2073), usb_bus = 1, usb_address = 2,
     usb_interfaces = Inr [(1, [[\<lparr>ep_bulk = True, ep_out = True, ep_address = 2\<rparr>]])]\<rparr>],
     usb_error = (\<lambda>_ _. None)\<rparr>"

definition dead_usb :: usb_env where
  "dead_usb = demo_usb\<lparr>usb_error := (\<lambda>_ _. Some (lit ''no device''))\<rparr>"

definition hid_reads :: "read_result list \<Rightarrow> hid_input" where
  "hid_reads rs = \<lparr>h_poll_error = None, h_interrupted = False, raw_readable = True, raw_error = False, raw_reads = rs\<rparr>"

definition main_reads :: "ff_event list \<Rightarrow> main_input" where
  "main_reads es = \<lparr>m_poll_error = None, m_interrupted = False, vdev_ready = True, vdev_events = Fetched es\<rparr>"

definition at_start :: service where
  "at_start = \<lparr>world = bridge_start [], hid_end = None, main_end = None\<rparr>"

lemma hid_turn_report:
  assumes "wakeups (rumbles b) = 0" and "\<not> receiver_gone (states b)" and "parse_report bs = Some st"
  shows "hid_turn U out (hid_reads [ReadBytes bs]) b = (Done (Inr ()), b\<lparr>reports := reports b @ [bs],
     states := (states b)\<lparr>queue := queue (states b) @ [st], wakeups := notified (wakeups (states b))\<rparr>\<rparr>)"
  using assms
  by (simp add: hid_turn_def hid_reads_def bnd_def gets_def ret_def update_state_def send_state_def chan_send_def
      tx_send_def chan_notify_def)

lemma hid_turn_unplugged:
  assumes "wakeups (rumbles b) = 0"
  shows "hid_turn U out (hid_reads [ReadError e]) b = (Done (Inl ()), b\<lparr>shutdown := notified (shutdown b)\<rparr>)"
  using assms
  by (simp add: hid_turn_def hid_reads_def bnd_def gets_def ret_def update_state_def notify_shutdown_def)

lemma main_turn_drains:
  assumes "0 < wakeups (states b)" and "\<not> sender_gone (states b)" and "shutdown b = 0"
  shows "main_turn V (main_reads []) b = (Done (Inr ()), snd (drain_states V b))"
  using assms drain_states_eff [of V b]
  by (auto simp: main_turn_def main_reads_def bnd_def gets_def ret_def)

lemma demo_report_parses: "parse_report demo_report \<noteq> None"
  by (simp add: parse_report_def demo_report_def pack_12bit_def split: prod.split)

definition demo_state :: controller_state where
  "demo_state = the (parse_report demo_report)"

definition after_report :: bridge where
  "after_report = (bridge_start [])\<lparr>reports := [demo_report], states := pollable_channel\<lparr>queue := [demo_state], wakeups := 1\<rparr>\<rparr>"

definition after_emit :: bridge where
  "after_emit = snd (drain_states (\<lambda>_ _. None) after_report)"

lemma after_emit_eff: "rumbles after_emit = pollable_channel" "reports after_emit = [demo_report]"
  "queue (states after_emit) = []" "last_state after_emit = demo_state" "shutdown after_emit = 0"
  using drain_states_eff [of "\<lambda>_ _. None" after_report]
  by (auto simp: after_emit_def after_report_def bridge_start_def)

lemma demo_reachable:
  "service_reachable demo_usb 2 (\<lambda>_ _. None) [] (at_start\<lparr>world := after_emit\<rparr>)"
  "service_reachable demo_usb 2 (\<lambda>_ _. None) []
     (at_start\<lparr>world := hid_exit demo_usb 2 (after_emit\<lparr>shutdown := 1\<rparr>), hid_end := Some (Inr ())\<rparr>)"
proof -
  have "hid_turn demo_usb 2 (hid_reads [ReadBytes demo_report]) (world at_start) = (Done (Inr ()), after_report)"
    using demo_report_parses hid_turn_report [of "bridge_start []" demo_report demo_state demo_usb 2]
    by (auto simp: at_start_def after_report_def demo_state_def bridge_start_def pollable_channel_def notified_def efd_notify_def)
  then have "service_step demo_usb 2 (\<lambda>_ _. None) at_start (at_start\<lparr>world := after_report\<rparr>)"
    by (intro service_step.hid_goes_on) (simp_all add: at_start_def hid_wakes_def hid_reads_def)
  moreover have "service_reachable demo_usb 2 (\<lambda>_ _. None) [] at_start"
    unfolding at_start_def by (rule service_reachable.start)
  ultimately have reported: "service_reachable demo_usb 2 (\<lambda>_ _. None) [] (at_start\<lparr>world := after_report\<rparr>)"
    by (blast intro: service_reachable.step)
  have "main_turn (\<lambda>_ _. None) (main_reads []) after_report = (Done (Inr ()), after_emit)"
    unfolding after_emit_def by (rule main_turn_drains) (simp_all add: after_report_def bridge_start_def pollable_channel_def)
  then have "service_step demo_usb 2 (\<lambda>_ _. None) (at_start\<lparr>world := after_report\<rparr>) (at_start\<lparr>world := after_emit\<rparr>)"
    using service_step.main_goes_on [of "at_start\<lparr>world := after_report\<rparr>" "main_reads []" "\<lambda>_ _. None" after_emit]
    by (simp add: at_start_def main_wakes_def main_reads_def)
  with reported show emitted: "service_reachable demo_usb 2 (\<lambda>_ _. None) [] (at_start\<lparr>world := after_emit\<rparr>)"
    by (rule service_reachable.step)
  have "hid_turn demo_usb 2 (hid_reads [ReadError (lit ''gone'')]) after_emit = (Done (Inl ()), after_emit\<lparr>shutdown := 1\<rparr>)"
    using hid_turn_unplugged [of after_emit demo_usb 2 "lit ''gone''"]
    by (simp add: after_emit_eff pollable_channel_def notified_def efd_notify_def)
  then have "service_step demo_usb 2 (\<lambda>_ _. None) (at_start\<lparr>world := after_emit\<rparr>)
      (at_start\<lparr>world := hid_exit demo_usb 2 (after_emit\<lparr>shutdown := 1\<rparr>), hid_end := Some (Inr ())\<rparr>)"
    using service_step.hid_returns [of "at_start\<lparr>world := after_emit\<rparr>" "hid_reads [ReadError (lit ''gone'')]" demo_usb 2
        "after_emit\<lparr>shutdown := 1\<rparr>" "\<lambda>_ _. None"]
    by (simp add: at_start_def hid_wakes_def hid_reads_def)
  with emitted show "service_reachable demo_usb 2 (\<lambda>_ _. None) []
      (at_start\<lparr>world := hid_exit demo_usb 2 (after_emit\<lparr>shutdown := 1\<rparr>), hid_end := Some (Inr ())\<rparr>)"
    by (rule service_reachable.step)
qed

definition rumble_stop :: bridge where
  "rumble_stop = (bridge_start [])\<lparr>rumbles := pollable_channel\<lparr>queue := [Stop], wakeups := 1\<rparr>\<rparr>"

definition usb_failure :: message where
  "usb_failure = Fmt ''write rumble bulk frame: {}'' [lit ''no device'']"

definition write_failed :: bridge where
  "write_failed = (bridge_start [WriteBulk 2 neutral_frame])"

lemma stranded_reachable:
  "service_reachable dead_usb 2 (\<lambda>_ _. None) []
     (at_start\<lparr>world := hid_exit dead_usb 2 write_failed, hid_end := Some (Inl usb_failure)\<rparr>)"
proof -
  have "main_turn (\<lambda>_ _. None) (main_reads [ForceFeedback 0 STOPPED]) (world at_start) = (Done (Inr ()), rumble_stop)"
    by (simp add: main_turn_def main_reads_def at_start_def bridge_start_def bnd_def gets_def ret_def send_rumble_def
        update_state_def STOPPED_def PLAYING_def chan_send_def tx_send_def chan_notify_def notified_def efd_notify_def
        pollable_channel_def rumble_stop_def)
  then have "service_step dead_usb 2 (\<lambda>_ _. None) at_start (at_start\<lparr>world := rumble_stop\<rparr>)"
    by (intro service_step.main_goes_on) (simp_all add: at_start_def main_wakes_def main_reads_def)
  moreover have "service_reachable dead_usb 2 (\<lambda>_ _. None) [] at_start"
    unfolding at_start_def by (rule service_reachable.start)
  ultimately have asked: "service_reachable dead_usb 2 (\<lambda>_ _. None) [] (at_start\<lparr>world := rumble_stop\<rparr>)"
    by (blast intro: service_reachable.step)
  have "hid_turn dead_usb 2 (hid_reads []) rumble_stop = (Failed usb_failure, write_failed)"
    by (simp add: hid_turn_def hid_reads_def rumble_stop_def bridge_start_def bnd_def gets_def ret_def update_state_def
        write_latest_def chan_drain_eq map_err_def attempt_def fail_def on_usb_def usb_do_def dead_usb_def demo_usb_def
        usb_failure_def write_failed_def pollable_channel_def)
  then have "service_step dead_usb 2 (\<lambda>_ _. None) (at_start\<lparr>world := rumble_stop\<rparr>)
      (at_start\<lparr>world := hid_exit dead_usb 2 write_failed, hid_end := Some (Inl usb_failure)\<rparr>)"
    using service_step.hid_fails [of "at_start\<lparr>world := rumble_stop\<rparr>" "hid_reads []" dead_usb 2 usb_failure write_failed "\<lambda>_ _. None"]
    by (simp add: at_start_def hid_wakes_def hid_reads_def)
  with asked show ?thesis by (rule service_reachable.step)
qed

lemma reads_kept: "keeps (\<lambda>b. usb_calls b = cs \<and> rumbles b = c) (read_reports rs)"
proof (rule wp_keeps)
  fix b :: bridge assume "usb_calls b = cs \<and> rumbles b = c"
  then show "wp (read_reports rs) (\<lambda>_ b. usb_calls b = cs \<and> rumbles b = c) (\<lambda>b. usb_calls b = cs \<and> rumbles b = c) b"
    by (induction rs arbitrary: b rule: read_reports.induct)
      (auto simp: wp_simps notify_shutdown_def split: option.split)
qed

lemma command_frame_motor: "command_frame cmd ! 8 = 1 \<longleftrightarrow> (\<exists>s w. cmd = Play s w \<and> (s \<noteq> 0 \<or> w \<noteq> 0))"
proof (cases cmd)
  case (Play s w)
  have pos: "0 < of_nat n / (65535 :: rat) \<longleftrightarrow> 0 < n" for n :: nat
    by simp
  show ?thesis unfolding Play command_frame.simps rumble_frame_def pos unat_gt_0 by (auto simp: build_frame_def)
qed (simp add: neutral_frame_def build_frame_def)

section \<open>Properties\<close>



text \<open>C31: An input report of at least 15 bytes decodes, a shorter one does not.  The two sticks,
  packed as twelve-bit values x and y into three bytes each, come out as multiples of 16
  around the centre 2048: the right X axis as reported, the others negated, where the lowest
  value saturates at 32767.\<close>

theorem report_decodes:
  assumes "x < 4096" and "y < 4096" and "u < 4096" and "v < 4096"
    and "take 3 (drop 6 report) = pack_12bit x y" and "take 3 (drop 9 report) = pack_12bit u v"
  shows "(parse_report report = None \<longleftrightarrow> length report < 15) \<and>
     (\<forall>st. parse_report report = Some st \<longrightarrow>
        sint (fst (stick_l st)) = min 32767 ((2048 - int x) * 16) \<and>
        sint (snd (stick_l st)) = min 32767 ((2048 - int y) * 16) \<and>
        sint (fst (stick_r st)) = (int u - 2048) * 16 \<and>
        sint (snd (stick_r st)) = min 32767 ((2048 - int v) * 16))"
  using parse_report_sticks [OF assms] parse_report_None_iff by blast

theorem report_decodes_witness:
  "parse_report demo_report \<noteq> None \<and> sint (fst (stick_l demo_state)) = - 32752 \<and>
     sint (fst (stick_r demo_state)) = - 32768 \<and> sint (snd (stick_r demo_state)) = 0"
  using report_decodes [of 4095 2048 0 2048 demo_report] demo_report_parses
  by (auto simp: demo_state_def demo_report_def pack_12bit_def)

text \<open>C28: The ids of the force-feedback effects are kept exactly.  In every reachable state the
  free ids are ascending without repetition, no id is both free and in use, and each of the 16
  ids is one of the two; so an upload is refused only when all 16 are in use.\<close>

theorem effect_ids_partition:
  assumes "service_reachable U bulk_out V cs s"
  shows "sorted (available_ids (world s)) \<and> distinct (available_ids (world s)) \<and>
     dom (effects (world s)) \<inter> set (available_ids (world s)) = {} \<and>
     {i. i < 16} \<subseteq> dom (effects (world s)) \<union> set (available_ids (world s)) \<and>
     (hd (ff_replies (upload kind (world s))) = None \<longrightarrow> {i. i < 16} \<subseteq> dom (effects (world s)))"
  using service_inv [OF assms]
  by (cases "available_ids (world s)") (auto simp: service_inv_def ff_inv_def upload_def)

theorem effect_ids_partition_witness:
  "dom (effects after_emit) \<inter> set (available_ids after_emit) = {} \<and>
     {i. i < 16} \<subseteq> dom (effects after_emit) \<union> set (available_ids after_emit)"
  using effect_ids_partition [OF demo_reachable(1)] by (simp add: at_start_def)

text \<open>An effect uploaded again keeps its old magnitudes: the second upload is stored under the
  next free id, whatever id it carries, so playing the effect sends what the first upload said,
  and the first id stays taken until it is erased.\<close>

theorem reuploaded_effect_plays_old:
  "queue (rumbles (snd (each handle_ff
     [UiUpload (Inr (0, Rumble s w)), UiUpload (Inr (0, Rumble s' w')), ForceFeedback 0 PLAYING] (bridge_start cs)))) =
   [Play s w]"
  by (simp add: bridge_start_def MAX_FF_EFFECTS_def upt_rec bnd_def update_state_def gets_def ret_def upload_def
      send_rumble_def chan_send_def tx_send_def chan_notify_def pollable_channel_def)

text \<open>When rumble commands are waiting and its poll returns, the HID thread writes exactly one
  frame, that of the last command, and the queue is empty afterwards, whatever the controller
  sends in the same turn and whether or not the write succeeds.  The motor byte of the frame is
  on just when the last command plays an effect with a magnitude other than zero.\<close>

theorem last_rumble_command_wins:
  assumes "h_poll_error i = None" and "\<not> h_interrupted i" and "0 < wakeups (rumbles b)" and "queue (rumbles b) \<noteq> []"
  shows "usb_calls (snd (hid_turn U bulk_out i b)) =
       WriteBulk bulk_out (command_frame (last (queue (rumbles b)))) # usb_calls b \<and>
     queue (rumbles (snd (hid_turn U bulk_out i b))) = [] \<and>
     (command_frame (last (queue (rumbles b))) ! 8 = 1 \<longleftrightarrow>
        (\<exists>strong weak. last (queue (rumbles b)) = Play strong weak \<and> (strong \<noteq> 0 \<or> weak \<noteq> 0)))"
proof -
  let ?frame = "WriteBulk bulk_out (command_frame (last (queue (rumbles b))))"
  let ?I = "\<lambda>c. usb_calls c = ?frame # usb_calls b \<and> rumbles c = (rumbles b)\<lparr>queue := [], wakeups := 0\<rparr>"
  have written: "wp (write_latest U bulk_out) (\<lambda>_. ?I) ?I b"
    using assms(4)
    by (simp add: write_latest_def wp_simps chan_drain_eq map_err_def attempt_def fail_def ret_def wp_def bnd_def
        on_usb_def usb_do_def update_state_def gets_def split: option.split)
  have rest: "wp (if \<not> h_interrupted i \<and> raw_error i then bnd notify_shutdown (\<lambda>_. ret (Inl ()))
      else if \<not> h_interrupted i \<and> raw_readable i then read_reports (raw_reads i) else ret (Inr ())) (\<lambda>_. ?I) ?I c"
    if "?I c" for c
    using that keeps_wp [OF reads_kept that] by (simp add: wp_simps notify_shutdown_def)
  have ready: "(\<not> h_interrupted i \<and> 0 < wakeups (rumbles b)) = True" using assms(2,3) by simp
  have "wp (hid_turn U bulk_out i) (\<lambda>_. ?I) ?I b"
    unfolding hid_turn_def assms(1) option.case wp_bnd [of "gets _"] wp_gets ready if_True wp_bnd [of "write_latest _ _"]
    by (rule wp_mono [OF written rest])
  from wp_snd [OF this] show ?thesis by (simp add: command_frame_motor)
qed

theorem last_rumble_command_wins_witness:
  "usb_calls (snd (hid_turn dead_usb 2 (hid_reads []) rumble_stop)) = [WriteBulk 2 neutral_frame]"
  using last_rumble_command_wins [of "hid_reads []" rumble_stop dead_usb 2]
  by (simp add: hid_reads_def rumble_stop_def bridge_start_def)

text \<open>C29: When the HID thread has returned without an error, the poll of the main thread returns:
  the shutdown eventfd is set and stays set until the main thread has seen it.\<close>

theorem unplugging_wakes_main:
  assumes "service_reachable U bulk_out V cs s" and "hid_end s = Some (Inr ())" and "main_end s = None"
  shows "0 < shutdown (world s) \<and> main_wakes (world s) j"
  using service_inv [OF assms(1)] assms(2,3) by (simp add: service_inv_def main_wakes_def)

theorem unplugging_wakes_main_witness:
  "main_wakes (hid_exit demo_usb 2 (after_emit\<lparr>shutdown := 1\<rparr>)) \<lparr>m_poll_error = None, m_interrupted = False,
     vdev_ready = False, vdev_events = FetchWouldBlock\<rparr>"
  using unplugging_wakes_main [OF demo_reachable(2)] by (simp add: at_start_def)


text \<open>A channel delivers what was sent, in the order it was sent and once, for every
  interleaving of the steps of send and drain: what was sent is what was taken followed by what
  is queued, and a receiver that saw the sender gone has taken everything.\<close>

theorem channel_is_fifo:
  assumes "chan_reachable s"
  shows "sent s = taken s @ queue (chan s) \<and> (receiver s = RReturned \<longrightarrow> taken s = sent s)"
  using chan_inv_reachable [OF assms] by (simp add: chan_inv_def)

theorem channel_is_fifo_witness: "sent (chan_at SReady RPoll 0 [x] [y]) = [x] @ [y]"
  using channel_is_fifo [OF raced_reachable [of x y]] by (simp add: chan_at_def)

text \<open>A wakeup can be lost: drain resets the eventfd after its last look at the queue, and a send
  that falls in between leaves an item in the queue with the receiver asleep.  From that
  state only the sender can move, and until it sends again nothing is taken.\<close>

theorem wakeup_can_be_lost:
  "\<exists>s. chan_reachable s \<and> sender s = SReady \<and> queue (chan s) = [item] \<and> asleep s \<and>
     {t. chan_step s t} \<subseteq> {t. asleep t \<and> taken t = taken s}"
proof (intro exI conjI)
  show "chan_reachable (chan_at SReady RPoll 0 [item] [item])" by (rule raced_reachable)
  show "{t. chan_step (chan_at SReady RPoll 0 [item] [item]) t} \<subseteq>
      {t. asleep t \<and> taken t = taken (chan_at SReady RPoll 0 [item] [item])}"
    using asleep_step [of "chan_at SReady RPoll 0 [item] [item]"] by (simp add: chan_at_def asleep_def subset_eq)
qed (simp_all add: chan_at_def asleep_def)

text \<open>The handshake writes the 17 packets of the init sequence to one endpoint, in order.  When
  it succeeds, it wrote all of them and returns that endpoint; when it fails, it wrote the
  first n of them for some n and nothing else.\<close>

theorem handshake_in_order:
  "case init_run U target [] of
     (Done out, cs) \<Rightarrow> bulk_writes cs = map (Pair out) INIT_SEQUENCE
   | (_, cs) \<Rightarrow> \<exists>out n. bulk_writes cs = map (Pair out) (take n INIT_SEQUENCE)"
  using wp_init_run [of U target] by (auto simp: wp_def split: prod.split outcome.split)

end
