(* ===== verification/Tui_Keys.thy ===== *)
theory Tui_Keys
  imports Rust_Str
begin

text \<open>
  What the terminal programs share: crossterm's key events, and what a turn of their loop, a
  \<open>tokio::select!\<close> between a line from the daemon and a key, does.
\<close>

datatype key =
    KeyChar rchar | KeyUp | KeyDown | KeyTab | KeyBackTab | KeyEnter | KeyEsc | KeyBackspace | KeyOther

record key_press =
  key :: key
  control :: bool

text \<open>
  A line that parses as a snapshot, one that does not, the end of the connection (or an error
  reading it), a key press, and any other terminal event.
\<close>

datatype 's tui_event = Snap 's | BadLine | Closed | Press key_press | OtherTerminalEvent

text \<open>\<open>rem_euclid\<close> of a position moved by one, with \<open>n\<close> positions.\<close>

definition moved :: "int \<Rightarrow> nat \<Rightarrow> nat \<Rightarrow> nat" where
  "moved delta n cur = (if n = 0 then cur else nat ((int (min cur (n - 1)) + delta) mod int n))"

text \<open>\<open>connect\<close>: at most sixty tries, half a second apart; the argument is what each try gives.\<close>

definition connect :: "(nat \<Rightarrow> 's option) \<Rightarrow> 's option" where
  "connect try = (case find (\<lambda>i. try i \<noteq> None) [0..<60] of Some i \<Rightarrow> try i | None \<Rightarrow> None)"

lemma moved_less: "0 < n \<Longrightarrow> moved delta n cur < n"
  by (simp add: moved_def nat_less_iff)

lemma moved_zero [simp]: "moved delta 0 cur = cur"
  by (simp add: moved_def)

end
