(* ===== verification/Flasher.thy ===== *)
theory Flasher
  imports Rust_Bytes Tui_Keys
begin

text \<open>
  flasher-tui, \<open>packages/flasher-tui/src/main.rs\<close>: the program that finds the disks of a
  machine, lets the operator choose one and writes a system image to it.

  \<open>lsblk\<close> and \<open>findmnt\<close> are a record of what they answer at the time they are run, the image
  and the target disk a record of what reading and writing them gives.  The loop of \<open>run\<close> is
  a function from its state and the input of one turn (the messages of the writing thread and
  a key) to the next state, the end of the program, or a panic: an index out of bounds or the
  \<open>unreachable!\<close> of the source.  Of a screen only the disk it names is modelled, not how it is
  drawn.
\<close>

section \<open>Disks\<close>

record disk =
  d_path :: rstr
  d_name :: rstr
  d_size :: nat
  d_model :: rstr
  d_transport :: rstr

text \<open>
  \<open>lsblk_all\<close>: the listing of the disks, with whether the command succeeded, its output and
  its error output; \<open>lsblk_parts\<close>: the names below a device, \<open>None\<close> when the command cannot be
  run; \<open>findmnt\<close>: whether it ran and found a mount of the device.
\<close>

record disk_tools =
  lsblk_all :: "message + bool \<times> rstr \<times> rstr"
  lsblk_parts :: "rstr \<Rightarrow> rstr option"
  findmnt :: "rstr \<Rightarrow> bool"

definition is_mounted :: "disk_tools \<Rightarrow> rstr \<Rightarrow> bool" where
  "is_mounted T dev_path =
     (if findmnt T dev_path then True
      else case lsblk_parts T dev_path of
        None \<Rightarrow> False
      | Some out \<Rightarrow> list_ex (\<lambda>line. let part = trim line in part \<noteq> [] \<and> findmnt T (str ''/dev/'' @ part))
          (drop 1 (lines out)))"

definition parse_disk_line :: "disk_tools \<Rightarrow> rstr \<Rightarrow> disk option" where
  "parse_disk_line T line =
     (let parts = split_whitespace line in
      if length parts < 3 then None
      else case parse_uint (2 ^ 64 - 1) (parts ! 1) of
        None \<Rightarrow> None
      | Some bytes \<Rightarrow>
          if parts ! 2 \<noteq> str ''disk'' then None
          else
            (let transport = (if length parts > 3 then parts ! 3 else []);
                 model = (if length parts > 4 then join [32] (drop 4 parts) else []);
                 dev_path = str ''/dev/'' @ parts ! 0 in
             if transport = str ''usb'' \<or> transport = [] then None
             else if is_mounted T dev_path then None
             else Some \<lparr>d_path = dev_path, d_name = parts ! 0, d_size = bytes, d_model = model,
                        d_transport = transport\<rparr>))"

definition discover_disks :: "disk_tools \<Rightarrow> message + disk list" where
  "discover_disks T = (case lsblk_all T of
      Inl e \<Rightarrow> Inl (Fmt ''running lsblk: {}'' [e])
    | Inr (succeeded, stdout, stderr) \<Rightarrow>
        if \<not> succeeded then Inl (Fmt ''lsblk failed: {}'' [Str stderr])
        else Inr (sort_key (\<lambda>d. - int (d_size d)) (List.map_filter (parse_disk_line T) (lines stdout))))"

section \<open>Writing\<close>

datatype flash_progress = Writing nat nat | FDone | FError message

text \<open>
  What opening and reading the image gives (an empty read is its end), and what writing gives:
  for the n-th chunk, how many of its bytes reached the disk and the error, if one stopped it.
\<close>

record flash_env =
  open_image :: "message option"
  init_decoder :: "message option"
  image_reads :: "(message + byte list) list"
  open_disk :: "message option"
  write_error :: "nat \<Rightarrow> (nat \<times> message) option"
  reread_error :: "message option"

fun write_chunks :: "flash_env \<Rightarrow> nat \<Rightarrow> nat \<Rightarrow> byte list \<Rightarrow> (message + byte list) list \<Rightarrow>
    message option \<times> byte list \<times> flash_progress list" where
  "write_chunks E size_total k data [] = (None, data, [])"
| "write_chunks E size_total k data (Inl e # rs) = (Some (Fmt ''reading image: {}'' [e]), data, [])"
| "write_chunks E size_total k data (Inr bs # rs) =
     (if bs = [] then (None, data, [])
      else case write_error E k of
        Some (n, e) \<Rightarrow> (Some (Fmt ''writing to disk: {}'' [e]), data @ take n bs, [])
      | None \<Rightarrow>
          (let (r, data', ms) = write_chunks E size_total (Suc k) (data @ bs) rs in
           (r, data', Writing (length data + length bs) size_total # ms)))"

text \<open>The messages the thread sends, and what it wrote to the start of the disk.\<close>

definition flash_image :: "flash_env \<Rightarrow> rstr \<Rightarrow> nat \<Rightarrow> flash_progress list \<times> byte list" where
  "flash_image E image_path size_total =
     (case open_image E of
        Some e \<Rightarrow> ([FError (Fmt ''opening image file: {}'' [e])], [])
      | None \<Rightarrow>
      (case (if suffix (str ''.zst'') image_path then init_decoder E else None) of
         Some e \<Rightarrow> ([FError (Fmt ''initializing zstd decoder: {}'' [e])], [])
       | None \<Rightarrow>
       (case open_disk E of
          Some e \<Rightarrow> ([FError (Fmt ''opening target disk: {}'' [e])], [])
        | None \<Rightarrow>
            (let (r, data, ms) = write_chunks E size_total 0 [] (image_reads E) in
             (case r of
                Some e \<Rightarrow> (ms @ [FError e], data)
              | None \<Rightarrow>
                  (case reread_error E of
                     Some e \<Rightarrow> (ms @ [FError (Fmt ''re-reading partition table: {}'' [e])], data)
                   | None \<Rightarrow> (ms @ [FDone], data)))))))"

section \<open>The screens\<close>

datatype screen = Select | Confirm nat | Flashing nat nat nat | ScreenDone | ScreenError message

text \<open>\<open>flashing\<close> is \<open>flash_rx.is_some()\<close>; \<open>flashes\<close> the writes started, newest first; \<open>reboots\<close> counts.\<close>

record flasher =
  disks :: "disk list"
  selected :: "nat option"
  screen :: screen
  image :: rstr
  image_size :: "nat option"
  flashing :: bool
  flashes :: "(rstr \<times> rstr \<times> nat) list"
  reboots :: nat

definition new_app :: "rstr \<Rightarrow> nat option \<Rightarrow> disk list \<Rightarrow> flasher" where
  "new_app img img_size ds = \<lparr>disks = ds, selected = (if ds \<noteq> [] then Some 0 else None), screen = Select,
     image = img, image_size = img_size, flashing = False, flashes = [], reboots = 0\<rparr>"

definition selected_disk :: "flasher \<Rightarrow> disk option" where
  "selected_disk a = (case selected a of
      None \<Rightarrow> None
    | Some i \<Rightarrow> if i < length (disks a) then Some (disks a ! i) else None)"

definition select_next :: "flasher \<Rightarrow> flasher" where
  "select_next a =
     (if disks a = [] then a
      else a\<lparr>selected := Some (case selected a of
              None \<Rightarrow> 0
            | Some i \<Rightarrow> if i \<ge> length (disks a) - 1 then 0 else i + 1)\<rparr>)"

definition select_prev :: "flasher \<Rightarrow> flasher" where
  "select_prev a =
     (if disks a = [] then a
      else a\<lparr>selected := Some (case selected a of
              None \<Rightarrow> 0
            | Some i \<Rightarrow> if i = 0 then length (disks a) - 1 else i - 1)\<rparr>)"

text \<open>The disk a screen names, \<open>None\<close> when drawing it would index out of bounds.\<close>

definition drawn_disk :: "flasher \<Rightarrow> disk option option" where
  "drawn_disk a =
     (let at = (\<lambda>i. if i < length (disks a) then Some (Some (disks a ! i)) else None) in
      case screen a of
        Confirm i \<Rightarrow> at i
      | Flashing i _ _ \<Rightarrow> at i
      | _ \<Rightarrow> Some None)"

text \<open>How a turn ends: the loop goes on, \<open>run\<close> returns, fails, or panics.\<close>

datatype turn = GoOn flasher | Quit flasher | Abort message flasher | Panic

section \<open>The loop\<close>

fun on_progress :: "flash_progress list \<Rightarrow> flasher \<Rightarrow> flasher option" where
  "on_progress [] a = Some a"
| "on_progress (Writing written size_total # ms) a = (case screen a of
      Flashing i _ _ \<Rightarrow> on_progress ms (a\<lparr>screen := Flashing i written size_total\<rparr>)
    | _ \<Rightarrow> None)"
| "on_progress (FDone # ms) a = Some (a\<lparr>screen := ScreenDone, flashing := False\<rparr>)"
| "on_progress (FError e # ms) a = Some (a\<lparr>screen := ScreenError e, flashing := False\<rparr>)"

text \<open>
  The 's' key: \<open>drop_to_shell\<close> and the disks found afterwards, with its error if it failed.
\<close>

definition rediscover :: "message + disk_tools \<Rightarrow> flasher \<Rightarrow> turn" where
  "rediscover shell a = (case shell of
      Inl e \<Rightarrow> Abort e a
    | Inr T \<Rightarrow> (case discover_disks T of
        Inl e \<Rightarrow> Abort e a
      | Inr ds \<Rightarrow>
          (let a = a\<lparr>disks := ds\<rparr> in
           GoOn (if ds \<noteq> [] \<and> selected a = None then a\<lparr>selected := Some 0\<rparr> else a))))"

definition on_select_key :: "message + disk_tools \<Rightarrow> key_press \<Rightarrow> flasher \<Rightarrow> turn" where
  "on_select_key shell k a =
     (if key k = KeyChar (ch CHR ''c'') \<and> control k then Quit a
      else if key k = KeyChar (ch CHR ''s'') then rediscover shell a
      else if key k = KeyDown \<or> key k = KeyChar (ch CHR ''j'') then GoOn (select_next a)
      else if key k = KeyUp \<or> key k = KeyChar (ch CHR ''k'') then GoOn (select_prev a)
      else if key k = KeyEnter \<and> selected_disk a \<noteq> None then
        (case selected a of Some i \<Rightarrow> GoOn (a\<lparr>screen := Confirm i\<rparr>) | None \<Rightarrow> Panic)
      else GoOn a)"

definition on_confirm_key :: "nat \<Rightarrow> nat \<Rightarrow> key_press \<Rightarrow> flasher \<Rightarrow> turn" where
  "on_confirm_key metadata i k a =
     (if key k = KeyChar (ch CHR ''y'') \<or> key k = KeyChar (ch CHR ''Y'') then
        (if \<not> i < length (disks a) then Panic
         else
           (let size_total = (case image_size a of Some n \<Rightarrow> n | None \<Rightarrow> metadata) in
            GoOn (a\<lparr>screen := Flashing i 0 size_total, flashing := True,
                    flashes := (image a, d_path (disks a ! i), size_total) # flashes a\<rparr>)))
      else GoOn (a\<lparr>screen := Select\<rparr>))"

text \<open>
  The input of a turn: whether drawing or reading the terminal failed, what the writing thread
  has sent, the key read (\<open>None\<close> for an event that is no key, or none within the poll while
  writing), and what the shell and the image's metadata give when they are asked.
\<close>

record turn_input =
  draw_error :: "message option"
  read_error :: "message option"
  progress_messages :: "flash_progress list"
  read_key :: "key_press option"
  shell_result :: "message + disk_tools"
  image_metadata :: nat

definition turn :: "turn_input \<Rightarrow> flasher \<Rightarrow> turn" where
  "turn i a =
     (if drawn_disk a = None then Panic
      else case draw_error i of
        Some e \<Rightarrow> Abort e a
      | None \<Rightarrow>
        if flashing a then
          (case on_progress (progress_messages i) a of
             None \<Rightarrow> Panic
           | Some a' \<Rightarrow>
               if flashing a' then
                 (case read_error i of
                    Some e \<Rightarrow> Abort e a'
                  | None \<Rightarrow>
                      (case read_key i of
                         Some k \<Rightarrow> if key k = KeyChar (ch CHR ''c'') \<and> control k then Quit a' else GoOn a'
                       | None \<Rightarrow> GoOn a'))
               else GoOn a')
        else
          (case read_error i of
             Some e \<Rightarrow> Abort (Fmt ''reading event: {}'' [e]) a
           | None \<Rightarrow>
               (case read_key i of
                  None \<Rightarrow> GoOn a
                | Some k \<Rightarrow>
                    (case screen a of
                       Select \<Rightarrow> on_select_key (shell_result i) k a
                     | Confirm n \<Rightarrow> on_confirm_key (image_metadata i) n k a
                     | ScreenDone \<Rightarrow> if key k = KeyEnter then Quit (a\<lparr>reboots := Suc (reboots a)\<rparr>) else GoOn a
                     | ScreenError _ \<Rightarrow>
                         if key k = KeyEnter then Quit (a\<lparr>reboots := Suc (reboots a)\<rparr>)
                         else if key k = KeyEsc then GoOn (a\<lparr>screen := Select\<rparr>)
                         else GoOn a
                     | Flashing _ _ _ \<Rightarrow> GoOn a))))"

text \<open>\<open>run\<close> from the state \<open>main\<close> starts it in, with the disks found at that time.\<close>

inductive flasher_reachable :: "rstr \<Rightarrow> nat option \<Rightarrow> flasher \<Rightarrow> bool" for img img_size where
  start: "discover_disks T = Inr ds \<Longrightarrow> flasher_reachable img img_size (new_app img img_size ds)"
| step: "flasher_reachable img img_size a \<Longrightarrow> turn i a = GoOn b \<Longrightarrow> flasher_reachable img img_size b"

end
