(* ===== verification/Flasher_Claims.thy ===== *)
theory Flasher_Claims
  imports Flasher
begin

text \<open>
  The properties of flasher-tui: which disk it writes to, that its indices stay in bounds, and
  what a finished write means.
\<close>

section \<open>Disks\<close>

lemma parse_disk_line_SomeD:
  assumes "parse_disk_line T line = Some d"
  shows "d_transport d \<noteq> [] \<and> d_transport d \<noteq> str ''usb'' \<and> \<not> is_mounted T (d_path d)"
  using assms by (auto simp: parse_disk_line_def Let_def split: if_splits option.splits)

lemma discovered:
  assumes "discover_disks T = Inr ds" and "d \<in> set ds"
  shows "d_transport d \<noteq> [] \<and> d_transport d \<noteq> str ''usb'' \<and> \<not> is_mounted T (d_path d)"
  using assms parse_disk_line_SomeD
  by (auto simp: discover_disks_def List.map_filter_def split: sum.splits if_splits)

section \<open>The loop\<close>

definition flasher_inv :: "flasher \<Rightarrow> bool" where
  "flasher_inv a \<longleftrightarrow> (\<exists>T. discover_disks T = Inr (disks a)) \<and>
     (flashing a \<longleftrightarrow> (\<exists>n w t. screen a = Flashing n w t)) \<and>
     (\<forall>n. screen a = Confirm n \<longrightarrow> n < length (disks a)) \<and>
     (\<forall>n w t. screen a = Flashing n w t \<longrightarrow> n < length (disks a))"

lemma inv_drawn: "flasher_inv a \<Longrightarrow> drawn_disk a \<noteq> None"
  by (auto simp: flasher_inv_def drawn_disk_def Let_def split: screen.split)

lemma on_progress_inv:
  assumes "flasher_inv a" and "flashing a"
  shows "\<exists>b. on_progress ms a = Some b \<and> flasher_inv b \<and> flashes b = flashes a \<and> image b = image a"
  using assms
proof (induction ms a rule: on_progress.induct)
  case (2 written t ms a)
  then obtain n w u where s: "screen a = Flashing n w u" by (auto simp: flasher_inv_def)
  with 2 have "flasher_inv (a\<lparr>screen := Flashing n written t\<rparr>)" by (auto simp: flasher_inv_def)
  with 2 s show ?case by simp
qed (auto simp: flasher_inv_def)

lemma inv_select: "flasher_inv a \<Longrightarrow> screen a = Select \<Longrightarrow> flasher_inv (a\<lparr>selected := x\<rparr>)"
  by (simp add: flasher_inv_def)

text \<open>What a turn that goes on may have done.\<close>

definition started :: "turn_input \<Rightarrow> flasher \<Rightarrow> flasher \<Rightarrow> bool" where
  "started i a b \<longleftrightarrow> (\<exists>n k t. screen a = Confirm n \<and> n < length (disks a) \<and> read_key i = Some k \<and>
     key k \<in> {KeyChar (ch CHR ''y''), KeyChar (ch CHR ''Y'')} \<and>
     flashes b = (image a, d_path (disks a ! n), t) # flashes a)"

definition fine_turn :: "turn_input \<Rightarrow> flasher \<Rightarrow> turn \<Rightarrow> bool" where
  "fine_turn i a r \<longleftrightarrow> (case r of
     GoOn b \<Rightarrow> flasher_inv b \<and> (flashes b = flashes a \<or> started i a b)
   | Quit b \<Rightarrow> flashes b = flashes a
   | Abort e b \<Rightarrow> flashes b = flashes a
   | Panic \<Rightarrow> False)"

lemma fine_select:
  assumes "flasher_inv a" and "screen a = Select"
  shows "fine_turn i a (on_select_key shell k a)"
proof -
  have discovered: "flasher_inv (a\<lparr>disks := ds\<rparr>)" if "discover_disks T = Inr ds" for T ds
    using assms that by (auto simp: flasher_inv_def)
  have "fine_turn i a (rediscover shell a)"
    using discovered inv_select [OF discovered] assms(2)
    by (auto simp: rediscover_def fine_turn_def Let_def split: sum.split)
  moreover have "flasher_inv (select_next a)" "flasher_inv (select_prev a)"
    using assms by (auto simp: select_next_def select_prev_def inv_select)
  moreover have "flasher_inv (a\<lparr>screen := Confirm n\<rparr>)" if "selected_disk a \<noteq> None" "selected a = Some n" for n
    using assms that by (auto simp: flasher_inv_def selected_disk_def split: if_splits)
  ultimately show ?thesis
    using assms
    by (auto simp: on_select_key_def fine_turn_def select_next_def select_prev_def selected_disk_def split: option.splits)
qed

lemma fine_confirm:
  assumes "flasher_inv a" and "screen a = Confirm n" and "\<not> flashing a" and "read_key i = Some k"
  shows "fine_turn i a (on_confirm_key metadata n k a)"
  using assms by (auto simp: on_confirm_key_def fine_turn_def started_def flasher_inv_def Let_def)

lemma fine_turn:
  assumes "flasher_inv a" shows "fine_turn i a (turn i a)"
proof (cases "draw_error i")
  case drawn: None
  show ?thesis
  proof (cases "flashing a")
    case True
    obtain b where "on_progress (progress_messages i) a = Some b" "flasher_inv b" "flashes b = flashes a"
      using on_progress_inv [OF assms True] by blast
    then show ?thesis
      using inv_drawn [OF assms] drawn True
      by (auto simp: turn_def fine_turn_def split: option.split)
  next
    case False
    note base = inv_drawn [OF assms] drawn False
    show ?thesis
    proof (cases "read_error i")
      case (Some e)
      then show ?thesis using base by (simp add: turn_def fine_turn_def)
    next
      case reading: None
      show ?thesis
      proof (cases "read_key i")
        case None
        then show ?thesis using base reading assms by (auto simp: turn_def fine_turn_def)
      next
        case (Some k)
        show ?thesis
        proof (cases "screen a")
          case Select
          then show ?thesis using base reading Some fine_select [OF assms Select] by (auto simp: turn_def)
        next
          case (Confirm n)
          then show ?thesis using base reading Some fine_confirm [OF assms Confirm False Some] by (auto simp: turn_def)
        next
          case (Flashing n w t)
          then show ?thesis using assms False by (auto simp: flasher_inv_def)
        qed (use base reading Some assms in \<open>auto simp: turn_def fine_turn_def flasher_inv_def\<close>)
      qed
    qed
  qed
qed (use inv_drawn [OF assms] in \<open>auto simp: turn_def fine_turn_def\<close>)

lemma flasher_inv: "flasher_reachable img img_size a \<Longrightarrow> flasher_inv a"
proof (induction rule: flasher_reachable.induct)
  case (start T ds)
  then show ?case by (auto simp: flasher_inv_def new_app_def)
next
  case (step a i b)
  then show ?case using fine_turn [of a i] by (simp add: fine_turn_def)
qed

section \<open>Writing\<close>

lemma write_chunks_progress:
  "write_chunks E t k data rs = (r, data', ms) \<Longrightarrow> set ms \<subseteq> range (\<lambda>n. Writing n t)"
  by (induction E t k data rs arbitrary: r data' ms rule: write_chunks.induct)
    (auto split: if_splits option.splits prod.splits)

text \<open>The bytes of the image up to its end, \<open>None\<close> when a read fails before it.\<close>

fun image_bytes :: "(message + byte list) list \<Rightarrow> byte list option" where
  "image_bytes [] = Some []"
| "image_bytes (Inl e # rs) = None"
| "image_bytes (Inr bs # rs) = (if bs = [] then Some [] else map_option ((@) bs) (image_bytes rs))"

lemma write_chunks_done:
  "write_chunks E t k data rs = (None, data', ms) \<Longrightarrow> \<exists>bs. image_bytes rs = Some bs \<and> data' = data @ bs"
  by (induction E t k data rs arbitrary: data' ms rule: write_chunks.induct)
    (auto split: if_splits option.splits prod.splits)

lemma write_chunks_prefix:
  "write_chunks E t k data rs = (r, data', ms) \<Longrightarrow> image_bytes rs = Some bs \<Longrightarrow> prefix data' (data @ bs)"
proof (induction E t k data rs arbitrary: r data' ms bs rule: write_chunks.induct)
  case (3 E t k data cs rs)
  show ?case
  proof (cases "cs = []")
    case False
    with 3(3) obtain bs' where bs: "image_bytes rs = Some bs'" "bs = cs @ bs'" by auto
    show ?thesis
    proof (cases "write_error E k")
      case None
      with False 3(2) obtain ms' where "write_chunks E t (Suc k) (data @ cs) rs = (r, data', ms')"
        by (auto split: prod.splits)
      from 3(1) [OF False None this bs(1)] show ?thesis by (simp add: bs(2))
    next
      case (Some ne)
      obtain n e where "ne = (n, e)" by (cases ne)
      with False Some 3(2) have "data' = data @ take n cs" by simp
      then show ?thesis using take_is_prefix [of n cs] by (simp add: bs(2) prefix_def) (metis append.assoc append_take_drop_id)
    qed
  qed (use 3 in auto)
qed auto

lemma flash_image_ends:
  assumes "flash_image E path t = (ms, data)"
  obtains (ends) r ws where "ms = map (\<lambda>n. Writing n t) ws @ [r]" and "\<nexists>n u. r = Writing n u"
    and "r = FDone \<Longrightarrow> image_bytes (image_reads E) = Some data"
    and "\<And>bs. image_bytes (image_reads E) = Some bs \<Longrightarrow> prefix data bs"
proof -
  have simple: thesis if "ms = [FError e]" "data = []" for e
    using that by (intro ends [of "[]" "FError e"]) simp_all
  obtain r data' ms' where w: "write_chunks E t 0 [] (image_reads E) = (r, data', ms')"
    by (metis prod_cases3)
  from write_chunks_progress [OF w] obtain ws where ws: "ms' = map (\<lambda>n. Writing n t) ws"
    by (metis ex_map_conv rangeE subsetD)
  have full: "r = None \<Longrightarrow> image_bytes (image_reads E) = Some data'"
    using write_chunks_done [of E t 0 "[]" "image_reads E" data' ms'] w by auto
  have part: "\<And>bs. image_bytes (image_reads E) = Some bs \<Longrightarrow> prefix data' bs"
    using write_chunks_prefix [OF w] by simp
  have written: thesis if "ms = ms' @ [e]" "data = data'" "\<nexists>n u. e = Writing n u" "e = FDone \<Longrightarrow> r = None" for e
    using that by (intro ends [of ws e]) (use ws full part in auto)
  show thesis
    using assms simple written w
    by (auto simp: flash_image_def split: option.splits if_splits)
qed

section \<open>Properties\<close>

definition demo_tools :: disk_tools where
  "demo_tools = \<lparr>lsblk_all = Inr (True, str ''sda 500 disk usb Stick'' @ [10] @ str ''nvme0n1 1000 disk nvme Fast SSD'', []),
     lsblk_parts = (\<lambda>_. Some (str ''nvme0n1'')), findmnt = (\<lambda>_. False)\<rparr>"

definition demo_disk :: disk where
  "demo_disk = \<lparr>d_path = str ''/dev/nvme0n1'', d_name = str ''nvme0n1'', d_size = 1000, d_model = str ''Fast SSD'',
     d_transport = str ''nvme''\<rparr>"

definition press :: "key \<Rightarrow> turn_input" where
  "press k = \<lparr>draw_error = None, read_error = None, progress_messages = [],
     read_key = Some \<lparr>key = k, control = False\<rparr>, shell_result = Inr demo_tools, image_metadata = 0\<rparr>"

definition demo_confirm :: flasher where
  "demo_confirm = (new_app (str ''os.img'') (Some 800) [demo_disk])\<lparr>screen := Confirm 0\<rparr>"

lemma demo_discovered: "discover_disks demo_tools = Inr [demo_disk]"
proof -
  have "lines (str ''sda 500 disk usb Stick'' @ [10] @ str ''nvme0n1 1000 disk nvme Fast SSD'') =
      [str ''sda 500 disk usb Stick'', str ''nvme0n1 1000 disk nvme Fast SSD'']"
    by code_simp
  moreover have "lines (str ''nvme0n1'') = [str ''nvme0n1'']" by code_simp
  moreover have "split_whitespace (str ''sda 500 disk usb Stick'') =
      [str ''sda'', str ''500'', str ''disk'', str ''usb'', str ''Stick'']"
    "split_whitespace (str ''nvme0n1 1000 disk nvme Fast SSD'') =
      [str ''nvme0n1'', str ''1000'', str ''disk'', str ''nvme'', str ''Fast'', str ''SSD'']"
    by (simp_all add: split_whitespace_def str_def is_whitespace_def)
  moreover have "parse_uint (2 ^ 64 - 1) (str ''500'') = Some 500" "parse_uint (2 ^ 64 - 1) (str ''1000'') = Some 1000"
    by (simp_all add: parse_uint_def parse_digits_def str_def is_ascii_digit_def)
  ultimately show ?thesis
    by (simp add: discover_disks_def demo_tools_def parse_disk_line_def is_mounted_def List.map_filter_def demo_disk_def)
      (simp add: str_def)
qed

lemma demo_confirm_reachable: "flasher_reachable (str ''os.img'') (Some 800) demo_confirm"
proof (rule flasher_reachable.step)
  show "flasher_reachable (str ''os.img'') (Some 800) (new_app (str ''os.img'') (Some 800) [demo_disk])"
    by (rule flasher_reachable.start [OF demo_discovered])
  show "turn (press KeyEnter) (new_app (str ''os.img'') (Some 800) [demo_disk]) = GoOn demo_confirm"
    by (simp add: turn_def press_def new_app_def drawn_disk_def on_select_key_def selected_disk_def demo_confirm_def Let_def)
qed



text \<open>C33: No turn panics: the screens and the keys never index past the list of disks, also after the
  operator has been in the shell and the list has changed, and the messages of the writing
  thread are only met on the screen they belong to.\<close>

theorem flasher_never_panics:
  assumes "flasher_reachable img img_size a"
  shows "turn i a \<noteq> Panic \<and> drawn_disk a \<noteq> None"
  using fine_turn [OF flasher_inv [OF assms], of i] inv_drawn [OF flasher_inv [OF assms]]
  by (auto simp: fine_turn_def)

theorem flasher_never_panics_witness: "turn (press KeyDown) demo_confirm \<noteq> Panic"
  using flasher_never_panics [OF demo_confirm_reachable] by blast

text \<open>C34: The writing thread ends with exactly one final message.  It is Done only when every byte of
  the image was read and written, in order; and as long as the image can be read, what is on
  the disk after an error is a prefix of it.\<close>

theorem flash_done_means_written:
  assumes "flash_image E image_path t = (ms, data)"
  shows "\<exists>ws r. ms = map (\<lambda>n. Writing n t) ws @ [r] \<and> (r = FDone \<or> (\<exists>e. r = FError e)) \<and>
     (r = FDone \<longrightarrow> image_bytes (image_reads E) = Some data) \<and>
     (\<forall>bs. image_bytes (image_reads E) = Some bs \<longrightarrow> prefix data bs)"
proof -
  obtain r ws where "ms = map (\<lambda>n. Writing n t) ws @ [r]" and "\<nexists>n u. r = Writing n u"
    and "r = FDone \<Longrightarrow> image_bytes (image_reads E) = Some data"
    and "\<And>bs. image_bytes (image_reads E) = Some bs \<Longrightarrow> prefix data bs"
    using flash_image_ends [OF assms] by blast
  then show ?thesis by (cases r) auto
qed

definition demo_flash :: flash_env where
  "demo_flash = \<lparr>open_image = None, init_decoder = None, image_reads = [Inr [1, 2], Inr [3], Inr []], open_disk = None,
     write_error = (\<lambda>_. None), reread_error = None\<rparr>"

theorem flash_done_means_written_witness:
  "flash_image demo_flash (str ''os.img'') 3 = ([Writing 2 3, Writing 3 3, FDone], [1, 2, 3]) \<and>
   image_bytes (image_reads demo_flash) = Some [1, 2, 3]"
proof -
  have run: "flash_image demo_flash (str ''os.img'') 3 = ([Writing 2 3, Writing 3 3, FDone], [1, 2, 3])"
    by code_simp
  obtain ws r where "[Writing 2 3, Writing 3 3, FDone] = map (\<lambda>n. Writing n 3) ws @ [r]"
    "r = FDone \<longrightarrow> image_bytes (image_reads demo_flash) = Some [1, 2, 3]"
    using flash_done_means_written [OF run] by blast
  then show ?thesis using run by (cases ws rule: rev_cases) auto
qed

end
