(* ===== verification/Flasher_Screen.thy ===== *)
theory Flasher_Screen
  imports Flasher_Claims
begin

text \<open>
  flasher-tui: the text of its screens, with the sizes as they are shown, and what it does to the
  terminal and the kernel's console log level.  Dashes and arrows are written in ASCII, colours
  and layout are left out.
\<close>

section \<open>Sizes\<close>

text \<open>Division rounded to the nearest whole number, halves to the even one.\<close>

definition round_div :: "nat \<Rightarrow> nat \<Rightarrow> nat" where
  "round_div n d =
     (let q = n div d; r = n mod d in
      if 2 * r < d then q else if d < 2 * r then q + 1 else if even q then q else q + 1)"

text \<open>\<open>u64 as f64\<close>: the value rounded to 53 significant bits.\<close>

fun excess_bits :: "nat \<Rightarrow> nat" where
  "excess_bits n = (if n < 2 ^ 53 then 0 else Suc (excess_bits (n div 2)))"

declare excess_bits.simps [simp del]

definition as_f64 :: "nat \<Rightarrow> nat" where
  "as_f64 n = round_div n (2 ^ excess_bits n) * 2 ^ excess_bits n"

text \<open>
  \<open>{:.1}\<close> of a size divided by a power of two, a quotient that is exact in floating point: the
  nearest tenth, halves to the even one.
\<close>

definition tenths :: "nat \<Rightarrow> nat \<Rightarrow> nat" where
  "tenths bytes d = round_div (10 * as_f64 bytes) d"

definition one_decimal :: "nat \<Rightarrow> rstr" where
  "one_decimal t = show_nat (t div 10) @ str ''.'' @ show_nat (t mod 10)"

abbreviation GIB :: nat where "GIB \<equiv> 2 ^ 30"
abbreviation MIB :: nat where "MIB \<equiv> 2 ^ 20"

definition format_size :: "nat \<Rightarrow> rstr" where
  "format_size bytes =
     (if bytes \<ge> GIB then one_decimal (tenths bytes GIB) @ str '' GiB''
      else one_decimal (tenths bytes MIB) @ str '' MiB'')"

definition display_size :: "disk \<Rightarrow> rstr" where
  "display_size d =
     (if d_size d \<ge> GIB then one_decimal (tenths (d_size d) GIB) @ str '' GiB''
      else one_decimal (tenths (d_size d) MIB) @ str '' MiB'')"

text \<open>\<open>{:>10}\<close>: padded with blanks on the left to ten characters.\<close>

definition right_aligned :: "nat \<Rightarrow> rstr \<Rightarrow> rstr" where
  "right_aligned w s = replicate (w - length s) 32 @ s"

section \<open>The screens\<close>

definition disk_item :: "disk \<Rightarrow> message" where
  "disk_item d = Fmt ''  {}  {}  {}'' [Str (d_path d), Str (right_aligned 10 (display_size d)),
     Str (if d_model d = [] then d_transport d else d_model d)]"

text \<open>The lines drawn, each with whether it is highlighted; the gauge is its percentage.\<close>

datatype drawn = Line message | Item bool message | Gauge nat

definition select_text :: "rstr \<Rightarrow> flasher \<Rightarrow> drawn list" where
  "select_text image_name a =
     [Line (lit ''''), Line (Fmt ''  Flashing: {}'' [Str image_name]), Line (lit ''  Select the target disk:'')] @
     (if disks a = [] then
        [Line (lit ''''), Line (lit ''  No available disks found.''),
         Line (lit ''  Connect a non-USB disk and restart.''),
         Line (lit ''  s: shell  |  Ctrl-C: exit'')]
      else
        map (\<lambda>(i, d). Item (selected a = Some i) (disk_item d)) (enumerate 0 (disks a)) @
        [Line (lit ''  up/down: navigate  |  Enter: select  |  s: shell  |  Ctrl-C: exit'')])"

definition confirm_text :: "rstr \<Rightarrow> disk \<Rightarrow> drawn list" where
  "confirm_text image_name d =
     map Line [lit '''', lit ''  WARNING'', lit '''',
       Fmt ''  This will ERASE ALL DATA on {}'' [Str (d_path d)], lit '''',
       Fmt ''  Disk:   {} ({})'' [Str (d_path d), Str (display_size d)],
       Fmt ''  Model:  {}'' [if d_model d = [] then lit ''unknown'' else Str (d_model d)],
       Fmt ''  Image:  {}'' [Str image_name], lit '''',
       lit ''  Press 'y' to confirm, any other key to go back.'']"

text \<open>\<open>percent\<close> is the gauge's floating-point percentage of its two sizes.\<close>

definition flashing_text :: "(nat \<Rightarrow> nat \<Rightarrow> nat) \<Rightarrow> rstr \<Rightarrow> disk \<Rightarrow> nat \<Rightarrow> nat \<Rightarrow> drawn list" where
  "flashing_text percent image_name d written of_all =
     map Line [lit '''', Fmt ''  {} -> {}'' [Str image_name, Str (d_path d)],
       Fmt ''  Writing...  ({} / {})'' [Str (format_size written), Str (format_size of_all)], lit ''''] @
     [Gauge (percent written of_all)]"

text \<open>\<open>ui\<close>; \<open>None\<close> when it indexes the disks out of bounds.\<close>

definition flasher_ui :: "(nat \<Rightarrow> nat \<Rightarrow> nat) \<Rightarrow> (message \<Rightarrow> message list) \<Rightarrow> rstr \<Rightarrow> flasher \<Rightarrow> drawn list option" where
  "flasher_ui percent lines_of image_name a = (case screen a of
      Select \<Rightarrow> Some (select_text image_name a)
    | Confirm i \<Rightarrow>
        if i < length (disks a) then Some (confirm_text image_name (disks a ! i)) else None
    | Flashing i written of_all \<Rightarrow>
        if i < length (disks a) then Some (flashing_text percent image_name (disks a ! i) written of_all) else None
    | ScreenDone \<Rightarrow> Some (map Line [lit '''', lit ''  Flash complete!'', lit '''', lit ''  Press Enter to reboot.''])
    | ScreenError e \<Rightarrow>
        Some (map Line ([lit '''', lit ''  Error:''] @ map (\<lambda>l. Fmt ''  {}'' [l]) (lines_of e) @
          [lit '''', lit ''  Press Enter to reboot, or Escape to go back.''])))"

section \<open>The terminal\<close>

text \<open>
  \<open>printk\<close> is the text of \<open>/proc/sys/kernel/printk\<close>, \<open>None\<close> when it cannot be read.  A call may
  fail at any time (\<open>t_fault\<close>, asked with the number of calls made before).
\<close>

datatype tty_call = EnableRaw | DisableRaw | EnterAlternate | LeaveAlternate | NewTerminal | ClearTerminal
  | WritePrintk rstr | RunShell

record tty =
  raw :: bool
  alternate :: bool
  printk :: "rstr option"
  tty_calls :: nat

type_synonym 'a ttyd = "(tty, message, 'a) prog"
type_synonym tty_env = "nat \<Rightarrow> tty_call \<Rightarrow> message option"

fun tty_effect :: "tty_call \<Rightarrow> tty \<Rightarrow> tty" where
  "tty_effect EnableRaw t = t\<lparr>raw := True\<rparr>"
| "tty_effect DisableRaw t = t\<lparr>raw := False\<rparr>"
| "tty_effect EnterAlternate t = t\<lparr>alternate := True\<rparr>"
| "tty_effect LeaveAlternate t = t\<lparr>alternate := False\<rparr>"
| "tty_effect (WritePrintk s) t = t\<lparr>printk := Some s\<rparr>"
| "tty_effect _ t = t"

definition tty_do :: "tty_env \<Rightarrow> tty_call \<Rightarrow> unit ttyd" where
  "tty_do F c = (\<lambda>t. case F (tty_calls t) c of
      Some e \<Rightarrow> (Failed e, t\<lparr>tty_calls := Suc (tty_calls t)\<rparr>)
    | None \<Rightarrow> (Done (), (tty_effect c t)\<lparr>tty_calls := Suc (tty_calls t)\<rparr>))"

definition suppress_kernel_console :: "tty_env \<Rightarrow> rstr option ttyd" where
  "suppress_kernel_console F =
     bnd (gets printk) (\<lambda>prev. case prev of
       None \<Rightarrow> ret None
     | Some p \<Rightarrow> bnd (attempt (tty_do F (WritePrintk (str ''1'')))) (\<lambda>r.
         ret (case r of Inr _ \<Rightarrow> Some p | Inl _ \<Rightarrow> None)))"

definition restore_kernel_console :: "tty_env \<Rightarrow> rstr option \<Rightarrow> unit ttyd" where
  "restore_kernel_console F prev = (case prev of
      Some p \<Rightarrow> ignore (tty_do F (WritePrintk p))
    | None \<Rightarrow> ret ())"

text \<open>The shell's own exit status is only printed.\<close>

definition drop_to_shell :: "tty_env \<Rightarrow> unit ttyd" where
  "drop_to_shell F =
     bnd (tty_do F DisableRaw) (\<lambda>_.
     bnd (tty_do F LeaveAlternate) (\<lambda>_.
     bnd (restore_kernel_console F (Some (str ''7''))) (\<lambda>_.
     bnd (map_err (\<lambda>e. Fmt ''spawning shell: {}'' [e]) (tty_do F RunShell)) (\<lambda>_.
     bnd (suppress_kernel_console F) (\<lambda>_.
     bnd (tty_do F EnterAlternate) (\<lambda>_.
     bnd (tty_do F EnableRaw) (\<lambda>_.
     tty_do F ClearTerminal)))))))"

text \<open>\<open>main\<close> behind \<open>discover_disks\<close>; \<open>run\<close> is the loop, as far as it touches the terminal.\<close>

definition flasher_main :: "tty_env \<Rightarrow> unit ttyd \<Rightarrow> unit ttyd" where
  "flasher_main F run =
     bnd (suppress_kernel_console F) (\<lambda>prev.
     bnd (map_err (\<lambda>e. Fmt ''enabling raw mode: {}'' [e]) (tty_do F EnableRaw)) (\<lambda>_.
     bnd (tty_do F EnterAlternate) (\<lambda>_.
     bnd (map_err (\<lambda>e. Fmt ''creating terminal: {}'' [e]) (tty_do F NewTerminal)) (\<lambda>_.
     bnd (attempt run) (\<lambda>result.
     bnd (tty_do F DisableRaw) (\<lambda>_.
     bnd (tty_do F LeaveAlternate) (\<lambda>_.
     bnd (restore_kernel_console F prev) (\<lambda>_.
     case result of Inr _ \<Rightarrow> ret () | Inl e \<Rightarrow> fail e))))))))"

section \<open>What the screens show\<close>

lemma round_div_near:
  assumes "0 < d"
  shows "2 * n \<le> 2 * (round_div n d * d) + d \<and> 2 * (round_div n d * d) \<le> 2 * n + d"
proof -
  have "round_div n d * d = n div d * d \<and> 2 * (n mod d) \<le> d \<or>
      round_div n d * d = n div d * d + d \<and> d \<le> 2 * (n mod d)"
    by (auto simp: round_div_def Let_def)
  moreover have "n = n div d * d + n mod d" "n mod d < d" using assms by simp_all
  ultimately show ?thesis by linarith
qed

lemma as_f64_small: "n < 2 ^ 53 \<Longrightarrow> as_f64 n = n"
  by (simp add: as_f64_def excess_bits.simps round_div_def)

lemma drawn_iff_disk: "flasher_ui percent lines_of image_name a = None \<longleftrightarrow> drawn_disk a = None"
  by (auto simp: flasher_ui_def drawn_disk_def Let_def split: screen.splits)

lemma tenths_near:
  assumes "bytes < 2 ^ 53" and "0 < d"
  shows "2 * (10 * bytes) \<le> 2 * (tenths bytes d * d) + d \<and> 2 * (tenths bytes d * d) \<le> 2 * (10 * bytes) + d"
  using round_div_near [OF assms(2), of "10 * bytes"] by (simp add: tenths_def as_f64_small [OF assms(1)])

lemma confirmed_flash:
  assumes "flasher_reachable img img_size a" and "turn i a = GoOn b" and "flashes b \<noteq> flashes a"
  obtains n t where "screen a = Confirm n" and "n < length (disks a)"
    and "flashes b = (image a, d_path (disks a ! n), t) # flashes a"
proof -
  from fine_turn [OF flasher_inv [OF assms(1)], of i] assms(2,3) have "started i a b"
    by (simp add: fine_turn_def)
  then show ?thesis using that by (auto simp: started_def)
qed

section \<open>Properties\<close>

text \<open>C40: The confirmation screen says what will be erased: when a key on it starts a write, the text
  drawn before that key names the path that is then written, and the size shown with it is the
  disk's size to the nearest tenth of a GiB, or of a MiB for a disk below one GiB.\<close>

theorem confirmation_shows_target:
  assumes "flasher_reachable img img_size a" and "turn i a = GoOn b" and "flashes b \<noteq> flashes a"
    and "\<forall>d\<in>set (disks a). d_size d < 2 ^ 53"
  shows "\<exists>d t of_all. flashes b = (image a, d_path d, of_all) # flashes a \<and>
     (\<exists>ls. flasher_ui percent lines_of name a = Some ls \<and>
        Line (Fmt ''  This will ERASE ALL DATA on {}'' [Str (d_path d)]) \<in> set ls \<and>
        Line (Fmt ''  Disk:   {} ({})'' [Str (d_path d), Str (display_size d)]) \<in> set ls) \<and>
     (let (u, name) = (if 2 ^ 30 \<le> d_size d then (2 ^ 30, '' GiB'') else (2 ^ 20, '' MiB'')) in
        display_size d = one_decimal t @ str name \<and>
        2 * (10 * d_size d) \<le> 2 * (t * u) + u \<and> 2 * (t * u) \<le> 2 * (10 * d_size d) + u)"
proof -
  obtain n of_all where n: "screen a = Confirm n" "n < length (disks a)"
    and f: "flashes b = (image a, d_path (disks a ! n), of_all) # flashes a"
    using confirmed_flash [OF assms(1-3)] by blast
  let ?d = "disks a ! n"
  have small: "d_size ?d < 2 ^ 53" using assms(4) n(2) by simp
  have ui: "flasher_ui percent lines_of name a = Some (confirm_text name ?d)"
    using n by (simp add: flasher_ui_def)
  have size: "\<exists>t. let (u, name) = (if 2 ^ 30 \<le> d_size ?d then (2 ^ 30, '' GiB'') else (2 ^ 20, '' MiB'')) in
        display_size ?d = one_decimal t @ str name \<and>
        2 * (10 * d_size ?d) \<le> 2 * (t * u) + u \<and> 2 * (t * u) \<le> 2 * (10 * d_size ?d) + u"
  proof (cases "2 ^ 30 \<le> d_size ?d")
    case True
    then show ?thesis using tenths_near [OF small, of "2 ^ 30"]
      by (intro exI [of _ "tenths (d_size ?d) (2 ^ 30)"]) (simp add: display_size_def)
  next
    case False
    then show ?thesis using tenths_near [OF small, of "2 ^ 20"]
      by (intro exI [of _ "tenths (d_size ?d) (2 ^ 20)"]) (simp add: display_size_def)
  qed
  from size obtain t where "let (u, name) = (if 2 ^ 30 \<le> d_size ?d then (2 ^ 30, '' GiB'') else (2 ^ 20, '' MiB'')) in
        display_size ?d = one_decimal t @ str name \<and>
        2 * (10 * d_size ?d) \<le> 2 * (t * u) + u \<and> 2 * (t * u) \<le> 2 * (10 * d_size ?d) + u" ..
  with f ui show ?thesis
    by (intro exI [of _ ?d] exI [of _ t] exI [of _ of_all] conjI exI [of _ "confirm_text name ?d"])
      (simp_all add: confirm_text_def)
qed

theorem confirmation_shows_target_witness:
  "\<exists>ls. flasher_ui (\<lambda>_ _. 0) (\<lambda>e. [e]) (str ''os'') demo_confirm = Some ls \<and>
     Line (Fmt ''  This will ERASE ALL DATA on {}'' [Str (str ''/dev/nvme0n1'')]) \<in> set ls"
proof -
  have run: "turn (press (KeyChar (ch CHR ''y''))) demo_confirm =
      GoOn (demo_confirm\<lparr>screen := Flashing 0 0 800, flashing := True, flashes := [(str ''os.img'', str ''/dev/nvme0n1'', 800)]\<rparr>)"
    by (simp add: turn_def press_def demo_confirm_def new_app_def drawn_disk_def on_confirm_key_def Let_def demo_disk_def)
  have "\<forall>d\<in>set (disks demo_confirm). d_size d < 2 ^ 53"
    by (simp add: demo_confirm_def new_app_def demo_disk_def)
  from confirmation_shows_target [OF demo_confirm_reachable run _ this, of "\<lambda>_ _. 0" "\<lambda>e. [e]" "str ''os''"]
  show ?thesis by (auto simp: demo_confirm_def new_app_def)
qed

section \<open>What is left of the terminal\<close>

text \<open>
  A failed setup leaves the kernel's console quiet: \<open>main\<close> returns before it would restore the
  log level.
\<close>

lemma failed_setup_keeps_printk:
  assumes "F 1 EnableRaw = Some e" and "F 0 (WritePrintk (str ''1'')) = None"
    and "printk t = Some p" and "tty_calls t = 0"
  shows "\<exists>e' t'. flasher_main F m t = (Failed e', t') \<and> printk t' = Some (str ''1'')"
  using assms
  by (simp add: flasher_main_def suppress_kernel_console_def bnd_def gets_def attempt_def tty_do_def ret_def map_err_def fail_def)

text \<open>
  Behind a successful setup the terminal and the log level are put back however the loop ended,
  when putting them back does not fail.
\<close>

lemma session_restores:
  assumes "\<forall>n c. c \<in> {DisableRaw, LeaveAlternate, WritePrintk p} \<longrightarrow> F n c = None"
    and "m t = (r, t1)" and "r \<noteq> Parked" and "r \<noteq> Waiting"
  shows "\<exists>r' t'. bnd (attempt m) (\<lambda>result. bnd (tty_do F DisableRaw) (\<lambda>_. bnd (tty_do F LeaveAlternate) (\<lambda>_.
      bnd (restore_kernel_console F (Some p)) (\<lambda>_. case result of Inr _ \<Rightarrow> ret () | Inl e \<Rightarrow> fail e)))) t = (r', t') \<and>
    \<not> raw t' \<and> \<not> alternate t' \<and> printk t' = Some p"
  using assms
  by (cases r) (simp_all add: bnd_def attempt_def tty_do_def restore_kernel_console_def ignore_def ret_def fail_def)

end
