(* ===== verification/Secrets_Tui.thy ===== *)
theory Secrets_Tui
  imports Secrets_Daemon Tui_Keys
begin

text \<open>
  operator-secrets-tui, \<open>packages/operator-secrets/src/bin/tui.rs\<close>: the client that shows the
  daemon's state and answers its forms.  A screen is the text drawn, without colours and
  layout, with its dashes and arrows written in ASCII; \<open>sent\<close> holds the messages that reached the daemon, newest first.
\<close>

section \<open>State\<close>

record tui_cli =
  cli_socket :: "rstr option"
  console :: bool
  cli_edit :: bool
  cli_secret :: "rstr option"

record tui_app =
  t_snap :: secrets_snapshot
  inputs :: "rstr list"
  focus :: nat
  picked :: nat
  choice_sent :: bool
  editing :: bool
  daemon_gone :: bool
  t_note :: message
  sent :: "secret_msg list"

definition tui_start :: "tui_cli \<Rightarrow> tui_app" where
  "tui_start cli = \<lparr>t_snap = default_snapshot, inputs = [], focus = 0, picked = 0, choice_sent = False,
     editing = cli_edit cli, daemon_gone = False, t_note = Str [], sent = []\<rparr>"

definition cli_socket_path :: "rstr \<Rightarrow> rstr \<Rightarrow> tui_cli \<Rightarrow> rstr" where
  "cli_socket_path boot_socket edit_socket cli =
     (case cli_socket cli of Some p \<Rightarrow> p | None \<Rightarrow> if cli_edit cli then edit_socket else boot_socket)"

definition adopt :: "secrets_snapshot \<Rightarrow> tui_app \<Rightarrow> tui_app" where
  "adopt sn a =
     (let new_id = map_option pr_id (ss_prompt sn);
          old_id = map_option pr_id (ss_prompt (t_snap a));
          a = (if new_id \<noteq> old_id then
                 a\<lparr>inputs := (case ss_prompt sn of None \<Rightarrow> [] | Some p \<Rightarrow> map pf_value (pr_fields p)),
                   focus := 0, t_note := Str []\<rparr>
               else a) in
      a\<lparr>t_snap := sn, picked := min (picked a) (length (ss_secrets sn) - 1)\<rparr>)"

definition field_count :: "tui_app \<Rightarrow> nat" where
  "field_count a = (case ss_prompt (t_snap a) of None \<Rightarrow> 0 | Some p \<Rightarrow> length (pr_fields p))"

definition choosing :: "tui_app \<Rightarrow> bool" where
  "choosing a \<longleftrightarrow> ss_choosing (t_snap a) \<and> ss_prompt (t_snap a) = None"

definition move_focus :: "int \<Rightarrow> tui_app \<Rightarrow> tui_app" where
  "move_focus delta a = a\<lparr>focus := moved delta (field_count a) (focus a)\<rparr>"

definition move_selection :: "int \<Rightarrow> tui_app \<Rightarrow> tui_app" where
  "move_selection delta a = a\<lparr>picked := moved delta (length (ss_secrets (t_snap a))) (picked a)\<rparr>"

text \<open>\<open>app.inputs.get_mut(app.focus)\<close>.\<close>

definition edit_input :: "(rstr \<Rightarrow> rstr) \<Rightarrow> tui_app \<Rightarrow> tui_app" where
  "edit_input f a =
     (if focus a < length (inputs a) then a\<lparr>inputs := (inputs a)[focus a := f (inputs a ! focus a)]\<rparr> else a)"

section \<open>Messages\<close>

definition lost :: "tui_app \<Rightarrow> tui_app" where
  "lost a = a\<lparr>daemon_gone := True, t_note := lit ''daemon connection lost''\<rparr>"

definition send_choice :: "bool \<Rightarrow> rstr \<Rightarrow> tui_app \<Rightarrow> tui_app" where
  "send_choice write_ok name a = (if write_ok then a\<lparr>sent := Edit name # sent a\<rparr> else lost a)"

definition empty_field :: "rstr list \<Rightarrow> nat \<times> prompt_field \<Rightarrow> bool" where
  "empty_field ins p \<longleftrightarrow> \<not> fst p < length ins \<or> ins ! fst p = []"

definition submit :: "bool \<Rightarrow> tui_app \<Rightarrow> tui_app" where
  "submit write_ok a = (case ss_prompt (t_snap a) of
      None \<Rightarrow> a
    | Some p \<Rightarrow>
        (case find (empty_field (inputs a)) (enumerate 0 (pr_fields p)) of
           Some (i, f) \<Rightarrow> a\<lparr>focus := i, t_note := Fmt ''{} is empty'' [Str (pf_name f)]\<rparr>
         | None \<Rightarrow>
             (let values = map (\<lambda>(i, f). (pf_name f, inputs a ! i)) (enumerate 0 (pr_fields p)) in
              if write_ok then
                a\<lparr>sent := Submit (pr_id p) values # sent a, t_note := lit ''submitted; validating...''\<rparr>
              else lost a)))"

section \<open>The loop\<close>

text \<open>A turn of \<open>run_tui\<close>; \<open>None\<close> when it returns.  \<open>write_ok\<close> is whether a write succeeds.\<close>

definition on_line :: "tui_cli \<Rightarrow> bool \<Rightarrow> tui_app \<Rightarrow> tui_app" where
  "on_line cli write_ok a = (case cli_secret cli of
      Some name \<Rightarrow>
        if choosing a \<and> \<not> choice_sent a then send_choice write_ok name (a\<lparr>choice_sent := True\<rparr>) else a
    | None \<Rightarrow> a)"

definition on_choose_key :: "bool \<Rightarrow> key_press \<Rightarrow> tui_app \<Rightarrow> tui_app option" where
  "on_choose_key write_ok k a =
     (if key k = KeyEsc then None
      else if key k = KeyChar (ch CHR ''c'') \<and> control k then None
      else if key k = KeyDown \<or> key k = KeyTab then Some (move_selection 1 a)
      else if key k = KeyUp \<or> key k = KeyBackTab then Some (move_selection (- 1) a)
      else if key k = KeyEnter then
        Some (if picked a < length (ss_secrets (t_snap a))
              then send_choice write_ok (st_name (ss_secrets (t_snap a) ! picked a)) a else a)
      else Some a)"

definition on_form_key :: "tui_cli \<Rightarrow> bool \<Rightarrow> key_press \<Rightarrow> tui_app \<Rightarrow> tui_app option" where
  "on_form_key cli write_ok k a =
     (if key k = KeyEsc \<and> \<not> console cli then None
      else if key k = KeyChar (ch CHR ''c'') \<and> control k then
        (if \<not> console cli then None else Some (a\<lparr>t_note := lit ''Ctrl-C is disabled on the console UI''\<rparr>))
      else if key k = KeyTab \<or> key k = KeyDown then Some (move_focus 1 a)
      else if key k = KeyBackTab \<or> key k = KeyUp then Some (move_focus (- 1) a)
      else if key k = KeyEnter then
        (if field_count a = 0 then (if daemon_gone a \<and> \<not> console cli then None else Some a)
         else if focus a + 1 < field_count a then Some (move_focus 1 a)
         else Some (submit write_ok a))
      else if key k = KeyChar (ch CHR ''s'') \<and> control k then Some (submit write_ok a)
      else if key k = KeyChar (ch CHR ''u'') \<and> control k then Some (edit_input (\<lambda>_. []) a)
      else if key k = KeyBackspace then Some (edit_input butlast a)
      else (case key k of KeyChar c \<Rightarrow> Some (edit_input (\<lambda>b. b @ [c]) a) | _ \<Rightarrow> Some a))"

definition tui_turn :: "tui_cli \<Rightarrow> bool \<Rightarrow> secrets_snapshot tui_event \<Rightarrow> tui_app \<Rightarrow> tui_app option" where
  "tui_turn cli write_ok ev a = (case ev of
      Snap sn \<Rightarrow> if daemon_gone a then Some a else Some (on_line cli write_ok (adopt sn a))
    | BadLine \<Rightarrow> if daemon_gone a then Some a else Some (on_line cli write_ok a)
    | Closed \<Rightarrow>
        if daemon_gone a then Some a
        else if console cli then None
        else Some (a\<lparr>daemon_gone := True\<rparr>)
    | Press k \<Rightarrow> if choosing a then on_choose_key write_ok k a else on_form_key cli write_ok k a
    | OtherTerminalEvent \<Rightarrow> Some a)"

section \<open>The screen\<close>

definition state_style :: "secret_state \<Rightarrow> string" where
  "state_style s = (case s of
      Pending \<Rightarrow> ''pending'' | Checking \<Rightarrow> ''checking'' | NeedsInput \<Rightarrow> ''NEEDS INPUT''
    | Validating \<Rightarrow> ''validating'' | Satisfied \<Rightarrow> ''ok'' | Undecided \<Rightarrow> ''UNDECIDED'')"

record screen_text =
  scr_header :: message
  scr_rows :: "(message \<times> string \<times> message) list"
  scr_status :: message
  scr_title :: message
  scr_lines :: "message list"

definition table_row :: "tui_app \<Rightarrow> nat \<times> secret_status \<Rightarrow> message \<times> string \<times> message" where
  "table_row a p = (case p of (i, s) \<Rightarrow>
     (Fmt ''{} {}'' [lit (if choosing a \<and> i = picked a then ''>'' else '' ''), Str (st_name s)],
      state_style (st_state s),
      if message_is_empty (st_detail s) then Str (st_description s) else st_detail s))"

definition shown_input :: "rstr list \<Rightarrow> nat \<times> prompt_field \<Rightarrow> rstr" where
  "shown_input ins p = (case p of (i, f) \<Rightarrow>
     (let raw = (if i < length ins then ins ! i else []) in
      if pf_sensitive f then replicate (length raw) (ch CHR ''*'') else raw))"

definition field_lines :: "tui_app \<Rightarrow> nat \<times> prompt_field \<Rightarrow> message list" where
  "field_lines a p = (case p of (i, f) \<Rightarrow>
     Fmt ''  {} {}: {}'' [lit (if i = focus a then ''>'' else '' ''), Str (pf_name f), Str (shown_input (inputs a) (i, f))] #
     (if i = focus a \<and> pf_description f \<noteq> [] then [Fmt ''      {}'' [Str (pf_description f)]] else []))"

definition note_lines :: "tui_app \<Rightarrow> message list" where
  "note_lines a = (if message_is_empty (t_note a) then [] else [Fmt ''  {}'' [t_note a]])"

definition form_lines :: "tui_app \<Rightarrow> secret_prompt \<Rightarrow> message list" where
  "form_lines a p =
     [Fmt ''  {}'' [Str (pr_description p)]]
     @ (if message_is_empty (pr_reason p) then [] else [Fmt ''  {}'' [pr_reason p]])
     @ [lit '''']
     @ concat (map (field_lines a) (enumerate 0 (pr_fields p)))
     @ [lit '''']
     @ note_lines a
     @ [lit ''  Tab/up/down: field  |  Enter: next / submit  |  Ctrl-S: submit  |  Ctrl-U: clear'']"

definition tui_screen :: "rstr \<Rightarrow> tui_app \<Rightarrow> screen_text" where
  "tui_screen host a =
     (let (title, ls) = (case ss_prompt (t_snap a) of
        Some p \<Rightarrow> (Fmt '' {} '' [Str (pr_secret p)], form_lines a p)
      | None \<Rightarrow>
          if choosing a then
            (lit '' edit '',
             [lit ''  Pick the secret to re-enter.'',
              lit ''  What is stored now stays untouched until a new answer has been accepted.'', lit ''''] @
             note_lines a @
             [lit ''  up/down: select  |  Enter: re-enter it  |  Esc: leave without changing anything''])
          else if daemon_gone a then
            (lit '''',
             [lit '''',
              if editing a \<and> ss_done (t_snap a) then lit ''  done - the secret was written''
              else if editing a then lit ''  edit session ended without writing anything (check the journal)''
              else lit ''  daemon exited - boot is continuing (or failed; check the journal)''])
          else (lit '''', [lit '''', lit ''  waiting...''])) in
      \<lparr>scr_header = Fmt ''  {} - operator-provided secrets'' [Str host],
       scr_rows = map (table_row a) (enumerate 0 (ss_secrets (t_snap a))),
       scr_status = Fmt ''  {}'' [ss_message (t_snap a)],
       scr_title = title, scr_lines = ls\<rparr>)"

section \<open>Line mode\<close>

text \<open>What \<open>run_lines\<close> prints for the lines of the connection, a parse error ending it.\<close>

fun run_lines :: "message \<Rightarrow> (message + secrets_snapshot) list \<Rightarrow> message list \<times> message option" where
  "run_lines last_message [] = ([lit ''daemon exited (boot continuing or failed)''], None)"
| "run_lines last_message (Inl e # ls) = ([], Some (Fmt ''parsing snapshot: {}'' [e]))"
| "run_lines last_message (Inr sn # ls) =
     (let (out, r) = run_lines (ss_message sn) ls in
      ((if ss_message sn \<noteq> last_message then [ss_message sn] else []) @
       (if ss_prompt sn \<noteq> None then [lit ''  (run `operator-secrets-tui` on a terminal to answer)''] else []) @ out, r))"

text \<open>\<open>last_state\<close> of the state file's text, when it can be read.\<close>

definition last_state :: "rstr option \<Rightarrow> rstr" where
  "last_state content = trim (case content of Some s \<Rightarrow> s | None \<Rightarrow> [])"

text \<open>\<open>hostname\<close> of the text of \<open>/proc/sys/kernel/hostname\<close>.\<close>

definition tui_hostname :: "rstr option \<Rightarrow> rstr" where
  "tui_hostname content = (case map_option trim content of
      Some h \<Rightarrow> if h = [] \<or> h = str ''(none)'' then str ''this host'' else h
    | None \<Rightarrow> str ''this host'')"

section \<open>The command line\<close>

text \<open>\<open>start_edit_session\<close> of what spawning systemctl and waiting for it gave.\<close>

definition start_edit_session :: "rstr \<Rightarrow> message + exit_seen \<Rightarrow> message + unit" where
  "start_edit_session edit_unit result = (case result of
      Inr ExitSuccess \<Rightarrow> Inr ()
    | Inr (ExitStatus status) \<Rightarrow>
        Inl (Fmt ''could not start {} ({}); editing needs root, and the unit exists only where operator-secrets is enabled''
          [Str edit_unit, status])
    | Inr (WaitFailed e) \<Rightarrow> Inl (Fmt ''starting {}: {}'' [Str edit_unit, e])
    | Inl e \<Rightarrow> Inl (Fmt ''starting {}: {}'' [Str edit_unit, e]))"

text \<open>
  \<open>main\<close>: \<open>None\<close> is exit code 0, a message the one printed before exit code 1.  The last two
  arguments are what \<open>run_tui\<close> and \<open>run_lines\<close> return.
\<close>

definition tui_main ::
    "tui_cli \<Rightarrow> bool \<Rightarrow> message + unit \<Rightarrow> message + unit \<Rightarrow> message + unit \<Rightarrow> message option" where
  "tui_main cli terminal started screen_run lines_run =
     (let finish = (\<lambda>r. case r of Inr () \<Rightarrow> None | Inl e \<Rightarrow> Some (Fmt ''operator-secrets-tui: {}'' [e])) in
      if cli_edit cli then
        (if \<not> terminal then Some (lit ''operator-secrets-tui: --edit needs a terminal'')
         else if console cli then Some (lit ''operator-secrets-tui: --edit and --console are not compatible'')
         else case started of Inr () \<Rightarrow> finish screen_run | Inl e \<Rightarrow> finish (Inl e))
      else if cli_secret cli \<noteq> None then
        Some (lit ''operator-secrets-tui: naming a secret only makes sense with --edit'')
      else if terminal then finish screen_run
      else finish lines_run)"

end
