(* ===== verification/Disk_Tui.thy ===== *)
theory Disk_Tui
  imports Disk_Daemon Tui_Keys
begin

text \<open>
  var-disk-manager-tui, \<open>packages/var-disk-manager/src/bin/tui.rs\<close>: the client that shows the
  state of the disk daemon and answers its prompts.  A screen is the text drawn, without
  colours, layout and the progress gauge's bar, its dashes in ASCII; \<open>answers\<close> holds the answers that reached the
  daemon, newest first.
\<close>

section \<open>State\<close>

record disk_app =
  ta_snap :: disk_snapshot
  ta_input :: rstr
  ta_gone :: bool
  answers :: "(nat \<times> rstr) list"

definition disk_app_start :: disk_app where
  "disk_app_start = \<lparr>ta_snap = empty_snapshot, ta_input = [], ta_gone = False, answers = []\<rparr>"

datatype after_tui = Shell | ExitTui

section \<open>The loop\<close>

text \<open>\<open>submit_answer\<close> of the input, which is taken, and its caller's handling of a failure.\<close>

definition submit_answer :: "bool \<Rightarrow> nat \<Rightarrow> disk_app \<Rightarrow> disk_app" where
  "submit_answer write_ok i a =
     (if write_ok then a\<lparr>answers := (i, ta_input a) # answers a, ta_input := []\<rparr>
      else a\<lparr>ta_input := [], ta_gone := True\<rparr>)"

definition adopt_disk :: "disk_snapshot \<Rightarrow> disk_app \<Rightarrow> disk_app" where
  "adopt_disk sn a =
     (let a = (if map_option dp_id (dn_prompt sn) \<noteq> map_option dp_id (dn_prompt (ta_snap a))
               then a\<lparr>ta_input := []\<rparr> else a) in
      a\<lparr>ta_snap := sn\<rparr>)"

text \<open>The prompt a single key answers.\<close>

definition confirm_id :: "rchar \<Rightarrow> disk_app \<Rightarrow> nat option" where
  "confirm_id c a = (case dn_prompt (ta_snap a) of
      Some p \<Rightarrow>
        if dp_kind p = Confirm \<and> c \<in> set (str ''yYnN'') then Some (dp_id p) else None
    | None \<Rightarrow> None)"

definition on_disk_key :: "bool \<Rightarrow> key_press \<Rightarrow> disk_app \<Rightarrow> after_tui + disk_app" where
  "on_disk_key write_ok k a =
     (if key k = KeyChar (ch CHR ''c'') \<and> control k then Inl Shell
      else if key k = KeyEsc then Inl Shell
      else if key k = KeyEnter then
        (case dn_prompt (ta_snap a) of
           Some p \<Rightarrow> Inr (submit_answer write_ok (dp_id p) a)
         | None \<Rightarrow> if ta_gone a then Inl ExitTui else Inr a)
      else if key k = KeyBackspace then Inr (a\<lparr>ta_input := butlast (ta_input a)\<rparr>)
      else if key k = KeyChar (ch CHR ''u'') \<and> control k then Inr (a\<lparr>ta_input := []\<rparr>)
      else (case key k of
          KeyChar c \<Rightarrow>
            (case confirm_id c a of
               Some i \<Rightarrow> Inr (submit_answer write_ok i (a\<lparr>ta_input := [c]\<rparr>))
             | None \<Rightarrow> Inr (a\<lparr>ta_input := ta_input a @ [c]\<rparr>))
        | _ \<Rightarrow> Inr a))"

definition disk_tui_turn :: "bool \<Rightarrow> bool \<Rightarrow> disk_snapshot tui_event \<Rightarrow> disk_app \<Rightarrow> after_tui + disk_app" where
  "disk_tui_turn console_mode write_ok ev a = (case ev of
      Snap sn \<Rightarrow> Inr (if ta_gone a then a else adopt_disk sn a)
    | BadLine \<Rightarrow> Inr a
    | Closed \<Rightarrow>
        if ta_gone a then Inr a
        else if console_mode then Inl ExitTui
        else Inr (a\<lparr>ta_gone := True\<rparr>)
    | Press k \<Rightarrow> on_disk_key write_ok k a
    | OtherTerminalEvent \<Rightarrow> Inr a)"

section \<open>The screen\<close>

definition class_style :: "disk_class \<Rightarrow> string" where
  "class_style c = (case c of
      Luks \<Rightarrow> ''LUKS'' | Legacy \<Rightarrow> ''legacy'' | Blank \<Rightarrow> ''blank'' | Foreign \<Rightarrow> ''foreign'')"

definition prompt_title :: "prompt_kind \<Rightarrow> string" where
  "prompt_title k = (case k of
      UnlockPassphrase \<Rightarrow> '' passphrase '' | NewPassphrase \<Rightarrow> '' NEW passphrase ''
    | RepeatPassphrase \<Rightarrow> '' repeat passphrase '' | Confirm \<Rightarrow> '' confirm '')"

definition shown_answer :: "prompt_kind \<Rightarrow> rstr \<Rightarrow> rstr" where
  "shown_answer k input = (if k = Confirm then input else replicate (length input) (ch CHR ''*''))"

text \<open>The bottom of the screen: a title and lines.\<close>

definition disk_bottom :: "disk_app \<Rightarrow> string \<times> message list" where
  "disk_bottom a =
     (if ta_gone a then
        ('''', [lit '''', lit ''  daemon exited - boot is continuing (or failed; check the journal)'',
                lit ''  Enter: close  |  Esc / Ctrl-C: shell''])
      else case dn_prompt (ta_snap a) of
        Some p \<Rightarrow>
          (prompt_title (dp_kind p),
           [Fmt ''  {}'' [dp_text p], Fmt ''  > {}'' [Str (shown_answer (dp_kind p) (ta_input a))], lit '''',
            if dp_kind p = Confirm then lit ''  y: format  |  n: keep & block  |  Esc / Ctrl-C: shell''
            else lit ''  Enter: submit  |  Ctrl-U: clear  |  Esc / Ctrl-C: shell''])
      | None \<Rightarrow> ('''', [lit '''', lit ''  waiting...'', lit ''  Esc / Ctrl-C: shell'']))"

record disk_screen =
  ds_header :: "message list"
  ds_rows :: "(rstr \<times> string \<times> message) list"
  ds_status :: "message"
  ds_bottom :: "string \<times> message list"

text \<open>\<open>percent\<close> is the floating-point ratio as it is printed.\<close>

definition disk_tui_screen :: "(nat \<Rightarrow> nat \<Rightarrow> rstr) \<Rightarrow> rstr \<Rightarrow> disk_app \<Rightarrow> disk_screen" where
  "disk_tui_screen percent host a =
     \<lparr>ds_header = [Fmt ''  {} initrd - /var disk manager'' [Str host],
        (case dn_fingerprint (ta_snap a) of Some fp \<Rightarrow> Fmt ''  host key: {}'' [Str fp] | None \<Rightarrow> lit ''  host key: (not provisioned yet)'')],
      ds_rows = map (\<lambda>d. (di_id d, class_style (di_class d), di_detail d)) (dn_disks (ta_snap a)),
      ds_status = (case dn_progress (ta_snap a) of
          Some (copied, of_all) \<Rightarrow> Fmt ''{}% ({} / {} MiB)'' [Str (percent copied of_all), Num (copied div 2 ^ 20), Num (of_all div 2 ^ 20)]
        | None \<Rightarrow> Fmt ''  {}'' [dn_message (ta_snap a)]),
      ds_bottom = disk_bottom a\<rparr>"

text \<open>\<open>hostname\<close> of the text of \<open>/proc/sys/kernel/hostname\<close>.\<close>

definition disk_hostname :: "rstr option \<Rightarrow> rstr" where
  "disk_hostname content = (case map_option trim content of
      Some h \<Rightarrow> if h = [] \<or> h = str ''(none)'' \<or> h = str ''localhost'' then str ''initrd'' else h
    | None \<Rightarrow> str ''initrd'')"

section \<open>The command line\<close>

text \<open>
  \<open>main\<close>: the arguments behind the program name, what \<open>run_tui\<close> returns for a console mode, what
  \<open>run_lines\<close> returns; the result is the line written to standard error, if any, and how the
  program ends: by executing \<open>/bin/sh\<close> with arguments, or with an exit code.
\<close>

datatype program_end = ExecShell "rstr list" | ExitCode nat

definition disk_tui_main ::
    "rstr list \<Rightarrow> bool \<Rightarrow> (bool \<Rightarrow> message + after_tui) \<Rightarrow> message + unit \<Rightarrow> message option \<times> program_end" where
  "disk_tui_main args terminal screen_run lines_run =
     (if take 1 args = [str ''-c''] then (None, ExecShell args)
      else if terminal then
        (case screen_run (str ''--console'' \<in> set args) of
           Inr Shell \<Rightarrow> (None, ExecShell [])
         | Inr ExitTui \<Rightarrow> (None, ExitCode 0)
         | Inl e \<Rightarrow> (Some (Fmt ''var-disk-manager-tui: {}'' [e]), ExecShell []))
      else (case lines_run of
           Inr () \<Rightarrow> (None, ExitCode 0)
         | Inl e \<Rightarrow> (Some (Fmt ''var-disk-manager-tui: {}'' [e]), ExitCode 1)))"

section \<open>Line mode\<close>

text \<open>What \<open>run_lines\<close> prints for the lines of the connection, a parse error ending it.\<close>

fun disk_run_lines :: "message \<Rightarrow> (message + disk_snapshot) list \<Rightarrow> message list \<times> message option" where
  "disk_run_lines last_message [] = ([lit ''daemon exited (boot continuing or failed)''], None)"
| "disk_run_lines last_message (Inl e # ls) = ([], Some (Fmt ''parsing snapshot: {}'' [e]))"
| "disk_run_lines last_message (Inr sn # ls) =
     (let (out, r) = disk_run_lines (dn_message sn) ls in
      ((if dn_message sn \<noteq> last_message then [dn_message sn] else []) @ out, r))"

end
