(* ===== verification/Tui_Claims.thy ===== *)
theory Tui_Claims
  imports Secrets_Claims Secrets_Tui Disk_Claims Disk_Tui
begin

text \<open>
  What the two boot-time terminal programs guarantee: what is typed for a hidden field never
  reaches the screen, what a form submits is what the daemon's check expects, and an answer
  goes to the prompt it was typed for.
\<close>

section \<open>Hidden input\<close>

definition hidden_at :: "secret_prompt \<Rightarrow> nat \<Rightarrow> bool" where
  "hidden_at p i \<longleftrightarrow> i < length (pr_fields p) \<and> pf_sensitive (pr_fields p ! i)"

definition alike_inputs :: "secret_prompt option \<Rightarrow> rstr list \<Rightarrow> rstr list \<Rightarrow> bool" where
  "alike_inputs po xs ys \<longleftrightarrow> (case po of
      None \<Rightarrow> xs = ys
    | Some p \<Rightarrow> length xs = length ys \<and>
        (\<forall>i<length xs. if hidden_at p i then length (xs ! i) = length (ys ! i) else xs ! i = ys ! i))"

lemma alike_inputs_Some:
  "alike_inputs (Some p) xs ys \<longleftrightarrow> length xs = length ys \<and>
     (\<forall>i<length xs. if hidden_at p i then length (xs ! i) = length (ys ! i) else xs ! i = ys ! i)"
  by (simp add: alike_inputs_def)

lemma alike_inputs_None [simp]: "alike_inputs None xs ys \<longleftrightarrow> xs = ys"
  by (simp add: alike_inputs_def)

lemma alike_inputs_refl [simp]: "alike_inputs po xs xs"
  by (cases po) (simp_all add: alike_inputs_Some)

lemma alike_inputs_length: "alike_inputs po xs ys \<Longrightarrow> length xs = length ys"
  by (cases po) (simp_all add: alike_inputs_Some)

text \<open>Two states that differ only in what hidden fields hold and in what was sent.\<close>

definition looks_alike :: "tui_app \<Rightarrow> tui_app \<Rightarrow> bool" where
  "looks_alike a b \<longleftrightarrow> alike_inputs (ss_prompt (t_snap a)) (inputs a) (inputs b) \<and>
     a\<lparr>inputs := [], sent := []\<rparr> = b\<lparr>inputs := [], sent := []\<rparr>"

lemma looks_alike_iff:
  "looks_alike a b \<longleftrightarrow> alike_inputs (ss_prompt (t_snap a)) (inputs a) (inputs b) \<and>
     t_snap b = t_snap a \<and> focus b = focus a \<and> picked b = picked a \<and> choice_sent b = choice_sent a \<and>
     editing b = editing a \<and> daemon_gone b = daemon_gone a \<and> t_note b = t_note a"
  by (cases a; cases b) (auto simp: looks_alike_def)

lemma shown_input_alike:
  assumes "alike_inputs (Some p) xs ys" "i < length (pr_fields p)"
  shows "shown_input xs (i, pr_fields p ! i) = shown_input ys (i, pr_fields p ! i)"
  using assms by (auto simp: alike_inputs_Some shown_input_def hidden_at_def split: if_splits)

lemma field_lines_alike:
  assumes "looks_alike a b" "ss_prompt (t_snap a) = Some p"
  shows "map (field_lines a) (enumerate 0 (pr_fields p)) = map (field_lines b) (enumerate 0 (pr_fields p))"
  using assms
  by (auto simp: looks_alike_iff field_lines_def in_set_enumerate_eq shown_input_alike split: prod.splits)

lemma screen_alike:
  assumes "looks_alike a b"
  shows "tui_screen host a = tui_screen host b"
proof -
  have eq: "t_snap b = t_snap a" "focus b = focus a" "picked b = picked a" "editing b = editing a"
      "daemon_gone b = daemon_gone a" "t_note b = t_note a"
    using assms by (simp_all add: looks_alike_iff)
  have rows: "table_row a = table_row b"
    by (rule ext) (simp add: table_row_def choosing_def eq split: prod.split)
  have note_eq: "note_lines a = note_lines b" by (simp add: note_lines_def eq)
  have form: "form_lines a p = form_lines b p" if "ss_prompt (t_snap a) = Some p" for p
    by (simp only: form_lines_def note_eq field_lines_alike [OF assms that])
  show ?thesis
  proof (cases "ss_prompt (t_snap a)")
    case None
    then show ?thesis by (simp add: tui_screen_def eq rows note_eq choosing_def)
  next
    case (Some p)
    then show ?thesis by (simp add: tui_screen_def eq rows form)
  qed
qed

lemma alike_update:
  assumes "alike_inputs po xs ys" "i < length xs"
    "case po of Some p \<Rightarrow> if hidden_at p i then length x = length y else x = y | None \<Rightarrow> x = y"
  shows "alike_inputs po (xs[i := x]) (ys[i := y])"
  using assms by (cases po) (auto simp: alike_inputs_Some nth_list_update)

lemma alike_nth:
  assumes "alike_inputs po xs ys" "i < length xs"
  shows "case po of Some p \<Rightarrow> if hidden_at p i then length (xs ! i) = length (ys ! i) else xs ! i = ys ! i
    | None \<Rightarrow> xs ! i = ys ! i"
  using assms by (cases po) (auto simp: alike_inputs_Some)

lemma alike_empty_nth:
  assumes "alike_inputs po xs ys" "i < length xs"
  shows "xs ! i = [] \<longleftrightarrow> ys ! i = []"
  using alike_nth [OF assms] by (auto split: option.splits if_splits)

lemma alike_empty_field: "alike_inputs po xs ys \<Longrightarrow> empty_field xs = empty_field ys"
  using alike_inputs_length [of po xs ys] alike_empty_nth [of po xs ys]
  by (intro ext) (auto simp: empty_field_def)

lemma edit_input_alike:
  assumes "looks_alike a b" "\<And>x y. length x = length y \<Longrightarrow> length (f x) = length (g y)"
    "(case ss_prompt (t_snap a) of Some p \<Rightarrow> hidden_at p (focus a) | None \<Rightarrow> False) \<or> f = g"
  shows "looks_alike (edit_input f a) (edit_input g b)"
proof -
  have al: "alike_inputs (ss_prompt (t_snap a)) (inputs a) (inputs b)"
    using assms(1) by (simp add: looks_alike_iff)
  have len: "length (inputs b) = length (inputs a)" using alike_inputs_length [OF al] by simp
  show ?thesis
  proof (cases "focus a < length (inputs a)")
    case True
    have "case ss_prompt (t_snap a) of
        Some p \<Rightarrow> if hidden_at p (focus a) then length (f (inputs a ! focus a)) = length (g (inputs b ! focus a))
          else f (inputs a ! focus a) = g (inputs b ! focus a)
      | None \<Rightarrow> f (inputs a ! focus a) = g (inputs b ! focus a)"
    proof (cases "ss_prompt (t_snap a)")
      case None
      then show ?thesis using alike_nth [OF al True] assms(3) by simp
    next
      case (Some p)
      show ?thesis
      proof (cases "hidden_at p (focus a)")
        case True
        then show ?thesis using Some alike_nth [OF al \<open>focus a < length (inputs a)\<close>] by (simp add: assms(2))
      next
        case False
        then show ?thesis using Some alike_nth [OF al \<open>focus a < length (inputs a)\<close>] assms(3) by simp
      qed
    qed
    then have "alike_inputs (ss_prompt (t_snap a)) ((inputs a)[focus a := f (inputs a ! focus a)])
        ((inputs b)[focus a := g (inputs b ! focus a)])"
      by (rule alike_update [OF al True])
    then show ?thesis using assms(1) True len by (simp add: looks_alike_iff edit_input_def)
  next
    case False
    then show ?thesis using assms(1) len by (simp add: looks_alike_iff edit_input_def)
  qed
qed

lemma submit_alike:
  assumes "looks_alike a b"
  shows "looks_alike (submit w a) (submit w b)"
proof -
  have al: "alike_inputs (ss_prompt (t_snap a)) (inputs a) (inputs b)"
    using assms(1) by (simp add: looks_alike_iff)
  show ?thesis
    using assms alike_empty_field [OF al]
    by (auto simp: submit_def looks_alike_iff lost_def Let_def split: option.split)
qed

text \<open>
  Events that an onlooker of the keyboard only could tell apart: the same event, or two characters
  typed into a hidden field.  A daemon's snapshot that names the prompt on display describes
  the same form (\<open>Ui::ask\<close> draws a new id for every form it publishes).
\<close>

definition types_hidden :: "tui_app \<Rightarrow> secrets_snapshot tui_event \<Rightarrow> bool" where
  "types_hidden a ev = (case ev of
      Press k \<Rightarrow> (case key k of KeyChar c \<Rightarrow> \<not> control k | _ \<Rightarrow> False) \<and>
        (case ss_prompt (t_snap a) of Some p \<Rightarrow> hidden_at p (focus a) | None \<Rightarrow> False)
    | _ \<Rightarrow> False)"

definition same_form :: "tui_app \<Rightarrow> secrets_snapshot tui_event \<Rightarrow> bool" where
  "same_form a ev = (case ev of
      Snap sn \<Rightarrow> (case (ss_prompt sn, ss_prompt (t_snap a)) of
          (Some p, Some q) \<Rightarrow> pr_id p = pr_id q \<longrightarrow> pr_fields p = pr_fields q
        | _ \<Rightarrow> True)
    | _ \<Rightarrow> True)"

lemma adopt_alike:
  assumes "looks_alike a b" "same_form a (Snap sn)"
  shows "looks_alike (adopt sn a) (adopt sn b)"
proof (cases "map_option pr_id (ss_prompt sn) = map_option pr_id (ss_prompt (t_snap a))")
  case True
  have "alike_inputs (ss_prompt sn) (inputs a) (inputs b)"
    using assms True
    by (cases "ss_prompt sn"; cases "ss_prompt (t_snap a)")
       (auto simp: looks_alike_iff alike_inputs_Some same_form_def hidden_at_def)
  then show ?thesis using assms(1) True by (simp add: looks_alike_iff adopt_def)
next
  case False
  then show ?thesis using assms(1) by (simp add: looks_alike_iff adopt_def)
qed

lemma send_choice_alike: "looks_alike a b \<Longrightarrow> looks_alike (send_choice w n a) (send_choice w n b)"
  by (simp add: looks_alike_iff send_choice_def lost_def)

lemma on_line_alike:
  assumes "looks_alike a b"
  shows "looks_alike (on_line cli w a) (on_line cli w b)"
proof (cases "cli_secret cli")
  case None
  then show ?thesis using assms by (simp add: on_line_def)
next
  case (Some n)
  have eq: "choosing b = choosing a" "choice_sent b = choice_sent a"
    using assms by (simp_all add: looks_alike_iff choosing_def)
  have "looks_alike (a\<lparr>choice_sent := True\<rparr>) (b\<lparr>choice_sent := True\<rparr>)"
    using assms by (simp add: looks_alike_iff)
  from send_choice_alike [OF this, of w n] show ?thesis
    using assms Some by (simp add: on_line_def eq)
qed

lemma move_focus_alike: "looks_alike a b \<Longrightarrow> looks_alike (move_focus d a) (move_focus d b)"
  by (simp add: looks_alike_iff move_focus_def field_count_def)

lemma move_selection_alike: "looks_alike a b \<Longrightarrow> looks_alike (move_selection d a) (move_selection d b)"
  by (simp add: looks_alike_iff move_selection_def)

lemma on_choose_key_alike:
  assumes "looks_alike a b"
  shows "rel_option looks_alike (on_choose_key w k a) (on_choose_key w k b)"
proof -
  have eq: "t_snap b = t_snap a" "picked b = picked a" using assms by (simp_all add: looks_alike_iff)
  show ?thesis
    unfolding on_choose_key_def eq
    by (simp add: assms move_selection_alike send_choice_alike)
qed

lemma edit_same_alike:
  assumes "looks_alike a b" "\<And>x y. length x = length y \<Longrightarrow> length (f x) = length (f y)"
  shows "looks_alike (edit_input f a) (edit_input f b)"
  by (rule edit_input_alike [OF assms]) simp_all

lemma on_form_key_alike:
  assumes "looks_alike a b"
  shows "rel_option looks_alike (on_form_key cli w k a) (on_form_key cli w k b)"
proof -
  have counts: "field_count b = field_count a" "focus b = focus a" "daemon_gone b = daemon_gone a"
    using assms by (simp_all add: looks_alike_iff field_count_def)
  have noted: "looks_alike (a\<lparr>t_note := n\<rparr>) (b\<lparr>t_note := n\<rparr>)" for n
    using assms by (simp add: looks_alike_iff)
  have edits: "looks_alike (edit_input (\<lambda>_. []) a) (edit_input (\<lambda>_. []) b)"
      "looks_alike (edit_input butlast a) (edit_input butlast b)"
      "\<And>c. looks_alike (edit_input (\<lambda>s. s @ [c]) a) (edit_input (\<lambda>s. s @ [c]) b)"
    by (rule edit_same_alike [OF assms], simp)+
  show ?thesis
    unfolding on_form_key_def counts
    by (auto simp: assms noted edits submit_alike move_focus_alike split: key.split)
qed

lemma turn_same_alike:
  assumes "looks_alike a b" "same_form a ev"
  shows "rel_option looks_alike (tui_turn cli w ev a) (tui_turn cli w ev b)"
proof -
  have eq: "daemon_gone b = daemon_gone a" "choosing b = choosing a"
    using assms(1) by (simp_all add: looks_alike_iff choosing_def)
  have gone: "looks_alike (a\<lparr>daemon_gone := True\<rparr>) (b\<lparr>daemon_gone := True\<rparr>)"
    using assms(1) by (simp add: looks_alike_iff)
  show ?thesis
    using assms
    by (cases ev) (simp_all add: tui_turn_def eq gone adopt_alike on_line_alike on_choose_key_alike on_form_key_alike)
qed

lemma on_form_key_char:
  assumes "\<not> control k" "key k = KeyChar c"
  shows "on_form_key cli w k a = Some (edit_input (\<lambda>s. s @ [c]) a)"
  using assms by (simp add: on_form_key_def)

lemma turn_typed_alike:
  assumes "looks_alike a b" "types_hidden a ev" "types_hidden a ev'"
  shows "rel_option looks_alike (tui_turn cli w ev a) (tui_turn cli w ev' b)"
proof -
  from assms(2) obtain p k c where ev: "ev = Press k" "key k = KeyChar c" "\<not> control k"
      and p: "ss_prompt (t_snap a) = Some p" "hidden_at p (focus a)"
    by (auto simp: types_hidden_def split: tui_event.splits key.splits option.splits)
  from assms(3) obtain k' c' where ev': "ev' = Press k'" "key k' = KeyChar c'" "\<not> control k'"
    by (auto simp: types_hidden_def split: tui_event.splits key.splits)
  have "\<not> choosing a" "\<not> choosing b"
    using p assms(1) by (simp_all add: choosing_def looks_alike_iff)
  moreover have "looks_alike (edit_input (\<lambda>s. s @ [c]) a) (edit_input (\<lambda>s. s @ [c']) b)"
    by (rule edit_input_alike [OF assms(1)]) (simp_all add: p)
  ultimately show ?thesis
    by (simp add: tui_turn_def ev(1) ev'(1) on_form_key_char [OF ev(3,2)] on_form_key_char [OF ev'(3,2)])
qed

text \<open>A run of the program over its events, each with whether writing to the daemon works then.\<close>

fun tui_run :: "tui_cli \<Rightarrow> (bool \<times> secrets_snapshot tui_event) list \<Rightarrow> tui_app \<Rightarrow> tui_app option" where
  "tui_run cli [] a = Some a"
| "tui_run cli ((w, ev) # evs) a =
     (case tui_turn cli w ev a of None \<Rightarrow> None | Some a' \<Rightarrow> tui_run cli evs a')"

fun differ_in_hidden :: "tui_cli \<Rightarrow> tui_app \<Rightarrow> (bool \<times> secrets_snapshot tui_event) list \<Rightarrow>
    (bool \<times> secrets_snapshot tui_event) list \<Rightarrow> bool" where
  "differ_in_hidden cli a [] evs' \<longleftrightarrow> evs' = []"
| "differ_in_hidden cli a ((w, ev) # evs) [] \<longleftrightarrow> False"
| "differ_in_hidden cli a ((w, ev) # evs) ((w', ev') # evs') \<longleftrightarrow>
     w' = w \<and> (ev' = ev \<and> same_form a ev \<or> types_hidden a ev \<and> types_hidden a ev') \<and>
     (case tui_turn cli w ev a of None \<Rightarrow> True | Some a' \<Rightarrow> differ_in_hidden cli a' evs evs')"

lemma run_alike:
  assumes "looks_alike a b" "differ_in_hidden cli a evs evs'"
  shows "rel_option looks_alike (tui_run cli evs a) (tui_run cli evs' b)"
  using assms
proof (induction cli a evs evs' arbitrary: b rule: differ_in_hidden.induct)
  case (3 cli a w ev evs w' ev' evs')
  have turn: "rel_option looks_alike (tui_turn cli w ev a) (tui_turn cli w ev' b)"
    using "3.prems" turn_same_alike turn_typed_alike by auto
  show ?case
  proof (cases "tui_turn cli w ev a")
    case None
    then show ?thesis using turn "3.prems" by (auto split: option.split)
  next
    case (Some a')
    with turn obtain b' where b': "tui_turn cli w ev' b = Some b'" "looks_alike a' b'"
      by (auto simp: option_rel_Some1)
    show ?thesis using "3.IH" [OF Some b'(2)] "3.prems"(2) Some b' by simp
  qed
qed auto

text \<open>C35: What is typed into a hidden field never reaches the screen: two runs of the terminal program
  that differ only in the characters typed into fields marked sensitive end alike and draw the
  same screen, through snapshots, focus moves, submitting, lost connections and all.\<close>

theorem screen_independent_of_hidden_input:
  assumes "differ_in_hidden cli a evs evs'"
  shows "rel_option (\<lambda>x y. tui_screen host x = tui_screen host y) (tui_run cli evs a) (tui_run cli evs' a)"
proof -
  have "looks_alike a a" by (simp add: looks_alike_iff)
  from run_alike [OF this assms] show ?thesis
    by (rule option.rel_mono_strong) (rule screen_alike)
qed

definition demo_tui_form :: secret_prompt where
  "demo_tui_form = \<lparr>pr_id = 3, pr_secret = str ''db'', pr_description = [], pr_reason = Str [],
     pr_fields = prompt_fields demo_secret Map.empty\<rparr>"

definition demo_app :: "rstr list \<Rightarrow> tui_app" where
  "demo_app ins = (tui_start \<lparr>cli_socket = None, console = True, cli_edit = False, cli_secret = None\<rparr>)
     \<lparr>t_snap := default_snapshot\<lparr>ss_prompt := Some demo_tui_form\<rparr>, inputs := ins, focus := 1\<rparr>"

abbreviation press :: "char \<Rightarrow> secrets_snapshot tui_event" where
  "press c \<equiv> Press \<lparr>key = KeyChar (ch c), control = False\<rparr>"

theorem screen_independent_of_hidden_input_witness:
  "rel_option (\<lambda>x y. tui_screen [] x = tui_screen [] y)
     (tui_run \<lparr>cli_socket = None, console = True, cli_edit = False, cli_secret = None\<rparr>
        [(True, press CHR ''a''), (False, press CHR ''b'')] (demo_app [str ''u'', []]))
     (tui_run \<lparr>cli_socket = None, console = True, cli_edit = False, cli_secret = None\<rparr>
        [(True, press CHR ''x''), (False, press CHR ''b'')] (demo_app [str ''u'', []]))"
  by (rule screen_independent_of_hidden_input)
     (simp add: demo_app_def demo_tui_form_def demo_secret_def prompt_fields_def types_hidden_def hidden_at_def
       same_form_def tui_turn_def on_form_key_def edit_input_def choosing_def tui_start_def)

section \<open>A submitted form\<close>

lemma find_empty_field:
  "find (empty_field ins) (enumerate 0 fs) = None \<longleftrightarrow> (\<forall>i<length fs. i < length ins \<and> ins ! i \<noteq> [])"
  by (auto simp: find_None_iff in_set_enumerate_eq empty_field_def)

lemma find_empty_fieldD:
  "find (empty_field ins) (enumerate 0 fs) = Some (i, f) \<Longrightarrow> i < length fs \<and> \<not> (i < length ins \<and> ins ! i \<noteq> [])"
  by (auto simp: find_Some_iff in_set_enumerate_eq empty_field_def nth_enumerate_eq)

lemma submitted_values:
  "length fs = length ins \<Longrightarrow>
    map (\<lambda>(i, f). (pf_name f, ins ! i)) (enumerate 0 fs) = zip (map pf_name fs) ins"
  by (rule nth_equalityI) (simp_all add: nth_enumerate_eq)

lemma accept_all_fields:
  assumes dist: "distinct (map fname (sfields spec))" and len: "length vs = length (sfields spec)"
  shows "accept_submission spec (zip (map fname (sfields spec)) vs) = Inr out \<longleftrightarrow>
     (\<forall>v\<in>set vs. ok_value v) \<and> out = zip (map fname (sfields spec)) vs"
    (is "accept_submission spec ?vals = _ \<longleftrightarrow> _")
proof -
  have fst: "map fst ?vals = map fname (sfields spec)" using len by simp
  have known: "\<forall>(k, v)\<in>set ?vals. field_of spec k \<noteq> None"
    by (auto dest!: set_zip_leftD simp: field_of_def find_None_iff)
  have val: "map_of ?vals (fname (sfields spec ! i)) = Some (vs ! i)" if "i < length vs" for i
    using that len dist map_of_zip_nth [of "map fname (sfields spec)" vs i] by simp
  have ok: "(\<forall>f\<in>set (sfields spec). \<exists>v. map_of ?vals (fname f) = Some v \<and> ok_value v) \<longleftrightarrow> (\<forall>v\<in>set vs. ok_value v)"
    using val len by (simp add: all_set_conv_all_nth)
  have same: "map (\<lambda>f. (fname f, the (map_of ?vals (fname f)))) (sfields spec) = ?vals"
    using val len by (intro nth_equalityI) simp_all
  show ?thesis
    unfolding accept_submission_Inr_iff fst ok same using known dist by auto
qed

lemma prompt_fields_names:
  "length (prompt_fields spec known) = length (sfields spec)"
  "map pf_name (prompt_fields spec known) = map fname (sfields spec)"
  by (simp_all add: prompt_fields_def)

text \<open>C36: Submitting a form the daemon asked for: with an empty field nothing is sent and the cursor
  stands on an empty field; otherwise exactly one message goes out, under the prompt's id, with
  every declared field once and in order, and the daemon's check of it (accept_submission) takes
  it exactly when no value holds a control character, the only check it has left to make.\<close>

theorem submitted_form_is_judged:
  assumes "ss_prompt (t_snap a) = Some p" "pr_fields p = prompt_fields spec known"
    and "distinct (map fname (sfields spec))" "length (inputs a) = length (sfields spec)"
  shows "if [] \<in> set (inputs a)
    then sent (submit w a) = sent a \<and> inputs (submit w a) = inputs a \<and>
      focus (submit w a) < length (inputs a) \<and> inputs a ! focus (submit w a) = []
    else \<exists>vals. sent (submit True a) = Submit (pr_id p) vals # sent a \<and>
      sent (submit False a) = sent a \<and> daemon_gone (submit False a) \<and>
      vals = zip (map fname (sfields spec)) (inputs a) \<and>
      (case accept_submission spec vals of
         Inr out \<Rightarrow> out = vals \<and> (\<forall>v\<in>set (inputs a). \<not> list_ex is_control v)
       | Inl e \<Rightarrow> \<exists>v\<in>set (inputs a). list_ex is_control v)"
proof (cases "[] \<in> set (inputs a)")
  case True
  have "\<not> (\<forall>i<length (pr_fields p). i < length (inputs a) \<and> inputs a ! i \<noteq> [])"
    using True assms(2,4) by (auto simp: in_set_conv_nth prompt_fields_names)
  then obtain i f where find: "find (empty_field (inputs a)) (enumerate 0 (pr_fields p)) = Some (i, f)"
    by (metis find_empty_field not_Some_eq surj_pair)
  then have "i < length (inputs a)" "inputs a ! i = []"
    using find_empty_fieldD [OF find] assms(2,4) by (simp_all add: prompt_fields_names)
  then show ?thesis using True by (simp add: submit_def assms(1) find)
next
  case False
  have find: "find (empty_field (inputs a)) (enumerate 0 (pr_fields p)) = None"
    using False assms(2,4) by (auto simp: find_empty_field prompt_fields_names in_set_conv_nth)
  define vals where "vals = zip (map fname (sfields spec)) (inputs a)"
  have shown: "map (\<lambda>(i, f). (pf_name f, inputs a ! i)) (enumerate 0 (pr_fields p)) = vals"
    using submitted_values [of "pr_fields p" "inputs a"] assms(2,4)
    by (simp add: prompt_fields_names vals_def)
  have ok: "(\<forall>v\<in>set (inputs a). ok_value v) \<longleftrightarrow> (\<forall>v\<in>set (inputs a). \<not> list_ex is_control v)"
    using False by (auto simp: ok_value_def list_ex_iff)
  have judged: "case accept_submission spec vals of
         Inr out \<Rightarrow> out = vals \<and> (\<forall>v\<in>set (inputs a). \<not> list_ex is_control v)
       | Inl e \<Rightarrow> \<exists>v\<in>set (inputs a). list_ex is_control v"
  proof (cases "accept_submission spec vals")
    case (Inr out)
    then show ?thesis using accept_all_fields [OF assms(3,4), of out] ok by (simp add: vals_def)
  next
    case (Inl e)
    then have "\<not> (\<forall>v\<in>set (inputs a). ok_value v)"
      using accept_all_fields [OF assms(3,4), of vals] by (simp add: vals_def)
    then show ?thesis using Inl ok by auto
  qed
  show ?thesis using False judged
    by (simp add: submit_def assms(1) find shown lost_def flip: vals_def)
qed

theorem submitted_form_is_judged_witness:
  "sent (submit True (demo_app [str ''u'', str ''p w''])) = [Submit 3 demo_vals] \<and>
   sent (submit True (demo_app [str ''u'', []])) = [] \<and> focus (submit True (demo_app [str ''u'', []])) = 1"
proof -
  have form: "ss_prompt (t_snap (demo_app ins)) = Some demo_tui_form"
      "pr_fields demo_tui_form = prompt_fields demo_secret Map.empty"
      "distinct (map fname (sfields demo_secret))"
      "inputs (demo_app ins) = ins" "sent (demo_app ins) = []" "pr_id demo_tui_form = 3"
      "length (sfields demo_secret) = 2"
      "map fname (sfields demo_secret) = [str ''USER'', str ''PASS'']" for ins
    by (simp_all add: demo_app_def demo_tui_form_def demo_secret_def tui_start_def str_def)
  have strs: "str ''u'' \<noteq> []" "str ''p w'' \<noteq> []" by (simp_all add: str_def)
  have "sent (submit True (demo_app [str ''u'', str ''p w''])) = [Submit 3 demo_vals]"
    using submitted_form_is_judged [OF form(1-3), of "[str ''u'', str ''p w'']"]
    by (auto simp: form demo_vals_def strs)
  moreover have "sent (submit True (demo_app [str ''u'', []])) = [] \<and>
      focus (submit True (demo_app [str ''u'', []])) = 1"
    using submitted_form_is_judged [OF form(1-3), of "[str ''u'', []]" True]
    by (auto simp: form strs less_Suc_eq numeral_2_eq_2)
  ultimately show ?thesis by simp
qed

section \<open>The disk manager's answers\<close>

text \<open>Answers of the disk terminal program: an event adds at most one answer, only when a prompt
  is on display, under that prompt's id, and its text is what was typed for it or, for a
  confirmation, the single key; answering empties the input, and so does a snapshot with
  another prompt, so that a passphrase never becomes the answer to the next question.\<close>

theorem answers_go_to_prompt_shown:
  assumes "disk_tui_turn con w ev a = Inr a'"
  shows "(answers a' = answers a \<or>
      (\<exists>p x. dn_prompt (ta_snap a) = Some p \<and> answers a' = (dp_id p, x) # answers a \<and> ta_input a' = [] \<and>
        (x = ta_input a \<or> dp_kind p = Confirm \<and> (\<exists>c\<in>set (str ''yYnN''). x = [c])))) \<and>
    (map_option dp_id (dn_prompt (ta_snap a')) \<noteq> map_option dp_id (dn_prompt (ta_snap a)) \<longrightarrow> ta_input a' = [])"
proof (cases ev)
  case (Snap sn)
  then show ?thesis using assms by (auto simp: disk_tui_turn_def adopt_disk_def Let_def split: if_splits)
next
  case (Press k)
  then show ?thesis using assms
    by (auto simp: disk_tui_turn_def on_disk_key_def submit_answer_def confirm_id_def
        split: if_splits key.splits option.splits)
qed (use assms in \<open>auto simp: disk_tui_turn_def split: if_splits\<close>)

definition demo_disk_app :: "prompt_kind \<Rightarrow> rstr \<Rightarrow> disk_app" where
  "demo_disk_app k input = disk_app_start
     \<lparr>ta_snap := empty_snapshot\<lparr>dn_prompt := Some \<lparr>dp_id = 4, dp_kind = k, dp_text = Str []\<rparr>\<rparr>, ta_input := input\<rparr>"

theorem answers_go_to_prompt_shown_witness:
  "\<exists>a'. disk_tui_turn True True (Press \<lparr>key = KeyEnter, control = False\<rparr>) (demo_disk_app UnlockPassphrase (str ''s'')) = Inr a' \<and>
     answers a' = [(4, str ''s'')] \<and> ta_input a' = []"
proof -
  obtain a' where a': "disk_tui_turn True True (Press \<lparr>key = KeyEnter, control = False\<rparr>)
      (demo_disk_app UnlockPassphrase (str ''s'')) = Inr a'" "answers a' = [(4, str ''s'')]"
    by (simp add: disk_tui_turn_def on_disk_key_def submit_answer_def demo_disk_app_def disk_app_start_def)
  moreover have "ta_input a' = []"
    using answers_go_to_prompt_shown [OF a'(1)] a'(2) by (auto simp: demo_disk_app_def disk_app_start_def)
  ultimately show ?thesis by blast
qed

end
