(* ===== verification/Secrets_Oidc.thy ===== *)
theory Secrets_Oidc
  imports Secrets_Session Secrets_Invariant Oidc_Claims
begin

text \<open>
  operator-secretsd with oidc-credential-validator as the validator of a secret: what the one
  program prints is what the other reads, so a released boot rests on an answer of the identity
  provider.
\<close>

section \<open>Where a verdict comes from\<close>

text \<open>Every verdict a session notes is what a run of that secret's own validator gave.\<close>

definition fair :: "sec_env \<Rightarrow> secret_spec set \<Rightarrow> sec_state \<Rightarrow> bool" where
  "fair E specs s \<longleftrightarrow> (\<forall>n vs v. Judged n vs v \<in> set (trace s) \<longrightarrow>
     (\<exists>spec\<in>specs. \<exists>k. sname spec = n \<and> v = judge E k spec vs))"

lemma keeps_fair_trace:
  assumes "\<And>s. trace (snd (m s)) = trace s \<or>
      (\<exists>e. trace (snd (m s)) = e # trace s \<and> (\<forall>n vs v. e \<noteq> Judged n vs v))"
  shows "keeps (fair E specs) m"
  unfolding keeps_def
proof (intro allI impI)
  fix s assume "fair E specs s"
  with assms [of s] show "fair E specs (snd (m s))" by (auto simp: fair_def)
qed

lemma keeps_fair_mutate: "keeps (fair E specs) (mutate f)"
  by (rule keeps_fair_trace) (simp add: mutate_def update_state_def Let_def)

interpretation verdicts: session_invariant "fair E specs" E "\<lambda>s. s \<in> specs"
  for E specs
proof unfold_locales
  show "keeps (fair E specs) (ui_state ph m)" "keeps (fair E specs) (set_secret n st d)"
      "keeps (fair E specs) (ui_blocked b)"
      "keeps (fair E specs) (mutate (\<lambda>sn. sn\<lparr>ss_done := True, ss_blocked := False, ss_prompt := None\<rparr>))"
      "keeps (fair E specs) (mutate (\<lambda>sn. sn\<lparr>ss_choosing := b\<rparr>))"
      "keeps (fair E specs) (mutate (\<lambda>sn. sn\<lparr>ss_secrets := l\<rparr>))" for ph m n st d b l
    by (simp_all add: publish_defs keeps_fair_mutate)
  show "keeps (fair E specs) wait_for_choice" "keeps (fair E specs) sleep_retry"
      "keeps (fair E specs) (do_fs E c)" "keeps (fair E specs) (log_event (Wrote n vals))" for c n vals
    by (rule keeps_fair_trace, simp add: wait_for_choice_def sleep_retry_def do_fs_def fs_step_def
        log_event_def update_state_def split: option.split nat.split)+
  show "keeps (fair E specs) (Secrets_Daemon.post_form spec reason known)" for spec reason known
  proof -
    have "keeps (fair E specs) fresh_prompt_id" "keeps (fair E specs) (wait_for_submission i)" for i
      by (rule keeps_fair_trace, simp add: fresh_prompt_id_def wait_for_submission_def split: option.split)+
    then show ?thesis unfolding Secrets_Daemon.post_form_def by (auto intro!: keeps_intros keeps_fair_mutate)
  qed
  show "keeps (fair E specs) (validate E spec vals)" if "spec \<in> specs" for spec vals
    using that by (auto simp: keeps_def validate_def fair_def Let_def)
qed

section \<open>The requests of a run\<close>

definition carries :: "http_post \<Rightarrow> rstr \<Rightarrow> rstr \<Rightarrow> bool" where
  "carries p i s \<longleftrightarrow> post_authorization p = Some (basic_credentials i s) \<or>
     (str ''client_id'', i) \<in> set (http_post.post_form p) \<and> (str ''client_secret'', s) \<in> set (http_post.post_form p)"

lemma posts_carry: "carries (introspection_post e i s m) i s" "carries (token_post a e i s m) i s"
  by (cases m; simp add: carries_def introspection_post_def token_post_def)+

lemma probe_endpoint_carries:
  assumes "probe E post req" and "\<And>m. carries (post m) i s"
    and "\<forall>p. PostCall p \<in> set cs \<longrightarrow> carries p i s"
  shows "\<forall>p. PostCall p \<in> set (snd (probe_endpoint a doc name key endpoint req cs)) \<longrightarrow> carries p i s"
  using probe_endpoint_posts(1) [OF assms(1), of a doc name key endpoint cs] assms(2,3) by fastforce

lemma check_carries: "\<forall>p. PostCall p \<in> set (snd (check E a i s [])) \<longrightarrow> carries p i s"
proof (cases "may_send_to a (issuer_of a)")
  case False
  then show ?thesis by (simp add: check_def issuer_of_def Let_def ret_def)
next
  case True
  let ?url = "issuer_of a @ str ''/.well-known/openid-configuration''"
  show ?thesis
  proof (cases rule: discover_cases [of E ?url "[]"])
    case (failed v)
    with True show ?thesis by (simp add: check_def issuer_of_def Let_def bnd_def)
  next
    case (found doc)
    have get: "\<forall>p. PostCall p \<in> set [GetCall ?url] \<longrightarrow> carries p i s" by simp
    note carry = probe_endpoint_carries [OF introspection.probe_axioms posts_carry(1) get]
      probe_endpoint_carries [OF token.probe_axioms posts_carry(2) get]
    show ?thesis
    proof (cases "endpoint_of doc ''introspection_endpoint''")
      case (Some e)
      with True found carry(1) show ?thesis by (simp add: check_def issuer_of_def Let_def bnd_def)
    next
      case None
      with True found carry(2) show ?thesis
        by (simp add: check_def issuer_of_def Let_def bnd_def ret_def split: option.splits)
    qed
  qed
qed

lemma post_answersD: "(p, r) \<in> set (post_answers E cs) \<Longrightarrow> PostCall p \<in> set cs"
  by (induction E cs rule: post_answers.induct) auto

lemma run_validator_valid:
  assumes "run_validator E rr argv (Inr t) = (Some (OValid m), cs)" and "rr t = Inr fs"
  obtains a i s p r where "parse_args None default_args argv = Args a"
    and "fs (o_client_id_field a) = Some i" and "fs (o_client_secret_field a) = Some s"
    and "(p, r) \<in> set (post_answers E cs)" and "acceptance E p r" and "carries p i s"
proof -
  from assms obtain a i s where a: "parse_args None default_args argv = Args a"
      "fs (o_client_id_field a) = Some i" "fs (o_client_secret_field a) = Some s"
    and run: "verdict_of (fst (check E a i s [])) = OValid m" "snd (check E a i s []) = cs"
    by (auto simp: run_validator_def split: args_result.splits option.splits prod.splits)
  have "justified E (OValid m) (post_answers E cs)"
    using check_justified [of E a i s] run by (metis prod.collapse)
  then obtain p r old where "post_answers E cs = (p, r) # old" "acceptance E p r"
    by (auto split: list.splits)
  moreover from this have "carries p i s"
    using check_carries [of E a i s] run(2) post_answersD [of p r E cs] by simp
  ultimately show ?thesis using that [OF a, of p r] by simp
qed

section \<open>The validator as a process\<close>

text \<open>
  \<open>w_prog\<close>: the path the specification runs; \<open>w_http\<close>: the network and the JSON of its runs;
  \<open>w_request\<close> and \<open>w_read\<close>: how \<open>serde\<close> writes the request in the daemon and reads it in the
  validator; \<open>w_print\<close>: how it prints an answer; \<open>w_usage\<close>: the usage text.
\<close>

record wiring =
  w_prog :: rstr
  w_http :: "nat \<Rightarrow> http_env"
  w_request :: "env_map \<Rightarrow> rstr"
  w_read :: "rstr \<Rightarrow> message + env_map"
  w_print :: "string \<times> message option \<Rightarrow> rstr"
  w_usage :: rstr

definition oidc_run :: "wiring \<Rightarrow> nat \<Rightarrow> rstr list \<Rightarrow> env_map \<Rightarrow> oidc_verdict option \<times> http_call list" where
  "oidc_run W n argv fs = run_validator (w_http W n) (w_read W) argv (Inr (w_request W fs))"

definition oidc_output :: "wiring \<Rightarrow> nat \<Rightarrow> rstr list \<Rightarrow> env_map \<Rightarrow> rstr" where
  "oidc_output W n argv fs = (case fst (oidc_run W n argv fs) of
      Some v \<Rightarrow> w_print W (emitted v) @ [10]
    | None \<Rightarrow> w_usage W)"

definition status_of :: "oidc_verdict \<Rightarrow> validator_status" where
  "status_of v = (case v of OValid _ \<Rightarrow> Valid | OInvalid _ \<Rightarrow> Invalid | OError _ \<Rightarrow> Error)"

lemma parsed_status:
  assumes "v_status (parse_validator_output fj out) = st" and "st \<noteq> Error"
  shows "trim out \<noteq> [] \<and> (\<exists>m. fj (trim out) = Inr (st, m))"
  using assms
  by (auto simp: parse_validator_output_def Let_def verdict_error_def split: if_splits sum.splits prod.splits)

lemma run_verdict_decided:
  assumes "v_status (run_verdict E cmd vals r) = st" and "st \<noteq> Error"
  obtains out err ex m where "r = Answered out err ex" and "trim (trim out) \<noteq> []"
    and "e_from_json E (trim (trim out)) = Inr (st, m)"
proof (cases r)
  case (Answered out err ex)
  have "v_status (parse_validator_output (e_from_json E) (trim out)) = st"
    using assms by (auto simp: Answered run_verdict_def Let_def split: if_splits)
  from parsed_status [OF this assms(2)] show ?thesis using that Answered by blast
qed (use assms in \<open>auto simp: run_verdict_def verdict_error_def\<close>)

lemma judged_by_provider:
  assumes cmd: "validate_command spec = Some (w_prog W # argv)"
    and "v_status (judge E k spec vals) = Valid"
    and process: "\<forall>n fs out err ex. e_run E n (w_prog W # argv) fs = Answered out err ex \<longrightarrow>
        out = oidc_output W n argv fs \<or> trim out = []"
    and json: "\<forall>v st m. e_from_json E (trim (trim (w_print W (emitted v) @ [10]))) = Inr (st, m) \<longrightarrow> st = status_of v"
    and usage: "\<forall>r. e_from_json E (trim (trim (w_usage W))) \<noteq> Inr r"
  shows "\<exists>m. fst (oidc_run W k argv (map_of (rev vals))) = Some (OValid m)"
proof -
  have "v_status (run_verdict E (w_prog W) vals (e_run E k (w_prog W # argv) (map_of (rev vals)))) = Valid"
    using assms(2) by (simp add: judge_def cmd)
  then obtain out err ex m where run: "e_run E k (w_prog W # argv) (map_of (rev vals)) = Answered out err ex"
      "trim (trim out) \<noteq> []" "e_from_json E (trim (trim out)) = Inr (Valid, m)"
    by (rule run_verdict_decided) auto
  have "trim ([] :: rstr) = []" by (simp add: trim_def trim_start_def trim_end_def)
  with run(2) have "trim out \<noteq> []" by auto
  with process run(1) have out: "out = oidc_output W k argv (map_of (rev vals))" by blast
  show ?thesis
  proof (cases "fst (oidc_run W k argv (map_of (rev vals)))")
    case None
    with run(3) usage show ?thesis by (simp add: out oidc_output_def)
  next
    case (Some v)
    with run(3) json have "status_of v = Valid" by (simp add: out oidc_output_def)
    then show ?thesis using Some by (cases v) (auto simp: status_of_def)
  qed
qed

section \<open>The composition\<close>

text \<open>C38: End to end: when the boot goes on, the file of a secret whose validator is
  oidc-credential-validator holds a client id and a client secret which, in this boot, an endpoint
  of the identity provider accepted: a request of the validator's run carried exactly the stored
  id and secret, and its answer was a success.\<close>

theorem boot_trusts_the_provider:
  assumes "separate E jobs" and "\<forall>(s, i)\<in>set jobs. check_secret s = None"
    and "distinct (map (sname \<circ> fst) jobs)" and "trace s = []"
    and "boot_session E jobs s = (Done (), s')" and "(spec, ids) \<in> set jobs"
    and "validate_command spec = Some (w_prog W # argv)"
    and process: "\<forall>n fs out err ex. e_run E n (w_prog W # argv) fs = Answered out err ex \<longrightarrow>
        out = oidc_output W n argv fs \<or> trim out = []"
    and json: "\<forall>v st m. e_from_json E (trim (trim (w_print W (emitted v) @ [10]))) = Inr (st, m) \<longrightarrow> st = status_of v"
    and usage: "\<forall>r. e_from_json E (trim (trim (w_usage W))) \<noteq> Inr r"
    and request: "\<forall>vals v. Judged (sname spec) vals v \<in> set (trace s') \<longrightarrow>
        w_read W (w_request W (map_of (rev vals))) = Inr (map_of (rev vals))"
  shows "\<exists>f vals a i sec n p r. files s' (spath spec) = Some f \<and>
     classify_stored spec (Some (parse_env_file (f_content f))) = Complete vals \<and>
     parse_args None default_args argv = Args a \<and>
     map_of (rev vals) (o_client_id_field a) = Some i \<and>
     map_of (rev vals) (o_client_secret_field a) = Some sec \<and>
     (p, r) \<in> set (post_answers (w_http W n) (snd (oidc_run W n argv (map_of (rev vals))))) \<and>
     acceptance (w_http W n) p r \<and> carries p i sec"
proof -
  have "satisfied spec (trace s') (files s' (spath spec))"
    using wp_DoneD [OF wp_boot_session [OF assms(1)] assms(5)] assms(2,6)
    unfolding check_secret_None_iff by fast
  then obtain f vals v where f: "files s' (spath spec) = Some f"
      "classify_stored spec (Some (parse_env_file (f_content f))) = Complete vals"
    and v: "Judged (sname spec) vals v \<in> set (trace s')" "v_status v = Valid"
    by (auto simp: satisfied_def)
  have "fair E (fst ` set jobs) s" by (simp add: fair_def assms(4))
  moreover have "keeps (fair E (fst ` set jobs)) (boot_session E jobs)"
    by (rule verdicts.boots) force
  ultimately have "fair E (fst ` set jobs) s'" using assms(5) by (auto intro: keepsD)
  with v(1) obtain spec' ids' k where k: "(spec', ids') \<in> set jobs" "sname spec' = sname spec" "v = judge E k spec' vals"
    by (fastforce simp: fair_def)
  have "inj_on (sname \<circ> fst) (set jobs)" using assms(3) by (simp add: distinct_map)
  with k(1,2) assms(6) have "spec' = spec" by (auto dest: inj_onD [where x = "(spec', ids')" and y = "(spec, ids)"])
  with k(3) v(2) have "v_status (judge E k spec vals) = Valid" by simp
  from judged_by_provider [OF assms(7) this process json usage]
  obtain m where "oidc_run W k argv (map_of (rev vals)) = (Some (OValid m), snd (oidc_run W k argv (map_of (rev vals))))"
    by (metis prod.collapse)
  moreover have "w_read W (w_request W (map_of (rev vals))) = Inr (map_of (rev vals))" using request v(1) by blast
  ultimately show ?thesis using run_validator_valid f
    unfolding oidc_run_def by metis
qed

text \<open>
  A boot whose stored credentials are valid needs no operator; it judges them once.
\<close>

lemma wp_total: "wp m Q (\<lambda>_. False) s \<Longrightarrow> \<exists>a s'. m s = (Done a, s') \<and> Q a s'"
  by (auto simp: wp_def split: prod.splits outcome.splits)

lemma Judged_published [simp]: "Judged n vs v \<in> set (trace (published f s)) \<longleftrightarrow> Judged n vs v \<in> set (trace s)"
  by (simp add: published_def)

lemma Judged_judged [simp]: "Judged n vs v \<in> set (trace (judged m ws w s)) \<longleftrightarrow>
    n = m \<and> vs = ws \<and> v = w \<or> Judged n vs v \<in> set (trace s)"
  by (auto simp: judged_def)

lemma wp_decided_at_once:
  assumes "\<And>k. judge E k spec vals = w" and "v_status w \<noteq> Error"
    and "\<And>g. Q w (judged (sname spec) vals w (published g s))"
  shows "wp (validate_until_decided E spec vals what) Q X s"
proof -
  have "wp (decide_loop n E spec vals what 1) Q X s" for n
    by (subst decide_loop.simps) (simp add: publish_defs wp_bnd wp_mutate wp_validate wp_ret assms)
  then show ?thesis by (simp add: validate_until_decided_def wp_def)
qed

lemma boot_with_stored:
  assumes "files s (spath spec) = Some f" and "\<And>k p. e_read_error E k p = None"
    and "classify_stored spec (Some (parse_env_file (f_content f))) = Complete vals"
    and "\<And>k. judge E k spec vals = w" and "v_status w = Valid"
  shows "\<exists>s'. boot_session E [(spec, ids)] s = (Done (), s') \<and>
     (\<forall>n vs v. Judged n vs v \<in> set (trace s') \<longrightarrow> Judged n vs v \<in> set (trace s) \<or> vs = vals)"
    (is "\<exists>s'. _ \<and> ?P s'")
proof -
  have "wp (boot_session E [(spec, ids)]) (\<lambda>_. ?P) (\<lambda>_. False) s"
    unfolding boot_session_def each.simps satisfy_def prod.case wp_bnd publish_defs wp_mutate read_file_def wp_gets
    by (auto simp: assms wp_bnd wp_mutate wp_ret wp_finish intro!: wp_decided_at_once [OF assms(4)])
  from wp_total [OF this] show ?thesis by auto
qed

text \<open>The demonstration: an issuer that accepts the stored credentials by introspection.\<close>

definition oidc_secret :: secret_spec where
  "oidc_secret = \<lparr>sname = str ''sso'', sdescription = [],
     sfields = [\<lparr>fname = str ''CLIENT_ID'', fdescription = [], sensitive = False\<rparr>,
                \<lparr>fname = str ''CLIENT_SECRET'', fdescription = [], sensitive = True\<rparr>],
     spath = str ''/s/sso'', sowner = str ''root'', sgroup = None, smode = str ''0400'',
     validate_command = Some [str ''/bin/oidc'', str ''--issuer'', str ''https://i/'']\<rparr>"

definition oidc_vals :: "(rstr \<times> rstr) list" where
  "oidc_vals = [(str ''CLIENT_ID'', str ''me''), (str ''CLIENT_SECRET'', str ''pw'')]"

text \<open>A printer that writes the first letter of the status, and the reading of it.\<close>

definition demo_wiring :: wiring where
  "demo_wiring = \<lparr>w_prog = str ''/bin/oidc'', w_http = (\<lambda>_. demo_issuer), w_request = (\<lambda>_. []),
     w_read = demo_request, w_print = (\<lambda>(st, m). str (take 1 st)), w_usage = str ''usage''\<rparr>"

definition letter_status :: "rstr \<Rightarrow> message + (validator_status \<times> rstr option)" where
  "letter_status t =
     (if t = str ''v'' then Inr (Valid, None) else if t = str ''i'' then Inr (Invalid, None)
      else if t = str ''e'' then Inr (Error, None) else Inl (lit ''no verdict''))"

definition oidc_env :: sec_env where
  "oidc_env = \<lparr>e_run = (\<lambda>n argv fs. Answered (oidc_output demo_wiring n (tl argv) fs) [] ExitSuccess),
     e_from_json = letter_status, e_fault = (\<lambda>_ _. None), e_read_error = (\<lambda>_ _. None), e_timeout_secs = 30,
     e_retry_secs = 10, e_ids = (0, 0), e_umask = 0x12, e_pid = 42\<rparr>"

definition oidc_state :: sec_state where
  "oidc_state = \<lparr>snap = default_snapshot, next_prompt_id = 0, inbox = [],
     files = [str ''/s/sso'' \<mapsto> written_file oidc_secret (0, 0) 0 oidc_vals],
     fs_seen = [], ticks = 0, trace = []\<rparr>"

lemma trim_letter: "trim (trim [118, 10]) = [118]" "trim (trim [105, 10]) = [105]" "trim (trim [101, 10]) = [101]"
  by (simp_all add: trim_def trim_start_def trim_end_def is_whitespace_def)

lemma printed_letter: "e_from_json oidc_env (trim (trim (w_print demo_wiring (emitted v) @ [10]))) = Inr (status_of v, None)"
proof -
  have "w_print demo_wiring (emitted v) = str [case v of OValid _ \<Rightarrow> CHR ''v'' | OInvalid _ \<Rightarrow> CHR ''i'' | OError _ \<Rightarrow> CHR ''e'']"
    by (cases v) (simp_all add: demo_wiring_def emitted_def)
  then show ?thesis
    by (cases v) (simp_all add: trim_letter oidc_env_def letter_status_def status_of_def str_def)
qed

lemma oidc_judged: "judge oidc_env k oidc_secret oidc_vals = \<lparr>v_status = Valid, v_message = Str []\<rparr>"
proof -
  have run: "fst (oidc_run demo_wiring k [str ''--issuer'', str ''https://i/''] (map_of (rev oidc_vals))) = fst demo_run"
    by (simp add: oidc_run_def demo_wiring_def demo_run_def)
  have out: "e_from_json oidc_env (trim (trim (oidc_output demo_wiring k [str ''--issuer'', str ''https://i/''] (map_of (rev oidc_vals))))) =
      Inr (Valid, None)"
    using printed_letter [of "the (fst demo_run)"] run by (simp add: oidc_output_def demo_run_eq status_of_def)
  have "trim (trim (oidc_output demo_wiring k [str ''--issuer'', str ''https://i/''] (map_of (rev oidc_vals)))) \<noteq> []"
    using out by (auto simp: oidc_env_def letter_status_def split: if_splits)
  then show ?thesis
    using out by (simp add: judge_def oidc_secret_def run_verdict_def parse_validator_output_def Let_def
        oidc_env_def)
qed

theorem boot_trusts_the_provider_witness:
  "\<exists>s' f n p r i sec. boot_session oidc_env [(oidc_secret, (0, 0))] oidc_state = (Done (), s') \<and>
     files s' (str ''/s/sso'') = Some f \<and> acceptance (w_http demo_wiring n) p r \<and> carries p i sec"
proof -
  have wf: "wf_secret oidc_secret" unfolding check_secret_None_iff [symmetric] by code_simp
  have "accept_submission oidc_secret oidc_vals = Inr oidc_vals" by code_simp
  then have stored: "classify_stored oidc_secret (Some (parse_env_file (encode_env_file oidc_vals))) = Complete oidc_vals"
    by (rule accepted_is_complete [OF wf])
  have on_disk: "files oidc_state (spath oidc_secret) = Some (written_file oidc_secret (0, 0) 0 oidc_vals)"
    by (simp add: oidc_state_def oidc_secret_def)
  have "\<exists>s'. boot_session oidc_env [(oidc_secret, (0, 0))] oidc_state = (Done (), s') \<and>
     (\<forall>n vs v. Judged n vs v \<in> set (trace s') \<longrightarrow> Judged n vs v \<in> set (trace oidc_state) \<or> vs = oidc_vals)"
    by (rule boot_with_stored [OF on_disk _ _ oidc_judged])
       (simp_all add: stored oidc_env_def written_file_def)
  then obtain s' where run: "boot_session oidc_env [(oidc_secret, (0, 0))] oidc_state = (Done (), s')"
    and vals: "\<forall>n vs v. Judged n vs v \<in> set (trace s') \<longrightarrow> vs = oidc_vals"
    by (auto simp: oidc_state_def)
  have request: "w_read demo_wiring (w_request demo_wiring (map_of (rev oidc_vals))) = Inr (map_of (rev oidc_vals))"
    by (simp add: demo_wiring_def demo_request_def oidc_vals_def str_def fun_upd_twist)
  have usage: "\<forall>r. e_from_json oidc_env (trim (trim (w_usage demo_wiring))) \<noteq> Inr r"
    by (simp add: oidc_env_def demo_wiring_def letter_status_def trim_def trim_start_def trim_end_def
        is_whitespace_def str_def)
  have sep: "separate oidc_env [(oidc_secret, (0, 0))]" by code_simp
  have cmd: "validate_command oidc_secret = Some (w_prog demo_wiring # [str ''--issuer'', str ''https://i/''])"
    by (simp add: oidc_secret_def demo_wiring_def)
  have "\<exists>f vals a i sec n p r. files s' (spath oidc_secret) = Some f \<and>
     classify_stored oidc_secret (Some (parse_env_file (f_content f))) = Complete vals \<and>
     parse_args None default_args [str ''--issuer'', str ''https://i/''] = Args a \<and>
     map_of (rev vals) (o_client_id_field a) = Some i \<and>
     map_of (rev vals) (o_client_secret_field a) = Some sec \<and>
     (p, r) \<in> set (post_answers (w_http demo_wiring n)
        (snd (oidc_run demo_wiring n [str ''--issuer'', str ''https://i/''] (map_of (rev vals))))) \<and>
     acceptance (w_http demo_wiring n) p r \<and> carries p i sec"
    by (rule boot_trusts_the_provider [OF sep _ _ _ run _ cmd])
       (use wf vals request usage printed_letter in
         \<open>auto simp: check_secret_None_iff oidc_state_def oidc_env_def\<close>)
  with run show ?thesis by (auto simp: oidc_secret_def)
qed

end
