(* ===== verification/Snapshot_Hub.thy ===== *)
theory Snapshot_Hub
  imports Rust_Str "HOL-Library.Sublist"
begin

text \<open>
  How the two boot daemons serve their clients (\<open>serve_client\<close> in both \<open>src/bin/daemon.rs\<close>): a
  task per connection writes the newest snapshot and waits for the next change, while another
  forwards what the client sends.  The snapshots go through a \<open>tokio::sync::watch\<close> channel,
  which keeps the newest value only and counts its versions; here the channel is the list of
  all values sent, newest first.
\<close>

section \<open>Code\<close>

text \<open>Where the writing loop stands: at its top, in the write of a snapshot, in \<open>changed\<close>, left.\<close>

datatype 's link_phase = AtTop | Sending 's | AwaitChange | LeftLoop

record 's link =
  link_phase :: "'s link_phase"
  seen :: nat
  got :: "'s list"

definition new_link :: "nat \<Rightarrow> 's link" where
  "new_link n = \<lparr>link_phase = AtTop, seen = n, got = []\<rparr>"

text \<open>
  The loop up to its next await: \<open>ser_ok\<close> says whether a snapshot serializes, \<open>write_ok\<close> whether
  this write succeeds, \<open>sender_gone\<close> whether the channel's sender has been dropped.
\<close>

definition serve_turn :: "('s \<Rightarrow> bool) \<Rightarrow> bool \<Rightarrow> bool \<Rightarrow> 's list \<Rightarrow> 's link \<Rightarrow> 's link" where
  "serve_turn ser_ok write_ok sender_gone vs l = (case link_phase l of
      AtTop \<Rightarrow> l\<lparr>seen := length vs, link_phase := if ser_ok (hd vs) then Sending (hd vs) else LeftLoop\<rparr>
    | Sending s \<Rightarrow> if write_ok then l\<lparr>got := s # got l, link_phase := AwaitChange\<rparr> else l\<lparr>link_phase := LeftLoop\<rparr>
    | AwaitChange \<Rightarrow>
        if seen l \<noteq> length vs then l\<lparr>seen := length vs, link_phase := AtTop\<rparr>
        else if sender_gone then l\<lparr>link_phase := LeftLoop\<rparr>
        else l
    | LeftLoop \<Rightarrow> l)"

text \<open>The reader: what it forwards of the lines it gets, up to the first read error.\<close>

fun forwarded :: "(rstr \<Rightarrow> message + 'm) \<Rightarrow> (message + rstr) list \<Rightarrow> 'm list" where
  "forwarded parse [] = []"
| "forwarded parse (Inl e # ls) = []"
| "forwarded parse (Inr t # ls) =
     (case parse t of Inr m \<Rightarrow> m # forwarded parse ls | Inl _ \<Rightarrow> forwarded parse ls)"

section \<open>Publishing and serving, interleaved\<close>

inductive hub_step :: "('s \<Rightarrow> bool) \<Rightarrow> 's list \<times> 's link \<Rightarrow> 's list \<times> 's link \<Rightarrow> bool" for ser_ok where
  publish: "hub_step ser_ok (vs, l) (s # vs, l)"
| serve: "hub_step ser_ok (vs, l) (vs, serve_turn ser_ok w g vs l)"

inductive_cases hub_stepE: "hub_step ser_ok (vs, l) (vs', l')"

abbreviation hub_reach :: "('s \<Rightarrow> bool) \<Rightarrow> 's list \<times> 's link \<Rightarrow> 's list \<times> 's link \<Rightarrow> bool" where
  "hub_reach ser_ok \<equiv> (hub_step ser_ok)\<^sup>*\<^sup>*"

section \<open>What a client gets\<close>

text \<open>The versions up to the one marked seen, newest first.\<close>

definition seen_versions :: "'s list \<Rightarrow> 's link \<Rightarrow> 's list" where
  "seen_versions vs l = drop (length vs - seen l) vs"

definition link_ok :: "'s list \<Rightarrow> 's link \<Rightarrow> bool" where
  "link_ok vs l \<longleftrightarrow> vs \<noteq> [] \<and> seen l \<le> length vs \<and> (case link_phase l of
      AtTop \<Rightarrow> subseq (got l) (tl vs)
    | Sending s \<Rightarrow> subseq (s # got l) (seen_versions vs l) \<and> seen_versions vs l \<noteq> [] \<and> s = hd (seen_versions vs l)
    | AwaitChange \<Rightarrow> subseq (got l) (seen_versions vs l) \<and> got l \<noteq> [] \<and> seen_versions vs l \<noteq> [] \<and>
        hd (got l) = hd (seen_versions vs l)
    | LeftLoop \<Rightarrow> subseq (got l) vs)"

lemma seen_versions_publish: "seen l \<le> length vs \<Longrightarrow> seen_versions (s # vs) l = seen_versions vs l"
  by (simp add: seen_versions_def Suc_diff_le)

lemma subseq_seen: "subseq xs (seen_versions vs l) \<Longrightarrow> subseq xs vs"
  unfolding seen_versions_def by (metis append_take_drop_id subseq_append_iff list_emb_append2)

lemma subseq_tl: "subseq xs (tl vs) \<Longrightarrow> subseq xs vs"
  by (cases vs) (auto intro: list_emb_Cons)

lemma subseq_rev: "subseq xs ys \<Longrightarrow> subseq (rev xs) (rev ys)"
  by (induction rule: list_emb.induct) (auto intro: list_emb_append_mono subseq_rev_drop_many)

lemma link_ok_publish: "link_ok vs l \<Longrightarrow> link_ok (s # vs) l"
  by (auto simp: link_ok_def seen_versions_publish intro: subseq_tl list_emb_Cons split: link_phase.splits)

lemma link_ok_serve:
  assumes "link_ok vs l"
  shows "link_ok vs (serve_turn ser_ok w g vs l)"
proof (cases "link_phase l")
  case AtTop
  have "subseq (hd vs # got l) vs" if "subseq (got l) (tl vs)" "vs \<noteq> []"
    using that by (cases vs) auto
  with AtTop assms show ?thesis
    by (auto simp: link_ok_def serve_turn_def seen_versions_def intro: subseq_tl)
next
  case (Sending s)
  with assms show ?thesis
    by (auto simp: link_ok_def serve_turn_def seen_versions_def dest: subseq_Cons' intro: subseq_seen [unfolded seen_versions_def])
next
  case AwaitChange
  have "subseq (got l) (tl vs)" if "seen l < length vs" "subseq (got l) (seen_versions vs l)"
  proof -
    have "seen_versions vs l = drop (length vs - seen l - 1) (tl vs)"
      using that(1) by (cases vs) (auto simp: seen_versions_def Suc_diff_le)
    with that(2) show ?thesis
      by (metis append_take_drop_id list_emb_append2)
  qed
  with AwaitChange assms show ?thesis
    by (auto simp: link_ok_def serve_turn_def intro: subseq_seen)
next
  case LeftLoop
  with assms show ?thesis by (simp add: serve_turn_def)
qed

lemma link_ok_reach:
  assumes "hub_reach ser_ok (vs, l) (vs', l')" and "link_ok vs l"
  shows "link_ok vs' l'"
  using assms
proof (induction "(vs', l')" arbitrary: vs' l' rule: rtranclp_induct)
  case base
  then show ?case by simp
next
  case (step y)
  obtain vs1 l1 where y: "y = (vs1, l1)" by (cases y)
  with step have "link_ok vs1 l1" by simp
  then show ?case
    using step.hyps(2) y by (auto elim!: hub_stepE intro: link_ok_publish link_ok_serve)
qed

lemma link_ok_new: "vs \<noteq> [] \<Longrightarrow> n \<le> length vs \<Longrightarrow> link_ok vs (new_link n)"
  by (simp add: link_ok_def new_link_def)

text \<open>Turns of a client whose writes succeed.\<close>

fun turns :: "nat \<Rightarrow> 's list \<Rightarrow> 's link \<Rightarrow> 's link" where
  "turns 0 vs l = l"
| "turns (Suc n) vs l = turns n vs (serve_turn (\<lambda>_. True) True False vs l)"

definition up_to_date :: "'s list \<Rightarrow> 's link \<Rightarrow> bool" where
  "up_to_date vs l \<longleftrightarrow> link_phase l = AwaitChange \<and> seen l = length vs \<and> got l \<noteq> [] \<and> hd (got l) = hd vs"

lemma up_to_date_turns: "up_to_date vs l \<Longrightarrow> turns n vs l = l"
  by (induction n) (simp_all add: serve_turn_def up_to_date_def)

lemma turns_add: "turns (m + n) vs l = turns n vs (turns m vs l)"
  by (induction m arbitrary: l) simp_all

lemma top_catches_up: "link_phase l = AtTop \<Longrightarrow> vs \<noteq> [] \<Longrightarrow> up_to_date vs (turns 2 vs l)"
  by (simp add: numeral_2_eq_2 serve_turn_def up_to_date_def)

lemma await_catches_up:
  assumes "link_phase l = AwaitChange" "link_ok vs l"
  shows "up_to_date vs (turns 3 vs l)"
proof (cases "seen l = length vs")
  case True
  with assms have "up_to_date vs l" by (simp add: up_to_date_def link_ok_def seen_versions_def)
  then show ?thesis by (simp add: up_to_date_turns)
next
  case False
  let ?l = "serve_turn (\<lambda>_. True) True False vs l"
  have "link_phase ?l = AtTop" "vs \<noteq> []"
    using False assms by (simp_all add: serve_turn_def link_ok_def)
  from top_catches_up [OF this] show ?thesis by (simp add: numeral_3_eq_3 numeral_2_eq_2)
qed

lemma catches_up:
  assumes "link_ok vs l" "link_phase l \<noteq> LeftLoop"
  shows "up_to_date vs (turns 4 vs l)"
proof (cases "link_phase l")
  case AtTop
  then show ?thesis
    using top_catches_up [of l vs] up_to_date_turns [of vs "turns 2 vs l" 2] turns_add [of 2 2 vs l] assms
    by (simp add: link_ok_def)
next
  case (Sending s)
  let ?l = "serve_turn (\<lambda>_. True) True False vs l"
  have "link_ok vs ?l" "link_phase ?l = AwaitChange"
    using Sending assms(1) by (auto intro: link_ok_serve) (simp add: serve_turn_def)
  from await_catches_up [OF this(2,1)] show ?thesis by (simp add: numeral_eq_Suc)
next
  case AwaitChange
  with await_catches_up [of l vs] up_to_date_turns [of vs "turns 3 vs l" 1] turns_add [of 3 1 vs l] assms
  show ?thesis by simp
qed (use assms in simp)

section \<open>Properties\<close>

text \<open>C39: What a client of a boot daemon is sent, however publishing and serving interleave: a
  subsequence of the snapshots the daemon published, in order and none twice; whenever the
  daemon has nothing left to send, the client's last snapshot is the newest one; and from every
  state the connection reaches, unless it broke, four turns of its task without a new snapshot
  bring it there.\<close>

theorem client_reaches_newest_snapshot:
  assumes "hub_reach ser_ok (vs, new_link n) (vs', l)" and "vs \<noteq> []" and "n \<le> length vs"
  shows "subseq (rev (got l)) (rev vs') \<and>
     (link_phase l = AwaitChange \<and> seen l = length vs' \<longrightarrow> got l \<noteq> [] \<and> hd (got l) = hd vs') \<and>
     (link_phase l \<noteq> LeftLoop \<longrightarrow>
        (let l' = turns 4 vs' l in link_phase l' = AwaitChange \<and> seen l' = length vs' \<and> hd (got l') = hd vs'))"
proof -
  have ok: "link_ok vs' l" by (rule link_ok_reach [OF assms(1) link_ok_new [OF assms(2,3)]])
  have "subseq (got l) vs'"
    using ok by (auto simp: link_ok_def intro: subseq_tl subseq_seen dest: subseq_Cons' split: link_phase.splits)
  then have "subseq (rev (got l)) (rev vs')" by (rule subseq_rev)
  moreover have "got l \<noteq> [] \<and> hd (got l) = hd vs'" if "link_phase l = AwaitChange" "seen l = length vs'"
    using ok that by (simp add: link_ok_def seen_versions_def)
  ultimately show ?thesis
    using catches_up [OF ok] by (auto simp: up_to_date_def Let_def)
qed

theorem client_reaches_newest_snapshot_witness:
  "subseq (rev (got (serve_turn (\<lambda>_. True) True False [2, 1 :: nat] (new_link 1)))) [1, 2]"
proof -
  have "hub_reach (\<lambda>_. True) ([1], new_link 1) ([2, 1 :: nat], new_link 1)"
    by (rule r_into_rtranclp) (rule publish)
  then have "hub_reach (\<lambda>_. True) ([1], new_link 1) ([2, 1 :: nat], serve_turn (\<lambda>_. True) True False [2, 1] (new_link 1))"
    by (rule rtranclp.rtrancl_into_rtrancl) (rule serve)
  from client_reaches_newest_snapshot [OF this] show ?thesis by simp
qed

end
