(* ===== verification/Disk_Start.thy ===== *)
theory Disk_Start
  imports Disk_Safety
begin

text \<open>
  var-disk-managerd from \<open>main\<close> to the boot: the command line, the tools it looks for, the
  control socket, the task that publishes the fingerprint of the SSH host key, and what is left
  of a failure.
\<close>

section \<open>Code\<close>

record disk_cli =
  k_volume_glob :: rstr
  k_luks_partuuid :: rstr
  k_fs_label :: rstr
  k_mapper :: rstr
  k_min_passphrase_len :: nat

text \<open>What the operating system answers during the start; \<open>path_var\<close> is the variable PATH.\<close>

record disk_start_env =
  path_var :: "rstr option"
  file_exists :: "rstr \<Rightarrow> bool"
  run_dir_fault :: "message option"
  listen_fault :: "message option"

definition found_on_path :: "disk_start_env \<Rightarrow> string \<Rightarrow> bool" where
  "found_on_path S tool = (case path_var S of
      Some p \<Rightarrow> list_ex (\<lambda>d. file_exists S (path_join d (str tool))) (split_on 58 p)
    | None \<Rightarrow> False)"

definition disk_start :: "disk_start_env \<Rightarrow> disk_cli \<Rightarrow> message + disk_cfg" where
  "disk_start S cli =
     (case configure (found_on_path S) (k_volume_glob cli)
          \<lparr>luks_partuuid = k_luks_partuuid cli, fs_label = k_fs_label cli, mapper = k_mapper cli\<rparr>
          (k_min_passphrase_len cli) of
        Inl e \<Rightarrow> Inl e
      | Inr cfg \<Rightarrow>
          (case run_dir_fault S of
             Some e \<Rightarrow> Inl e
           | None \<Rightarrow>
               (case listen_fault S of
                  Some e \<Rightarrow> Inl (Fmt ''binding control socket: {}'' [e])
                | None \<Rightarrow> Inr cfg)))"

text \<open>The fingerprint task: up to that many tries, three seconds apart.\<close>

fun fingerprint_task :: "nat \<Rightarrow> disk_env \<Rightarrow> unit diskd" where
  "fingerprint_task 0 E = ret ()"
| "fingerprint_task (Suc n) E =
     bnd (attempt (run_ok E ''ssh-keygen'' [str ''-lf'', str ''/etc/ssh/ssh_host_ed25519_key''])) (\<lambda>r. case r of
         Inr out \<Rightarrow> dmutate (\<lambda>sn. sn\<lparr>dn_fingerprint := Some (trim out)\<rparr>)
       | Inl _ \<Rightarrow> bnd (record_event Napped) (\<lambda>_. fingerprint_task n E))"

definition disk_run :: "disk_env \<Rightarrow> disk_start_env \<Rightarrow> disk_cli \<Rightarrow> unit diskd" where
  "disk_run E S cli = (case disk_start S cli of Inl e \<Rightarrow> fail e | Inr cfg \<Rightarrow> run_daemon E cfg)"

text \<open>The exit code, and what a failure leaves in the state file and in the kernel's log.\<close>

definition disk_main :: "(message, unit) outcome \<Rightarrow> nat \<times> (message \<times> message) option" where
  "disk_main r = (case r of
      Failed e \<Rightarrow>
        (let msg = Fmt ''FAILED: {}'' [e] in (1, Some (msg, Fmt ''var-disk-manager: {}'' [msg])))
    | _ \<Rightarrow> (0, None))"

section \<open>Which tools a boot runs\<close>

definition tooled :: "dm_event \<Rightarrow> bool" where
  "tooled e \<longleftrightarrow> (case e of Ran c r \<Rightarrow> prog_name c \<in> set required_tools | _ \<Rightarrow> True)"

lemma tooled_simps [simp]:
  "tooled (Showed sn)" "tooled (Typed k t v)" "tooled Looked" "tooled (MadeDir d)" "tooled (Copied cr)"
  "tooled Napped" "tooled (Ran c r) = (prog_name c \<in> set required_tools)"
  by (simp_all add: tooled_def)

lemma required_tools_set [simp]:
  "set required_tools = {''blkid'', ''lsblk'', ''blockdev'', ''wipefs'', ''sgdisk'', ''cryptsetup'',
     ''btrfs'', ''mkfs.btrfs'', ''udevadm'', ''mount'', ''umount'', ''sync''}"
  by (simp add: required_tools_def)

lemma adds_tooled_steps [adds_intros]:
  "adds tooled (settle E)" "adds tooled (blockdev_bytes E p)" "adds tooled (subvol_exists E p)"
  "adds tooled (mount_top E d p)" "adds tooled (btrfs_subvol E args)" "adds tooled (probe_mapper E cfg)"
  "adds tooled (probe E cfg i)" "adds tooled (create_var_subvol E cfg)" "adds tooled (resize_mapping E cfg i g pw)"
  "adds tooled (ensure_label E cfg i)" "adds tooled (ask_confirm t)" "adds tooled (ask_new_passphrase cfg)"
  "adds tooled (unlock_turn E cfg i)" "adds tooled (mkfs_mapper E cfg)" "adds tooled (maybe_grow_partition E cfg i)"
  unfolding settle_def blockdev_bytes_def subvol_exists_def mount_top_def btrfs_subvol_def probe_mapper_def
    probe_def create_var_subvol_def resize_mapping_def ensure_label_def ask_confirm_def confirm_turn_def
    ask_new_passphrase_def new_passphrase_turn_def unlock_turn_def mkfs_mapper_def maybe_grow_partition_def
  by (intro adds_intros; simp)+

lemma adds_tooled_loops [adds_intros]:
  "adds tooled (classify_all E cfg is)" "adds tooled (settle_disks n E cfg c p)"
  "adds tooled (wait_for_node n E d)" "adds tooled (pump cs k w)"
proof -
  show "adds tooled (classify_all E cfg is)"
    by (induction "is") (auto simp: Let_def intro!: adds_intros)
  show "adds tooled (settle_disks n E cfg c p)"
    by (induction n arbitrary: c p) (auto simp: Let_def intro!: adds_intros)
  show "adds tooled (wait_for_node n E d)" by (induction n) (auto intro!: adds_intros)
  show "adds tooled (pump cs k w)"
    by (induction cs k w rule: pump.induct) (auto simp: Let_def intro!: adds_intros)
qed

lemma adds_tooled_copy [adds_intros]: "adds tooled (copy_with_progress E w)"
  unfolding copy_with_progress_def
  by (intro adds_intros adds_one [where e = "\<lambda>s. Copied (d_copy E (length (dtrace s)))"]; simp)

lemma adds_tooled_parts [adds_intros]:
  "adds tooled (partition_disk E cfg i)" "adds tooled (inspect_source E cfg l b)"
  "adds tooled (unlock_btrfs E cfg i)" "adds tooled (unlock_empty E cfg i)" "adds tooled (copy_system E cfg l used)"
  unfolding partition_disk_def inspect_source_def unlock_btrfs_def unlock_empty_def copy_system_def
  by (intro adds_intros; simp)+

lemma adds_tooled_format [adds_intros]: "adds tooled (format_encrypted E cfg i pw)"
  unfolding format_encrypted_def by (intro adds_intros; simp)

lemma adds_mapper_fs [adds_intros]:
  "adds P a \<Longrightarrow> adds P b \<Longrightarrow> (\<And>t. adds P (f t)) \<Longrightarrow> adds P c \<Longrightarrow>
   adds P (case found of Btrfs \<Rightarrow> a | Empty \<Rightarrow> b | Other t \<Rightarrow> f t | Unknown \<Rightarrow> c)"
  by (cases found) auto

lemma adds_tooled_plans [adds_intros]:
  "adds tooled (unlock E cfg i)" "adds tooled (migrate E cfg l b)" "adds tooled (provision E cfg b)"
  unfolding unlock_def migrate_def provision_def by (intro adds_intros; simp)+

lemma adds_tooled_run: "adds tooled (run_daemon E cfg)"
proof -
  have "adds tooled (carry_out E cfg p)" for p
    by (cases p) (auto simp: carry_out_def intro!: adds_intros)
  then show ?thesis unfolding run_daemon_def by (intro adds_intros; simp)
qed

lemma disk_start_found:
  assumes "disk_start S cli = Inr cfg" and "t \<in> set required_tools"
  shows "found_on_path S t"
  using assms
  by (auto simp: disk_start_def configure_def find_None_iff split: option.splits sum.splits prod.splits
      simp del: required_tools_set)

section \<open>The fingerprint\<close>

text \<open>The task changes nothing of the snapshot but the fingerprint, and adds nothing that matters
  to what a boot is permitted to do.\<close>

lemma adds_fingerprint: "adds silent (fingerprint_task n E)"
  by (induction n) (auto intro!: adds_intros simp: harmless_def is_luks_format_def)

lemma fingerprint_only:
  "(dsnap (snd (fingerprint_task n E s)))\<lparr>dn_fingerprint := f\<rparr> = (dsnap s)\<lparr>dn_fingerprint := f\<rparr>"
proof (induction n arbitrary: s)
  case (Suc n)
  then show ?case
    by (auto simp: bnd_def attempt_def run_ok_def exec_def Let_def dmutate_def update_state_def record_event_def
        ret_def fail_def cmd_failed_def split: cmd_result.splits)
qed (simp add: ret_def)

text \<open>A fingerprint task that runs while the daemon is between two steps leaves them justified.\<close>

lemma fingerprint_keeps_justified:
  "justified cfg (dtrace s) \<Longrightarrow> justified cfg (dtrace (snd (fingerprint_task n E s)))"
  using addsD [OF adds_weaken [OF adds_fingerprint], of n E s "fst (fingerprint_task n E s)"
      "snd (fingerprint_task n E s)"] justified_mild
  by force

section \<open>Properties\<close>

definition event_tool :: "dm_event \<Rightarrow> string option" where
  "event_tool e = (case e of Ran c _ \<Rightarrow> Some (prog_name c) | Copied _ \<Rightarrow> Some ''btrfs'' | _ \<Rightarrow> None)"

lemma tooled_event: "tooled e \<Longrightarrow> event_tool e = Some t \<Longrightarrow> t \<in> set required_tools"
  by (auto simp: event_tool_def tooled_def simp del: required_tools_set split: dm_event.splits)
    (simp add: required_tools_def)


definition initrd :: disk_start_env where
  "initrd = \<lparr>path_var = Some (str ''/sbin:/bin''), file_exists = (\<lambda>p. starts_with p (str ''/bin/'')),
     run_dir_fault = None, listen_fault = None\<rparr>"

definition var_cli :: disk_cli where
  "var_cli = \<lparr>k_volume_glob = str ''/dev/vol-*'', k_luks_partuuid = str ''cab1'', k_fs_label = str ''var'',
     k_mapper = str ''var'', k_min_passphrase_len = 12\<rparr>"

lemma var_cli_starts: "\<exists>cfg. disk_start initrd var_cli = Inr cfg"
proof -
  have "(case disk_start initrd var_cli of Inr _ \<Rightarrow> True | Inl _ \<Rightarrow> False)" by code_simp
  then show ?thesis by (auto split: sum.splits)
qed

lemma run_daemon_settles:
  "\<exists>res. Ran \<lparr>prog_name = ''udevadm'', cmd_args = [str ''settle'', str ''--timeout=30''], cmd_stdin = None\<rparr> res \<in>
     set (dtrace (snd (run_daemon E cfg s)))"
proof -
  have carry: "adds tooled (carry_out E cfg p)" for p
    by (cases p) (auto simp: carry_out_def intro!: adds_intros)
  define rest where "rest = bnd (settle_disks 90 E cfg 0 0) (\<lambda>_.
     bnd (dstate ''classify'' (lit ''classifying data volumes'')) (\<lambda>_.
     bnd (list_volumes E cfg) (\<lambda>ids.
     bnd (classify_all E cfg ids) (\<lambda>infos.
     bnd (dmutate (\<lambda>sn. sn\<lparr>dn_disks := infos\<rparr>)) (\<lambda>_.
     carry_out E cfg (plan (map (\<lambda>d. (di_id d, di_class d)) infos)))))))"
  have rest: "adds tooled rest" unfolding rest_def by (intro adds_intros carry; simp)
  let ?c = "\<lparr>prog_name = ''udevadm'', cmd_args = [str ''settle'', str ''--timeout=30''], cmd_stdin = None\<rparr>"
  have "wp (run_daemon E cfg) (\<lambda>_ s'. \<exists>res. Ran ?c res \<in> set (dtrace s')) (\<lambda>s'. \<exists>res. Ran ?c res \<in> set (dtrace s')) s"
    unfolding run_daemon_def rest_def [symmetric] wp_bnd wp_dstate settle_def run_quietly_def wp_exec wp_ret
    by (rule wp_adds [OF rest]) (auto simp: kept_by_def)
  then show ?thesis by (rule wp_snd)
qed

definition idle_env :: disk_env where
  "idle_env = \<lparr>d_run = (\<lambda>_ _. Exited (Some 0) [] [] None), d_exists = (\<lambda>_ _. False), d_list = (\<lambda>_ _. None),
     d_mkdir = (\<lambda>_ _. None),
     d_copy = (\<lambda>_. \<lparr>copy_setup = None, copy_chunks = [], copy_broken = None, send_exit = Inr (Some 0),
        recv_exit = Inr (Some 0), send_stderr = [], recv_stderr = []\<rparr>)\<rparr>"

definition first_state :: disk_state where
  "first_state = \<lparr>dsnap = empty_snapshot, dnext_id = 0, dinbox = [], dtrace = []\<rparr>"


end
