(* ===== verification/Disk_Operator.thy ===== *)
theory Disk_Operator
  imports Disk_Start Disk_Tui Disk_Claims
begin

text \<open>
  The disk daemon and the operator at its terminal program together: what the daemon takes as
  the answer to a question is what was typed while that very question was on display.
\<close>

section \<open>Invariants of a whole boot\<close>

text \<open>
  A property that the single steps of the daemon keep (running a command, showing something,
  asking, looking at files, sleeping, copying) is kept by a boot, however it ends.
\<close>

locale boot_invariant =
  fixes I :: "disk_state \<Rightarrow> bool" and E :: disk_env
  assumes execs: "keeps I (exec E c)"
    and shows_more: "\<forall>sn. dn_prompt (f sn) = dn_prompt sn \<Longrightarrow> keeps I (dmutate f)"
    and asks: "keeps I (dask k t)"
    and looks: "keeps I (path_exists E p)"
    and lists: "keeps I (list_volumes E cfg)"
    and makes: "keeps I (make_dir E d)"
    and naps: "keeps I (record_event Napped)"
    and copies: "keeps I ((\<lambda>s. (Done (d_copy E (length (dtrace s))), push (Copied (d_copy E (length (dtrace s)))) s)) :: copy_run diskd)"
begin

lemma states: "keeps I (dstate ph m)" "keeps I (progress c w)" "keeps I (block_forever r)"
  unfolding dstate_def progress_def block_forever_def by (intro keeps_intros shows_more; simp)+

lemma runs: "keeps I (run_ok E p args)" "keeps I (probe_value E p args)" "keeps I (run_quietly E p args)"
    "keeps I (run_with_stdin E p args pw)" "keeps I (subvol_exists E q)"
  unfolding run_ok_def probe_value_def run_quietly_def run_with_stdin_def subvol_exists_def cmd_failed_def Let_def
  by (auto intro!: keeps_intros execs split: cmd_result.split)

lemmas steps = execs asks looks lists makes naps copies states runs

lemma tools: "keeps I (settle E)" "keeps I (blockdev_bytes E p)" "keeps I (mount_top E d p)"
    "keeps I (btrfs_subvol E args)" "keeps I (probe_mapper E cfg)" "keeps I (mkfs_mapper E cfg)"
    "keeps I (parse_u64 u)"
  unfolding settle_def blockdev_bytes_def mount_top_def btrfs_subvol_def probe_mapper_def mkfs_mapper_def
    parse_u64_def
  by (auto intro!: keeps_intros steps split: cmd_result.split)

lemma probes: "keeps I (probe E cfg i)"
  unfolding probe_def by (intro keeps_intros steps)

lemma asking_keeps: "(\<And>x. keeps I (body x)) \<Longrightarrow> keeps I (asking body x)"
proof -
  assume body: "\<And>x. keeps I (body x)"
  have "keeps I (loop n body x)" for n
    by (induction n arbitrary: x) (auto intro!: keeps_intros body split: sum.split)
  then show ?thesis by (simp add: asking_def keeps_def del: loop.simps)
qed

lemma questions: "keeps I (ask_confirm t)" "keeps I (ask_new_passphrase cfg)"
    "keeps I (asking (\<lambda>_. unlock_turn E cfg i) ())"
  unfolding ask_confirm_def confirm_turn_def ask_new_passphrase_def new_passphrase_turn_def unlock_turn_def
  by (auto intro!: asking_keeps keeps_intros steps split: option.split sum.split)

lemma loops: "keeps I (wait_for_node n E p)" "keeps I (settle_disks m E cfg a b)" "keeps I (pump cs k w)"
    "keeps I (classify_all E cfg is)"
proof -
  show "keeps I (wait_for_node n E p)" by (induction n) (auto intro!: keeps_intros steps)
  show "keeps I (settle_disks m E cfg a b)"
    by (induction m arbitrary: a b) (auto simp: Let_def intro!: keeps_intros steps)
  show "keeps I (pump cs k w)"
    by (induction cs k w rule: pump.induct) (auto simp: Let_def intro!: keeps_intros steps)
  show "keeps I (classify_all E cfg is)"
    by (induction "is") (auto simp: Let_def intro!: keeps_intros steps probes)
qed

lemma copying: "keeps I (copy_with_progress E w)"
  unfolding copy_with_progress_def
  by (auto intro!: keeps_intros steps loops split: option.split sum.split)

lemma formats: "keeps I (partition_disk E cfg i)" "keeps I (format_encrypted E cfg i pw)"
    "keeps I (create_var_subvol E cfg)" "keeps I (maybe_grow_partition E cfg i)" "keeps I (resize_mapping E cfg i g pw)"
  unfolding format_encrypted_def partition_disk_def create_var_subvol_def maybe_grow_partition_def resize_mapping_def
  by (intro keeps_intros steps tools loops)+

lemma unlocks: "keeps I (unlock E cfg i)"
  unfolding unlock_def unlock_btrfs_def unlock_empty_def
  by (auto intro!: keeps_intros steps tools formats questions split: mapper_fs.split)

lemma migrates: "keeps I (inspect_source E cfg l b)" "keeps I (copy_system E cfg l used)"
  unfolding inspect_source_def copy_system_def
  by (intro keeps_intros steps tools copying shows_more; simp)+

lemma boots: "keeps I (run_daemon E cfg)"
proof -
  have "keeps I (carry_out E cfg p)" for p
    unfolding carry_out_def ensure_label_def migrate_def provision_def
    by (auto intro!: keeps_intros steps unlocks formats migrates questions split: disk_plan.split)
  then show ?thesis
    unfolding run_daemon_def by (auto intro!: keeps_intros steps tools loops shows_more)
qed

end

section \<open>The prompts of a boot\<close>

definition prompts_shown :: "dm_event list \<Rightarrow> disk_prompt set" where
  "prompts_shown es = {p. \<exists>sn. Showed sn \<in> set es \<and> dn_prompt sn = Some p}"

lemma prompts_shown_simps [simp]:
  "prompts_shown [] = {}"
  "prompts_shown (Showed sn # es) = set_option (dn_prompt sn) \<union> prompts_shown es"
  "prompts_shown (Ran c r # es) = prompts_shown es" "prompts_shown (Typed k t v # es) = prompts_shown es"
  "prompts_shown (Looked # es) = prompts_shown es" "prompts_shown (MadeDir d # es) = prompts_shown es"
  "prompts_shown (Copied cr # es) = prompts_shown es" "prompts_shown (Napped # es) = prompts_shown es"
  by (auto simp: prompts_shown_def)

text \<open>
  A prompt's id names it: all snapshots with one id show the same question.  An answer the daemon
  took was in its inbox under the id of the question it was taken for.
\<close>

definition prompts_sound :: "(nat \<times> rstr) set \<Rightarrow> disk_state \<Rightarrow> bool" where
  "prompts_sound inb s \<longleftrightarrow>
     (\<forall>p\<in>prompts_shown (dtrace s). dp_id p \<le> dnext_id s) \<and>
     inj_on dp_id (prompts_shown (dtrace s)) \<and>
     set_option (dn_prompt (dsnap s)) \<subseteq> prompts_shown (dtrace s) \<and>
     set (dinbox s) \<subseteq> inb \<and>
     (\<forall>k t v. Typed k t v \<in> set (dtrace s) \<longrightarrow>
        (\<exists>i. (i, v) \<in> inb \<and> \<lparr>dp_id = i, dp_kind = k, dp_text = t\<rparr> \<in> prompts_shown (dtrace s)))"

lemma sound_step:
  assumes "prompts_sound inb s" and "dtrace s' = e # dtrace s" and "dnext_id s' = dnext_id s"
    and "dsnap s' = dsnap s" and "dinbox s' = dinbox s"
    and "\<forall>sn. e \<noteq> Showed sn" and "\<forall>k t v. e \<noteq> Typed k t v"
  shows "prompts_sound inb s'"
  using assms by (cases e) (auto simp: prompts_sound_def)

lemma keeps_sound_step:
  assumes "\<And>s. dtrace (snd (m s)) = e s # dtrace s \<and> dnext_id (snd (m s)) = dnext_id s \<and>
      dsnap (snd (m s)) = dsnap s \<and> dinbox (snd (m s)) = dinbox s \<and>
      (\<forall>sn. e s \<noteq> Showed sn) \<and> (\<forall>k t v. e s \<noteq> Typed k t v)"
  shows "keeps (prompts_sound inb) m"
  unfolding keeps_def
proof (intro allI impI)
  fix s assume "prompts_sound inb s"
  then show "prompts_sound inb (snd (m s))"
    by (rule sound_step [where e = "e s"]) (use assms [of s] in auto)
qed

lemma sound_show:
  assumes "prompts_sound inb s" and "set_option (dn_prompt (f (dsnap s))) \<subseteq> prompts_shown (dtrace s)"
  shows "prompts_sound inb (push (Showed (f (dsnap s))) (s\<lparr>dsnap := f (dsnap s)\<rparr>))"
  using assms by (auto simp: prompts_sound_def push_def Un_absorb1)

lemma sound_new_prompt:
  assumes "prompts_sound inb s" and "p = \<lparr>dp_id = Suc (dnext_id s), dp_kind = k, dp_text = t\<rparr>"
  shows "prompts_sound inb (push (Showed ((dsnap s)\<lparr>dn_prompt := Some p\<rparr>))
     (s\<lparr>dnext_id := Suc (dnext_id s), dsnap := (dsnap s)\<lparr>dn_prompt := Some p\<rparr>\<rparr>))"
  using assms by (fastforce simp: prompts_sound_def push_def inj_on_def)

lemma sound_dask: "keeps (prompts_sound inb) (dask k t)"
  unfolding keeps_iff_wp
proof (intro allI impI)
  fix s assume sound: "prompts_sound inb s"
  define p where "p = \<lparr>dp_id = Suc (dnext_id s), dp_kind = k, dp_text = t\<rparr>"
  define s1 where "s1 = push (Showed ((dsnap s)\<lparr>dn_prompt := Some p\<rparr>))
     (s\<lparr>dnext_id := Suc (dnext_id s), dsnap := (dsnap s)\<lparr>dn_prompt := Some p\<rparr>\<rparr>)"
  have s1: "prompts_sound inb s1" unfolding s1_def by (rule sound_new_prompt [OF sound p_def])
  have shown: "p \<in> prompts_shown (dtrace s1)" by (simp add: s1_def push_def)
  have answered: "prompts_sound inb (push (Typed k t v) (s1\<lparr>dinbox := rest\<rparr>))"
    if taken: "take_answer (answer_of (Suc (dnext_id s))) (dinbox s1) = Some (v, rest)" for v rest
  proof -
    from take_answer_SomeD [OF taken] obtain pre m where m: "dinbox s1 = pre @ m # rest"
        "answer_of (Suc (dnext_id s)) m = Some v" by blast
    then have "(Suc (dnext_id s), v) \<in> inb" "set rest \<subseteq> inb"
      using s1 by (cases m; auto simp: prompts_sound_def answer_of_def split: if_splits)+
    then show ?thesis using s1 shown
      by (auto simp: prompts_sound_def push_def p_def)
  qed
  have closed: "prompts_sound inb (push (Showed ((dsnap s2)\<lparr>dn_prompt := None\<rparr>)) (s2\<lparr>dsnap := (dsnap s2)\<lparr>dn_prompt := None\<rparr>\<rparr>))"
    if "prompts_sound inb s2" for s2
    using sound_show [OF that, of "\<lambda>sn. sn\<lparr>dn_prompt := None\<rparr>"] by simp
  have empty: "prompts_sound inb (s1\<lparr>dinbox := []\<rparr>)" using s1 by (simp add: prompts_sound_def)
  show "wp (dask k t) (\<lambda>_. prompts_sound inb) (prompts_sound inb) s"
  proof (cases "take_answer (answer_of (Suc (dnext_id s))) (dinbox s1)")
    case None
    then show ?thesis using empty
      by (simp add: dask_def wait_for_answer_def dmutate_def update_state_def bnd_def ret_def wp_def
          s1_def p_def push_def)
  next
    case (Some vr)
    obtain v rest where vr: "vr = (v, rest)" by (cases vr)
    from Some closed [OF answered [of v rest]] show ?thesis unfolding vr
      by (simp add: dask_def wait_for_answer_def dmutate_def update_state_def bnd_def ret_def wp_def
          s1_def p_def push_def)
  qed
qed

interpretation prompts: boot_invariant "prompts_sound inb" E for inb E
proof unfold_locales
  show "keeps (prompts_sound inb) (dmutate f)" if "\<forall>sn. dn_prompt (f sn) = dn_prompt sn" for f
    unfolding keeps_def
  proof (intro allI impI)
    fix s assume s: "prompts_sound inb s"
    then have "set_option (dn_prompt (f (dsnap s))) \<subseteq> prompts_shown (dtrace s)"
      using that by (simp add: prompts_sound_def)
    from sound_show [where f = f, OF s this] show "prompts_sound inb (snd (dmutate f s))"
      by (simp add: dmutate_def update_state_def)
  qed
  show "keeps (prompts_sound inb) (dask k t)" for k t by (rule sound_dask)
  show "keeps (prompts_sound inb) (exec E c)" for c
    by (rule keeps_sound_step [where e = "\<lambda>s. Ran c (d_run E (length (dtrace s)) c)"]) (simp add: exec_def Let_def push_def)
  show "keeps (prompts_sound inb) (path_exists E p)" "keeps (prompts_sound inb) (list_volumes E cfg)" for p cfg
    by (rule keeps_sound_step [where e = "\<lambda>_. Looked"]; simp add: path_exists_def list_volumes_def push_def)+
  show "keeps (prompts_sound inb) (make_dir E d)" for d
    by (rule keeps_sound_step [where e = "\<lambda>_. MadeDir d"]) (simp add: make_dir_def push_def)
  show "keeps (prompts_sound inb) (record_event Napped)"
    by (rule keeps_sound_step [where e = "\<lambda>_. Napped"]) (simp add: record_event_def update_state_def push_def)
  show "keeps (prompts_sound inb) (\<lambda>s. (Done (d_copy E (length (dtrace s))), push (Copied (d_copy E (length (dtrace s)))) s))"
    by (rule keeps_sound_step [where e = "\<lambda>s. Copied (d_copy E (length (dtrace s)))"]) (simp add: push_def)
qed

section \<open>The terminal program in a run\<close>

text \<open>What pressing a key makes of a line being edited.\<close>

definition edit_line :: "key_press \<Rightarrow> rstr \<Rightarrow> rstr" where
  "edit_line k line =
     (if key k = KeyBackspace then butlast line
      else case key k of
        KeyChar c \<Rightarrow> if control k \<and> c = ch CHR ''u'' then [] else line @ [c]
      | _ \<Rightarrow> line)"

text \<open>The keys that send an answer: Enter, and y or n on a confirmation.\<close>

definition answering :: "disk_app \<Rightarrow> key_press \<Rightarrow> bool" where
  "answering a k \<longleftrightarrow> (case key k of
      KeyEnter \<Rightarrow> dn_prompt (ta_snap a) \<noteq> None
    | KeyChar c \<Rightarrow> confirm_id c a \<noteq> None
    | _ \<Rightarrow> False)"

text \<open>
  A session of the terminal program that sees snapshots of \<open>pub\<close> only, with the keys pressed
  since the question on display was last changed or answered.
\<close>

inductive disk_session :: "disk_snapshot set \<Rightarrow> bool \<Rightarrow> disk_app \<Rightarrow> key_press list \<Rightarrow> bool" for pub con where
  begins: "disk_session pub con disk_app_start []"
| turns: "disk_session pub con a ks \<Longrightarrow> (\<forall>sn. ev = Snap sn \<longrightarrow> sn \<in> pub) \<Longrightarrow>
    disk_tui_turn con w ev a = Inr a' \<Longrightarrow>
    ks' = (if map_option dp_id (dn_prompt (ta_snap a')) \<noteq> map_option dp_id (dn_prompt (ta_snap a)) then []
           else case ev of Press k \<Rightarrow> if answering a k then [] else ks @ [k] | _ \<Rightarrow> ks) \<Longrightarrow>
    disk_session pub con a' ks'"

lemma press_edits:
  assumes "on_disk_key w k a = Inr a'" and "\<not> answering a k"
  shows "ta_input a' = edit_line k (ta_input a) \<and> ta_snap a' = ta_snap a"
  using assms
  by (auto simp: on_disk_key_def answering_def edit_line_def split: if_splits key.splits option.splits)

lemma press_answers:
  assumes "on_disk_key w k a = Inr a'" and "answering a k"
  shows "ta_input a' = [] \<and> ta_snap a' = ta_snap a"
  using assms
  by (auto simp: on_disk_key_def answering_def submit_answer_def confirm_id_def
      split: if_splits key.splits option.splits)

lemma session_input:
  assumes "disk_session pub con a ks"
  shows "ta_input a = fold edit_line ks [] \<and> (ta_snap a \<in> pub \<or> ta_snap a = empty_snapshot)"
  using assms
proof (induction rule: disk_session.induct)
  case begins
  then show ?case by (simp add: disk_app_start_def)
next
  case (turns a ks ev w a' ks')
  show ?case
  proof (cases ev)
    case (Snap sn)
    with turns show ?thesis by (auto simp: disk_tui_turn_def adopt_disk_def Let_def split: if_splits)
  next
    case (Press k)
    then have "on_disk_key w k a = Inr a'" using turns.hyps by (simp add: disk_tui_turn_def)
    with turns Press press_edits [of w k a a'] press_answers [of w k a a'] show ?thesis by (auto split: if_splits)
  qed (use turns in \<open>auto simp: disk_tui_turn_def split: if_splits\<close>)
qed

lemma answer_turn:
  assumes "disk_tui_turn con w ev a = Inr a'" and "disk_app.answers a' = m # disk_app.answers a"
  shows "\<exists>p. dn_prompt (ta_snap a) = Some p \<and> fst m = dp_id p \<and>
     (snd m = ta_input a \<or> dp_kind p = Confirm \<and> (\<exists>c\<in>set (str ''yYnN''). snd m = [c]))"
proof (cases ev)
  case (Snap sn)
  then show ?thesis using assms by (auto simp: disk_tui_turn_def adopt_disk_def Let_def split: if_splits)
next
  case (Press k)
  then show ?thesis using assms
    by (auto simp: disk_tui_turn_def on_disk_key_def submit_answer_def confirm_id_def
        split: if_splits key.splits option.splits) blast+
qed (use assms in \<open>auto simp: disk_tui_turn_def split: if_splits\<close>)

section \<open>Properties\<close>



definition one_env :: disk_env where
  "one_env = \<lparr>
     d_run = (\<lambda>_ c. if prog_name c = ''blkid'' then Exited (Some 2) [] [] None else SpawnFailed (Str [])),
     d_exists = (\<lambda>_ _. False),
     d_list = (\<lambda>_ _. Some [str ''vol-1'']),
     d_mkdir = (\<lambda>_ _. None),
     d_copy = (\<lambda>_. \<lparr>copy_setup = None, copy_chunks = [], copy_broken = None,
        send_exit = Inr (Some 0), recv_exit = Inr (Some 0), send_stderr = [], recv_stderr = []\<rparr>)\<rparr>"

abbreviation unread :: "disk_state \<Rightarrow> bool" where
  "unread s \<equiv> dinbox s = [(1, str ''x'')] \<and> dnext_id s = 0"

definition asked_in :: "dm_event list \<Rightarrow> bool" where
  "asked_in es \<longleftrightarrow> (\<exists>t sn. Typed NewPassphrase t (str ''x'') \<in> set es \<and> Showed sn \<in> set es \<and>
     dn_prompt sn = Some \<lparr>dp_id = 1, dp_kind = NewPassphrase, dp_text = t\<rparr>)"

abbreviation asked_once :: "disk_state \<Rightarrow> bool" where
  "asked_once s \<equiv> asked_in (dtrace s)"

lemma kept_asked: "kept_by P asked_in"
  by (auto simp: kept_by_def asked_in_def)

lemma wp_one_list: "wp (list_volumes one_env fresh_cfg) Q X s = Q [str ''vol-1''] (push Looked s)"
proof -
  have "fst (list_volumes one_env fresh_cfg (boot_state [])) = Done [str ''vol-1'']" by code_simp
  then show ?thesis by (simp add: list_volumes_def one_env_def wp_def)
qed

lemma wp_one_probe:
  "wp (path_exists one_env p) B X s = B False (push Looked s)"
  "d_run one_env n \<lparr>prog_name = ''blkid'', cmd_args = args, cmd_stdin = inp\<rparr> = Exited (Some 2) [] [] None"
  by (simp_all add: path_exists_def one_env_def) (simp add: wp_def)

lemma one_settles: "unread s \<Longrightarrow> wp (settle_disks n one_env fresh_cfg a b) (\<lambda>_. unread) (\<lambda>_. False) s"
  by (induction n arbitrary: a b s)
     (simp_all add: wp_ret wp_bnd wp_one_list record_event_def wp_update_state push_def Let_def)

lemma one_classifies:
  assumes "unread s"
  shows "wp (classify_all one_env fresh_cfg [str ''vol-1''])
     (\<lambda>infos s'. unread s' \<and> map (\<lambda>d. (di_id d, di_class d)) infos = [(str ''vol-1'', Blank)]) (\<lambda>_. False) s"
proof -
  have "classify \<lparr>probe_id = str ''vol-1'', has_part1 = False, part_fstype = None, part_partuuid = None,
      disk_pttype = None, disk_fstype = None\<rparr> u = Blank" for u
    by (simp add: Disk_Plan.classify_def)
  then show ?thesis using assms
    by (simp add: probe_def probe_value_def wp_bnd wp_exec wp_ret wp_one_probe Let_def push_def)
qed

lemma one_dask:
  assumes "unread s"
  shows "\<exists>s'. dask NewPassphrase t s = (Done (str ''x''), s') \<and> asked_once s'"
proof -
  let ?sn = "(dsnap s)\<lparr>dn_prompt := Some \<lparr>dp_id = 1, dp_kind = NewPassphrase, dp_text = t\<rparr>\<rparr>"
  obtain s' where "dask NewPassphrase t s = (Done (str ''x''), s')"
      "\<exists>e. dtrace s' = e # Typed NewPassphrase t (str ''x'') # Showed ?sn # dtrace s"
    using assms by (simp add: dask_def wait_for_answer_def answer_of_def dmutate_def update_state_def
        bnd_def ret_def push_def)
  then show ?thesis unfolding asked_in_def
    by (intro exI [of _ s'] conjI exI [of _ t] exI [of _ ?sn]) auto
qed

lemma wp_one_after:
  assumes "unread s" and "\<And>a. adds tooled (f a)"
  shows "wp (bnd (dask NewPassphrase t) f) (\<lambda>_. asked_once) asked_once s"
proof -
  obtain s' where s': "dask NewPassphrase t s = (Done (str ''x''), s')" "asked_once s'"
    using one_dask [OF assms(1)] by blast
  have "wp (f (str ''x'')) (\<lambda>_. asked_once) asked_once s'"
    by (rule wp_adds [OF assms(2) kept_asked s'(2)])
  then show ?thesis using s'(1) by (simp add: wp_def bnd_def)
qed

lemma one_run: "asked_once (snd (run_daemon one_env fresh_cfg (boot_state [(1, str ''x'')])))"
proof -
  have ask: "wp (bnd (ask_new_passphrase fresh_cfg) f) (\<lambda>_. asked_once) asked_once s"
    if "unread s" and f: "\<And>a. adds tooled (f a)" for f :: "rstr \<Rightarrow> unit diskd" and s
  proof -
    have "ask_new_passphrase fresh_cfg s = loop (Suc 1) (\<lambda>_. new_passphrase_turn fresh_cfg) () s"
      using that(1) by (simp add: ask_new_passphrase_def asking_def del: loop.simps)
    then have "bnd (ask_new_passphrase fresh_cfg) f s =
        bnd (loop (Suc 1) (\<lambda>_. new_passphrase_turn fresh_cfg) ()) f s"
      by (simp add: bnd_def del: loop.simps)
    moreover have "wp (bnd (loop (Suc 1) (\<lambda>_. new_passphrase_turn fresh_cfg) ()) f) (\<lambda>_. asked_once) asked_once s"
      unfolding loop.simps(2) new_passphrase_turn_def bnd_assoc
      by (rule wp_one_after [OF that(1)]) (intro adds_intros f; simp)
    ultimately show ?thesis by (simp add: wp_def)
  qed
  have carry: "wp (carry_out one_env fresh_cfg (plan [(str ''vol-1'', Blank)])) (\<lambda>_. asked_once) asked_once s"
    if "unread s" for s
  proof -
    have "plan [(str ''vol-1'', Blank)] = PlanProvision (str ''vol-1'')" by code_simp
    then have "carry_out one_env fresh_cfg (plan [(str ''vol-1'', Blank)]) = provision one_env fresh_cfg (str ''vol-1'')"
      by (simp add: carry_out_def)
    moreover have "wp (provision one_env fresh_cfg (str ''vol-1'')) (\<lambda>_. asked_once) asked_once s"
      unfolding provision_def
      apply (subst wp_bnd)
      apply (unfold wp_dstate)
      apply (rule ask)
       apply (use that in \<open>simp add: push_def\<close>)
      by (intro adds_intros; simp)
    ultimately show ?thesis by simp
  qed
  have "wp (run_daemon one_env fresh_cfg) (\<lambda>_. asked_once) asked_once (boot_state [(1, str ''x'')])"
    unfolding run_daemon_def wp_bnd wp_dstate settle_def run_quietly_def wp_exec wp_ret
    apply (rule wp_mono [OF one_settles])
      apply (simp add: boot_state_def push_def)
     apply (unfold wp_bnd wp_dstate wp_one_list)
     apply (rule wp_mono [OF one_classifies])
       apply (simp add: push_def)
      apply (elim conjE)
      apply (simp only: wp_dmutate)
      apply (rule carry)
      apply (simp add: push_def)
    by simp_all
  then show ?thesis by (rule wp_snd)
qed

text \<open>The operator who types the one letter and presses Enter.\<close>

lemma one_session:
  assumes "sn \<in> pub" and "dn_prompt sn = Some p" and "dp_kind p = NewPassphrase"
  shows "\<exists>a ks a'. disk_session pub True a ks \<and>
     disk_tui_turn True True (Press \<lparr>key = KeyEnter, control = False\<rparr>) a = Inr a' \<and>
     disk_app.answers a' = (dp_id p, str ''x'') # disk_app.answers a"
proof -
  let ?k = "\<lparr>key = KeyChar (ch CHR ''x''), control = False\<rparr>"
  let ?a1 = "disk_app_start\<lparr>ta_snap := sn\<rparr>"
  let ?a2 = "?a1\<lparr>ta_input := str ''x''\<rparr>"
  have "disk_session pub True ?a1 []"
    by (rule disk_session.turns [OF disk_session.begins, where ev = "Snap sn" and w = True])
       (use assms in \<open>simp_all add: disk_tui_turn_def adopt_disk_def disk_app_start_def empty_snapshot_def Let_def\<close>)
  then have "disk_session pub True ?a2 [?k]"
    by (rule disk_session.turns [where ev = "Press ?k" and w = True])
       (use assms in \<open>simp_all add: disk_tui_turn_def on_disk_key_def disk_app_start_def confirm_id_def
          answering_def str_def\<close>)
  moreover have "disk_tui_turn True True (Press \<lparr>key = KeyEnter, control = False\<rparr>) ?a2 =
      Inr (?a2\<lparr>disk_app.answers := [(dp_id p, str ''x'')], ta_input := []\<rparr>)"
    using assms by (simp add: disk_tui_turn_def on_disk_key_def submit_answer_def disk_app_start_def)
  ultimately show ?thesis by (fastforce simp: disk_app_start_def)
qed


end
