(* ===== verification/Nsw2_Device.thy ===== *)
theory Nsw2_Device
  imports Nsw2_Claims
begin

text \<open>
  nsw2-service from \<open>main\<close> to the two threads: the target on the command line, the handshake,
  the virtual gamepad as it is declared to uinput, and the descriptors the threads poll.
\<close>

section \<open>The virtual gamepad\<close>

record abs_info =
  ai_min :: int
  ai_max :: int
  ai_fuzz :: nat
  ai_flat :: nat

record gamepad =
  gp_name :: string
  gp_vendor :: "16 word"
  gp_product :: "16 word"
  gp_version :: "16 word"
  gp_keys :: "key_code list"
  gp_axes :: "(abs_axis \<times> abs_info) list"
  gp_effects_max :: nat

definition STICK_MIN :: int where "STICK_MIN = - 32768"
definition STICK_MAX :: int where "STICK_MAX = 32767"
definition TRIG_MIN :: int where "TRIG_MIN = 0"
definition TRIG_MAX :: int where "TRIG_MAX = 255"

definition build_virtual_device :: gamepad where
  "build_virtual_device =
     (let stick = \<lparr>ai_min = STICK_MIN, ai_max = STICK_MAX, ai_fuzz = 64, ai_flat = 512\<rparr>;
          trigger = \<lparr>ai_min = TRIG_MIN, ai_max = TRIG_MAX, ai_fuzz = 2, ai_flat = 4\<rparr> in
      \<lparr>gp_name = ''Nintendo Switch 2 NSO GameCube Controller'', gp_vendor = VENDOR_ID,
       gp_product = PRODUCT_ID, gp_version = 0x0001,
       gp_keys = remdups (map (snd \<circ> snd) KEY_MAP),
       gp_axes = [(ABS_X, stick), (ABS_Y, stick), (ABS_RX, stick), (ABS_RY, stick),
         (ABS_Z, trigger), (ABS_RZ, trigger)],
       gp_effects_max = MAX_FF_EFFECTS\<rparr>)"

section \<open>Descriptors\<close>

definition POLLIN :: "16 word" where "POLLIN = 0x0001"
definition POLLERR :: "16 word" where "POLLERR = 0x0008"
definition POLLHUP :: "16 word" where "POLLHUP = 0x0010"
definition POLLNVAL :: "16 word" where "POLLNVAL = 0x0020"

definition readable :: "16 word \<Rightarrow> bool" where
  "readable revents \<longleftrightarrow> revents AND POLLIN \<noteq> 0"

definition has_error :: "16 word \<Rightarrow> bool" where
  "has_error revents \<longleftrightarrow> revents AND (POLLERR OR POLLHUP OR POLLNVAL) \<noteq> 0"

text \<open>\<open>PollSet::wait\<close>: an interrupted poll is no error; \<open>EINTR\<close> is 4.\<close>

definition poll_wait :: "nat option \<Rightarrow> nat option" where
  "poll_wait errno = (case errno of None \<Rightarrow> None | Some e \<Rightarrow> if e = 4 then None else Some e)"

section \<open>The start\<close>

text \<open>What opening things answers; the scans are those of the hidraw lookup.\<close>

record setup_env =
  api_fault :: "message option"
  scans :: "hid_scan list"
  sys :: sysfs
  hidraw_name :: "rstr \<Rightarrow> rstr option"
  open_fault :: "message option"
  flags_fault :: "message option"
  uinput_fault :: "message option"
  vdev_flags_fault :: "message option"
  state_channel_fault :: "message option"
  rumble_channel_fault :: "message option"
  eventfd_fault :: "message option"
  dup_fault :: "message option"

definition checked :: "string \<Rightarrow> message option \<Rightarrow> unit usb" where
  "checked what fault = (case fault of None \<Rightarrow> ret () | Some e \<Rightarrow> fail (Fmt ''{}: {}'' [lit what, e]))"

definition open_hidraw :: "setup_env \<Rightarrow> rstr \<Rightarrow> unit usb" where
  "open_hidraw S path =
     bnd (case open_fault S of None \<Rightarrow> ret () | Some e \<Rightarrow> fail (Fmt ''open {}: {}'' [Str path, e])) (\<lambda>_.
     case flags_fault S of None \<Rightarrow> ret () | Some e \<Rightarrow> fail (Fmt ''set O_NONBLOCK on {}: {}'' [Str path, e]))"

text \<open>
  \<open>bridge::run\<close> up to the threads, whose state is \<open>bridge_start\<close>; a lookup whose scans run out
  is still looking.
\<close>

definition bridge_open :: "setup_env \<Rightarrow> (byte \<times> byte) option \<Rightarrow> gamepad usb" where
  "bridge_open S target =
     bnd (checked ''initialize hidapi'' (api_fault S)) (\<lambda>_.
     bnd (case (case target of
            Some t \<Rightarrow> find_specific_hidraw_path (sys S) (hidraw_name S) t (scans S)
          | None \<Rightarrow> find_hidraw_path (scans S)) of
          None \<Rightarrow> wait
        | Some (Inl e) \<Rightarrow> fail (Fmt ''find hidraw device path: {}'' [e])
        | Some (Inr path) \<Rightarrow> ret path) (\<lambda>path.
     bnd (map_err (\<lambda>e. Fmt ''open hidraw device: {}'' [e]) (open_hidraw S path)) (\<lambda>_.
     bnd (checked ''create virtual gamepad via uinput'' (uinput_fault S)) (\<lambda>_.
     bnd (checked ''put vdev fd in O_NONBLOCK'' (vdev_flags_fault S)) (\<lambda>_.
     bnd (checked ''create state channel'' (state_channel_fault S)) (\<lambda>_.
     bnd (checked ''create rumble channel'' (rumble_channel_fault S)) (\<lambda>_.
     bnd (checked ''create shutdown eventfd'' (eventfd_fault S)) (\<lambda>_.
     bnd (checked ''dup shutdown eventfd'' (dup_fault S)) (\<lambda>_.
     ret build_virtual_device)))))))))"

text \<open>
  \<open>main\<close> before the threads: the files of the sysfs path on the command line, the handshake,
  the bridge.  When the bridge cannot be opened the channel is dropped.
\<close>

definition nsw2_main :: "usb_env \<Rightarrow> setup_env \<Rightarrow> ((message + rstr) \<times> (message + rstr)) option \<Rightarrow>
    (byte \<times> gamepad) usb" where
  "nsw2_main U S arg =
     bnd (case arg of
          Some (busnum, devnum) \<Rightarrow>
            (case parse_sysfs_path busnum devnum of Inl e \<Rightarrow> fail e | Inr t \<Rightarrow> ret (Some t))
        | None \<Rightarrow> ret None) (\<lambda>target.
     bnd (init_run U target) (\<lambda>bulk_out.
     bnd (attempt (bridge_open S target)) (\<lambda>r. case r of
         Inl e \<Rightarrow> bnd (drop_channel U bulk_out) (\<lambda>_. fail e)
       | Inr g \<Rightarrow> ret (bulk_out, g))))"

section \<open>What the gamepad declares\<close>

fun declares :: "gamepad \<Rightarrow> input_event \<Rightarrow> bool" where
  "declares g (KeyEvent k v) = (k \<in> set (gp_keys g) \<and> (v = 0 \<or> v = 1))"
| "declares g (AbsEvent a v) = (case map_of (gp_axes g) a of
      Some i \<Rightarrow> ai_min i \<le> v \<and> v \<le> ai_max i
    | None \<Rightarrow> False)"

lemma axis_range: "(a = ABS_Z \<or> a = ABS_RZ \<longrightarrow> 0 \<le> v \<and> v \<le> 255) \<Longrightarrow> - 32768 \<le> v \<Longrightarrow> v \<le> 32767 \<Longrightarrow>
    declares build_virtual_device (AbsEvent a v)"
  by (cases a) (simp_all add: build_virtual_device_def Let_def STICK_MIN_def STICK_MAX_def TRIG_MIN_def TRIG_MAX_def)

lemma sint16: "- 32768 \<le> sint (w :: 16 word)" "sint (w :: 16 word) \<le> 32767"
  using sint_ge [of w] sint_lt [of w] by simp_all

lemma uint8: "uint (b :: byte) \<le> 255"
  using uint_lt2p [of b] by simp

lemma emit_declared:
  assumes "e \<in> set (emit_events s l)"
  shows "declares build_virtual_device e"
proof -
  have keys: "declares build_virtual_device e" if "e \<in> set (concat (map (key_event s l) KEY_MAP))"
  proof -
    from that obtain m where "m \<in> set KEY_MAP" "e = KeyEvent (snd (snd m)) (of_bool (pressed s m))"
      by (auto simp: key_event_def Let_def split: if_splits)
    then show ?thesis by (auto simp: build_virtual_device_def Let_def)
  qed
  have trigger: "declares build_virtual_device (AbsEvent a (uint b))" for a and b :: byte
    by (rule axis_range) (use uint8 [of b] in \<open>auto intro: order_trans [OF _ uint_ge_0]\<close>)
  have stick: "declares build_virtual_device (AbsEvent a (sint w))"
    if "a \<noteq> ABS_Z" "a \<noteq> ABS_RZ" for a and w :: "16 word"
    by (rule axis_range) (use that sint16 [of w] in auto)
  show ?thesis
    using assms keys unfolding emit_events_def
    by (auto simp: axis_event_def abs_event_def intro: stick trigger split: if_splits)
qed

text \<open>Every event of every batch is declared.\<close>

definition declared_log :: "bridge \<Rightarrow> bool" where
  "declared_log b \<longleftrightarrow> (\<forall>(es, ok)\<in>set (device_log b). \<forall>e\<in>set es. declares build_virtual_device e)"

lemma keeps_declared_state: "keeps declared_log (handle_state V st)"
proof -
  have "keeps declared_log (emit_state V st prev)" for prev
    by (auto simp: keeps_def emit_state_def declared_log_def Let_def ret_def intro: emit_declared split: option.split)
  moreover have "keeps declared_log (update_state (\<lambda>b. b\<lparr>last_state := st\<rparr>))"
    by (simp add: keeps_def update_state_def declared_log_def)
  ultimately show ?thesis unfolding handle_state_def by (intro keeps_intros)
qed

lemma keeps_declared_drain: "keeps declared_log (drain_states V)"
proof -
  have "keeps declared_log (update_state (\<lambda>b. b\<lparr>states := c\<rparr>))" for c
    by (simp add: keeps_def update_state_def declared_log_def)
  then show ?thesis
    unfolding drain_states_def by (auto intro!: keeps_intros keeps_declared_state split: prod.split)
qed

interpretation declared: turn_invariant V declared_log for V
proof unfold_locales
  show "declared_log (snd (drain_states V b))" if "declared_log b" for V b
    using keeps_declared_drain that by (simp add: keeps_def)
  show "declared_log (upload kind b)" if "declared_log b" for kind b
    using that by (cases "available_ids b") (auto simp: upload_def declared_log_def)
  show "declared_log (snd (send_state st (b\<lparr>reports := reports b @ [bs]\<rparr>)))" if "declared_log b" for st b bs
    using that by (auto simp: declared_log_def send_state_def split: option.split)
qed (simp_all add: declared_log_def erase_def)

lemma declared_step:
  assumes "service_step U out V s t" and "declared_log (world s)"
  shows "declared_log (world t)"
proof -
  have exit: "declared_log (hid_exit U out b)" if "declared_log b" for b
    using that by (intro declared.hid_exit_kept) (simp_all add: declared_log_def)
  have leave: "declared_log (main_exit b)" if "declared_log b" for b
    using that by (simp add: main_exit_def declared_log_def)
  show ?thesis
    using assms
    by (elim service_stepE)
      (auto intro!: exit leave dest: keepsD [OF declared.keeps_hid_turn] keepsD [OF declared.keeps_main_turn])
qed

section \<open>Properties\<close>

text \<open>C27: The gamepad keeps its declaration: in every reachable state of the service, whatever the
  controller reports, every event written to uinput is of a key or an axis the device was created
  with, a key is 0 or 1, and an axis lies in the range declared for it, so the kernel drops or
  clamps none.\<close>

theorem gamepad_keeps_declaration:
  assumes "service_reachable U bulk_out V cs s"
  shows "\<forall>(es, ok)\<in>set (device_log (world s)). \<forall>e\<in>set es. declares build_virtual_device e"
proof -
  have "declared_log (world s)"
    using assms
    by (induction rule: service_reachable.induct) (auto intro: declared_step, simp add: declared_log_def bridge_start_def)
  then show ?thesis by (simp add: declared_log_def)
qed

lemma demo_emits: "device_log after_emit \<noteq> []"
proof
  assume none: "device_log after_emit = []"
  have "view_inv (last_state after_emit) (device_log after_emit)"
    using service_inv [OF demo_reachable(1)] by (simp add: service_inv_def path_inv_def at_start_def)
  then have "view_of default_state = view_of demo_state" by (simp add: view_inv_def none after_emit_eff)
  then have "axis_value default_state ABS_X = axis_value demo_state ABS_X" by (simp add: view_of_def)
  moreover have "sint (fst (stick_l demo_state)) = - 32752"
    using parse_report_sticks [of 4095 2048 0 2048 demo_report] demo_report_parses
    by (auto simp: demo_state_def demo_report_def pack_12bit_def)
  ultimately show False by (simp add: default_state_def)
qed

theorem gamepad_keeps_declaration_witness:
  "list_all (\<lambda>(es, ok). list_all (declares build_virtual_device) es) (device_log after_emit) \<and>
     device_log after_emit \<noteq> []"
  using gamepad_keeps_declaration [OF demo_reachable(1)] demo_emits
  by (auto simp: at_start_def list_all_iff)

end
