(* ===== verification/Hypr_Listener.thy ===== *)
theory Hypr_Listener
  imports Hypr_Daemon
begin

text \<open>
  The task of hypr-workspaced that listens to Hyprland's events
  (\<open>packages/hypr-workspaced/src/daemon.rs\<close>): what an event does to the channels of the loop, and
  how the task starts the listener again and, after a lost connection, restarts a user service.
\<close>

section \<open>Code\<close>

datatype ipc_event = MonitorAdded rstr | MonitorRemoved rstr | ConfigReloaded | WorkspaceChanged int

fun listener_event :: "ipc_event \<Rightarrow> daemon_state \<Rightarrow> daemon_state" where
  "listener_event (MonitorAdded name) st = st\<lparr>dm_queue := dm_queue st @ [MonitorChanged]\<rparr>"
| "listener_event (MonitorRemoved name) st = st\<lparr>dm_queue := dm_queue st @ [MonitorChanged]\<rparr>"
| "listener_event ConfigReloaded st = st\<lparr>dm_queue := dm_queue st @ [MonitorChanged]\<rparr>"
| "listener_event (WorkspaceChanged i) st = workspace_changed i st"

text \<open>
  A round of the task: whether \<open>run_hyprland_listener\<close> ended with an error, after how many
  milliseconds, and whether the query of the monitors that may follow is answered.  The task's
  variables, and the services it asked systemd to restart, the latest first; an answer of systemd
  is only logged.
\<close>

record listener_round =
  ended_with_error :: bool
  ran_for :: nat
  query_ok :: bool

record listener_task =
  had_connection :: bool
  restart_pending :: bool
  restarted :: "rstr list"

definition task_start :: listener_task where
  "task_start = \<lparr>had_connection = False, restart_pending = False, restarted = []\<rparr>"

definition note_end :: "listener_round \<Rightarrow> listener_task \<Rightarrow> listener_task" where
  "note_end r t = (if ended_with_error r \<and> 2000 \<le> ran_for r
     then t\<lparr>had_connection := True, restart_pending := True\<rparr> else t)"

definition listener_turn :: "rstr option \<Rightarrow> listener_round \<Rightarrow> listener_task \<Rightarrow> listener_task" where
  "listener_turn service r t0 =
     (let t = note_end r t0 in
      if restart_pending t \<and> had_connection t \<and> query_ok r then
        (case service of
           Some s \<Rightarrow> t\<lparr>restarted := s # restarted t, restart_pending := False\<rparr>
         | None \<Rightarrow> t\<lparr>restart_pending := False\<rparr>)
      else t)"

definition task_after :: "rstr option \<Rightarrow> listener_round list \<Rightarrow> listener_task" where
  "task_after service rs = fold (listener_turn service) rs task_start"

section \<open>Events\<close>

lemma listener_event_step: "dm_alive st \<Longrightarrow> daemon_step E st (listener_event ev st)"
  by (cases ev) (auto intro: daemon_step.monitor daemon_step.changed)

lemma listener_events_reachable:
  assumes "daemon_reachable E s st" and "dm_alive st"
  shows "daemon_reachable E s (fold listener_event evs st)"
  using assms
proof (induction evs arbitrary: st)
  case (Cons ev evs)
  have "dm_alive (listener_event ev st)"
    using Cons.prems(2) by (cases ev) (simp_all add: workspace_changed_def)
  with Cons show ?case by (auto intro: daemon_reachable.step listener_event_step)
qed simp

section \<open>Restarts\<close>

definition conn_lost :: "listener_round \<Rightarrow> bool" where
  "conn_lost r \<longleftrightarrow> ended_with_error r \<and> 2000 \<le> ran_for r"

text \<open>Reference: the rounds since the last query that was answered while a loss was open.\<close>

fun open_loss :: "listener_round list \<Rightarrow> bool" where
  "open_loss [] = False"
| "open_loss (r # rs) = ((conn_lost r \<or> open_loss rs) \<and> \<not> query_ok r)"

fun answered_losses :: "listener_round list \<Rightarrow> nat" where
  "answered_losses [] = 0"
| "answered_losses (r # rs) =
     (if (conn_lost r \<or> open_loss rs) \<and> query_ok r then Suc (answered_losses rs) else answered_losses rs)"

lemma task_rev: "task_after service (rs @ [r]) = listener_turn service r (task_after service rs)"
  by (simp add: task_after_def)

lemma task_state:
  "let t = task_after service (rev rs) in
     (restart_pending t \<longleftrightarrow> open_loss rs) \<and> (had_connection t \<longleftrightarrow> (\<exists>r\<in>set rs. conn_lost r)) \<and>
     restarted t = (case service of Some s \<Rightarrow> replicate (answered_losses rs) s | None \<Rightarrow> [])"
proof (induction rs)
  case Nil
  then show ?case by (simp add: task_after_def task_start_def split: option.split)
next
  case (Cons r rs)
  have "open_loss rs \<Longrightarrow> \<exists>r\<in>set rs. conn_lost r" by (induction rs) auto
  with Cons show ?case
    by (auto simp: task_rev listener_turn_def note_end_def conn_lost_def Let_def split: option.split)
qed

lemma open_lossI: "conn_lost r \<Longrightarrow> \<forall>x\<in>set (new @ [r]). \<not> query_ok x \<Longrightarrow> open_loss (new @ r # old)"
  by (induction new) auto

lemma open_lossD:
  "open_loss rs \<Longrightarrow> \<exists>new r old. rs = new @ r # old \<and> conn_lost r \<and> (\<forall>x\<in>set (new @ [r]). \<not> query_ok x)"
proof (induction rs)
  case (Cons a rs)
  show ?case
  proof (cases "conn_lost a")
    case True
    with Cons.prems show ?thesis by (intro exI [of _ "[]"] exI [of _ a] exI [of _ rs]) simp
  next
    case False
    with Cons obtain new r old where "rs = new @ r # old" "conn_lost r" "\<forall>x\<in>set (new @ [r]). \<not> query_ok x" by auto
    with Cons.prems show ?thesis by (intro exI [of _ "a # new"] exI [of _ r] exI [of _ old]) simp
  qed
qed simp

lemma answered_some: "conn_lost r \<Longrightarrow> r \<in> set rs \<Longrightarrow> \<not> open_loss rs \<Longrightarrow> 0 < answered_losses rs"
  by (induction rs) auto

lemma answered_le_lost: "answered_losses rs + of_bool (open_loss rs) \<le> length (filter conn_lost rs)"
  by (induction rs) auto

text \<open>A lost connection to Hyprland restarts the configured service once a round of the task finds
  Hyprland answering: a loss stays open exactly while no query since has been answered; when
  none is open after a loss the service has been restarted; and restarts and the open loss
  together are never more than the connections lost, each a restart of the configured service.\<close>

theorem service_restarts_after_loss:
  "let t = task_after service rs in
     length (restarted t) + of_bool (restart_pending t) \<le> length (filter conn_lost rs) \<and>
     set (restarted t) \<subseteq> set_option service \<and>
     (restart_pending t \<longleftrightarrow>
        (\<exists>old r new. rs = old @ r # new \<and> conn_lost r \<and> (\<forall>x\<in>set (r # new). \<not> query_ok x))) \<and>
     ((\<exists>r\<in>set rs. conn_lost r) \<and> \<not> restart_pending t \<and> service \<noteq> None \<longrightarrow> restarted t \<noteq> [])"
proof -
  have "open_loss (rev rs) \<longleftrightarrow> (\<exists>old r new. rs = old @ r # new \<and> conn_lost r \<and> (\<forall>x\<in>set (r # new). \<not> query_ok x))"
  proof
    assume "open_loss (rev rs)"
    then obtain new r old where "rev rs = new @ r # old" "conn_lost r" "\<forall>x\<in>set (new @ [r]). \<not> query_ok x"
      using open_lossD by blast
    then show "\<exists>old r new. rs = old @ r # new \<and> conn_lost r \<and> (\<forall>x\<in>set (r # new). \<not> query_ok x)"
      by (intro exI [of _ "rev old"] exI [of _ r] exI [of _ "rev new"]) (auto simp: rev_swap)
  next
    assume "\<exists>old r new. rs = old @ r # new \<and> conn_lost r \<and> (\<forall>x\<in>set (r # new). \<not> query_ok x)"
    then obtain old r new where "rs = old @ r # new" "conn_lost r" "\<forall>x\<in>set (r # new). \<not> query_ok x" by blast
    then show "open_loss (rev rs)" using open_lossI [of r "rev new" "rev old"] by simp
  qed
  moreover have "length (filter conn_lost (rev rs)) = length (filter conn_lost rs)" by (simp flip: rev_filter)
  ultimately show ?thesis
    using task_state [of service "rev rs"] answered_le_lost [of "rev rs"] answered_some [of _ "rev rs"]
    by (cases service) (auto simp: Let_def)
qed

definition crash :: listener_round where
  "crash = \<lparr>ended_with_error = True, ran_for = 5000, query_ok = False\<rparr>"

theorem service_restarts_after_loss_witness:
  "restarted (task_after (Some (str ''bar'')) [crash, crash\<lparr>ran_for := 3, query_ok := True\<rparr>]) \<noteq> []"
proof -
  let ?rs = "[crash, crash\<lparr>ran_for := 3, query_ok := True\<rparr>]"
  have "\<not> restart_pending (task_after (Some (str ''bar'')) ?rs)"
    by (simp add: task_after_def listener_turn_def note_end_def task_start_def crash_def Let_def)
  moreover have "\<exists>r\<in>set ?rs. conn_lost r" by (simp add: conn_lost_def crash_def)
  ultimately show ?thesis
    using service_restarts_after_loss [of "Some (str ''bar'')" ?rs] by (simp add: Let_def)
qed

text \<open>
  A listener ends when Hyprland is gone, so the query right after it rarely finds it answering:
  while the listener runs again the task does not ask.  With no answered query nothing is ever
  restarted, however often Hyprland comes back.
\<close>

lemma no_restart_unanswered:
  assumes "\<forall>r\<in>set rs. \<not> query_ok r"
  shows "restarted (task_after service rs) = []"
proof -
  have "\<forall>r\<in>set xs. \<not> query_ok r \<Longrightarrow> answered_losses xs = 0" for xs by (induction xs) auto
  from this [of "rev rs"] assms show ?thesis
    using task_state [of service "rev rs"] by (simp add: Let_def split: option.splits)
qed

end
