(* ===== verification/Spec2Isabelle.thy ===== *)
theory Spec2Isabelle
  imports Secrets_Claims Disk_Claims Hypr_Claims Oidc_Claims Nsw2_Claims
    Flasher_Screen Tui_Claims Secrets_Oidc Snapshot_Hub
    Disk_Operator Nsw2_Device Hypr_Listener
begin

text \<open>
  A verification development of foundrix, a NixOS framework with a set of Rust programs under
  \<open>src/packages/\<close>.  It models the programs that decide something: the two boot daemons that
  hold a host's secrets and its encrypted data disk, the validator of credentials, the
  window-manager daemon, the controller driver, the program that writes system images, and the
  terminal programs through which an operator answers the boot daemons.

  \<^bold>\<open>Programs and theories.\<close>

  \<^item> \<open>Prelude\<close>: list helpers and the daemon programs.  The \<open>async\<close> daemons are straight-line
    code over one state, so a function is a state-passing \<open>prog\<close> whose outcome is one of
    returned, failed, parked for good, or waiting for an operator message.  \<open>wp\<close> and \<open>keeps\<close>
    are its weakest preconditions and its invariants.  \<open>mailbox\<close> is the contract of a prompt
    with the messages that answer it.
  \<^item> \<open>Rust_Str\<close>: strings as lists of Unicode scalar values, with the library methods the
    programs call on them.
  \<^item> operator-secrets (\<open>packages/operator-secrets\<close>).  \<open>Secrets_Spec\<close>: the specification and its
    checks.  \<open>Env_File\<close>: the env-file encoder and parser, over the interface \<open>value_codec\<close>.
    \<open>Secrets_Forms\<close>: forms, stored state and verdicts.  \<open>Secrets_Daemon\<close>: the daemon, from the
    UI hub to the boot and edit sessions.  \<open>Secrets_Safety\<close>, \<open>Secrets_Session\<close> and
    \<open>Secrets_Privacy\<close> prove what the sessions keep, over the interface \<open>session_invariant\<close> of
    \<open>Secrets_Invariant\<close>; \<open>Secrets_Start\<close> is the way from \<open>main\<close> to the sessions;
    \<open>Secrets_Claims\<close> states the properties.
  \<^item> var-disk-manager (\<open>packages/var-disk-manager\<close>).  \<open>Disk_Plan\<close>: classification of the disks and
    the plan for them.  \<open>Disk_Daemon\<close>: the daemon, from probing to unlock, format, migration and
    provisioning.  \<open>Disk_Safety\<close> proves which commands a boot runs, \<open>Disk_Start\<close> is the way
    from \<open>main\<close> to the boot with the tools it needs; \<open>Disk_Claims\<close> states the
    properties.
  \<^item> hypr-workspaced (\<open>packages/hypr-workspaced\<close>).  \<open>Hypr_Ids\<close>: workspace numbers, the registry
    of monitors and the layout, with the interfaces \<open>workspace_ids\<close> and \<open>slot_registry\<close>.
    \<open>Hypr_Wire\<close>: the command protocol, window patterns and requests, over \<open>text_codec\<close>.
    \<open>Hypr_Lua\<close>: how Lua reads the literals in a request.  \<open>Hypr_Manager\<close>: the operations on
    Hyprland.  \<open>Hypr_Daemon\<close>: the loop, the client and the command line; \<open>Hypr_Listener\<close>:
    the task that listens to events.  \<open>Hypr_Safety\<close> and \<open>Hypr_Claims\<close>: the proofs and the
    properties.
  \<^item> oidc-credential-validator (\<open>packages/oidc-credential-validator\<close>), the validator the secrets
    daemon runs.  \<open>Rust_Bytes\<close>: UTF-8, form encoding and base64 on bytes, with their decoders.
    \<open>Oidc\<close>: discovery, the two probes and their verdicts.  \<open>Oidc_Claims\<close>: the interface
    \<open>probe\<close> of a request that proves credentials, its two interpretations, and the properties.
    \<open>Secrets_Oidc\<close> composes the daemon with the validator.
  \<^item> nsw2-service (\<open>packages/nsw2-service\<close>), a driver for a game controller.  \<open>Nsw2_Report\<close>:
    input reports, the events they become and rumble frames.  \<open>Nsw2_Init\<close>: the USB handshake.
    \<open>Nsw2_Poll\<close>: the channel between the threads, its steps interleaved.  \<open>Nsw2_Bridge\<close>: the
    two threads, force feedback and the hidraw lookup.  \<open>Nsw2_Claims\<close>: the interfaces
    \<open>work_invariant\<close> and \<open>turn_invariant\<close> of what a turn keeps, their interpretations, and the
    properties.  \<open>Nsw2_Device\<close>: the way from \<open>main\<close> to the threads and the declared gamepad.
  \<^item> flasher-tui (\<open>packages/flasher-tui\<close>).  \<open>Flasher\<close>: finding the disks, writing the image and
    the loop of the screens.  \<open>Flasher_Claims\<close>: the properties.  \<open>Flasher_Screen\<close>: the text of the
    screens with the sizes as shown, the terminal and the kernel's console.
  \<^item> The terminal programs of the two boot daemons (\<open>src/bin/tui.rs\<close> of operator-secrets and of
    var-disk-manager).  \<open>Tui_Keys\<close>: keys and the events of a loop turn, shared with the flasher.
    \<open>Secrets_Tui\<close> and \<open>Disk_Tui\<close>: the turn of the loop, the messages sent, the text drawn, line
    mode and the command line.  \<open>Tui_Claims\<close>: the properties, among them what a submitted form
    means to the daemon.
    \<open>Disk_Operator\<close> composes the disk daemon with its terminal program, over the interface
    \<open>boot_invariant\<close>.
  \<^item> \<open>Snapshot_Hub\<close>: how both boot daemons serve the connections of these programs, publishing
    and serving interleaved.

  \<^bold>\<open>How the models read the code.\<close>  A struct is a record, an enum a datatype, and every early
  return, error and panic a branch.  What the daemons do to the world is a trace in their
  state: commands run, files changed, snapshots shown, requests sent.  The world answers through
  a record of functions, the environment, asked with the position in that trace, so that the
  same call may answer differently each time; the theorems hold for every environment unless
  they say otherwise.  Paths are strings, an em dash of a message is written as a hyphen, and
  messages that only people read are kept as a format string with its arguments.  Integers whose
  overflow matters are words (\<open>8 word\<close> slots, \<open>16 word\<close> coordinates, \<open>64 word\<close> generations) or
  carry the wrap-around explicitly; the builds are release builds, where arithmetic wraps.

  \<^bold>\<open>Bounds.\<close>  A loop over operator messages takes at most one turn more than there are messages
  in the inbox, because every turn consumes one; \<open>loop_enough\<close> shows that a larger bound gives
  the same run, and the properties on the asking loops state it for the daemons.  Loops over
  files, disks, clients or monitors are structural.  A run is thus a finite prefix of a daemon's
  life, and \<open>Waiting\<close> is a daemon that needs the next message.

  \<^bold>\<open>What the lemmas show.\<close>  Codecs are proved once as interfaces and interpreted on the code's
  printers and parsers.  Safety of the boot daemons is an invariant over the trace, proved for
  each operation and composed by \<open>wp\<close>.  The workspace manager is treated twice: for every
  behaviour of Hyprland (\<open>only\<close>), and exactly, request by request, for a Hyprland that answers
  (\<open>does\<close>).  Its loop is a step relation with an invariant by rule induction.

  \<^bold>\<open>Not modelled.\<close>  Colours, layout and raw mode of the terminal programs, and how the list
  widget of the flasher adjusts a selection while it draws, belong to the terminal library.
  Spawning processes, the socket calls, JSON, HTTP, libusb and the parsing of command lines by
  clap are libraries the sources call and appear as environment functions or parameters.  The
  Nix modules, the documentation and the shell scripts are not Rust.
\<close>

end
